(* ===== verification/Prelude.thy ===== *)
theory Prelude
  imports Main "HOL-Library.Sublist"
begin

text \<open>
  Shared vocabulary of the development: the types the Go code uses everywhere (bytes, times,
  durations), the bounded view of a growing log, and the contract of everything in the
  program that remembers a bounded amount of the recent past.
\<close>

section \<open>Types\<close>

text \<open>
  A Go \<open>string\<close> and a \<open>[]byte\<close> are sequences of bytes; Isabelle's \<open>char\<close> is a byte, so both
  are \<open>string\<close>. A \<open>time.Duration\<close> is an integer number of nanoseconds. A \<open>time.Time\<close> is the
  number of nanoseconds since the Unix epoch; its zero value, which the code tests with
  \<open>IsZero\<close>, is \<open>None\<close>.
\<close>

type_synonym byte = char
type_synonym duration = int
type_synonym instant = int
type_synonym go_time = "instant option"

abbreviation millisecond :: duration where
  "millisecond \<equiv> 1000000"

abbreviation second :: duration where
  "second \<equiv> 1000000000"

definition unix :: "instant \<Rightarrow> int" where
  \<comment> \<open>\<open>Time.Unix\<close>: whole seconds, rounded down.\<close>
  "unix t = t div second"

named_theorems model_defs \<open>definitions of the model that evaluation of a concrete run unfolds\<close>

section \<open>The newest entries of a list\<close>

definition last_n :: "nat \<Rightarrow> 'a list \<Rightarrow> 'a list" where
  "last_n n xs = drop (length xs - n) xs"

lemma length_last_n [simp]: "length (last_n n xs) = min n (length xs)"
  by (simp add: last_n_def)

lemma last_n_id [simp]: "length xs \<le> n \<Longrightarrow> last_n n xs = xs"
  by (simp add: last_n_def)

lemma last_n_Nil [simp]: "last_n n [] = []"
  by (simp add: last_n_def)

lemma last_n_eq_Nil: "last_n n xs = [] \<longleftrightarrow> n = 0 \<or> xs = []"
  by (cases xs) (auto simp: last_n_def)

lemma last_n_0 [simp]: "last_n 0 xs = []"
  by (simp add: last_n_def)

lemma last_n_append_long: "n \<le> length ys \<Longrightarrow> last_n n (xs @ ys) = last_n n ys"
  by (simp add: last_n_def)

lemma last_n_append:
  "last_n n (last_n n xs @ ys) = last_n n (xs @ ys)"
proof (cases "length xs \<le> n")
  case True
  then show ?thesis by simp
next
  case False
  let ?k = "length xs - n"
  have "last_n n (xs @ ys) = last_n n (take ?k xs @ (drop ?k xs @ ys))"
    by (simp only: append_assoc [symmetric] append_take_drop_id)
  also have "\<dots> = last_n n (drop ?k xs @ ys)" using False by (intro last_n_append_long) simp
  finally show ?thesis by (simp add: last_n_def)
qed

lemma last_n_snoc_full:
  "length xs = n \<Longrightarrow> 0 < n \<Longrightarrow> last_n n (xs @ [x]) = tl xs @ [x]"
  by (cases xs) (simp_all add: last_n_def)

lemma last_n_snoc_tl:
  assumes "length xs \<le> n" and "0 < n" and "n < Suc (length xs)"
  shows "tl (xs @ [x]) = last_n n (xs @ [x])"
proof -
  have "length xs = n" using assms by simp
  with assms(2) show ?thesis by (cases xs) (auto simp: last_n_def)
qed

lemma suffix_last_n: "suffix (last_n n xs) xs"
  by (simp add: last_n_def suffix_drop)

lemma set_last_n: "set (last_n n xs) \<subseteq> set xs"
  by (simp add: last_n_def set_drop_subset)

lemma last_last_n [simp]: "0 < n \<Longrightarrow> xs \<noteq> [] \<Longrightarrow> last (last_n n xs) = last xs"
  by (simp add: last_n_def)

section \<open>Contract: a log that keeps the newest entries\<close>

text \<open>
  The journal's ring, the console's transcript and the context lines of the line tail are
  three different data structures with one contract: pushing an entry appends it and
  forgets from the front what no longer fits. What their clients rely on is proved here
  once, over \<open>view\<close>, the list of entries a reader sees.
\<close>

locale bounded_log =
  fixes push :: "'e \<Rightarrow> 's \<Rightarrow> 's"
    and view :: "'s \<Rightarrow> 'e list"
    and good :: "'s \<Rightarrow> bool"
    and cap :: nat
  assumes cap_pos: "0 < cap"
    and good_push: "good s \<Longrightarrow> good (push e s)"
    and view_push: "good s \<Longrightarrow> view (push e s) = last_n cap (view s @ [e])"
begin

definition push_all :: "'e list \<Rightarrow> 's \<Rightarrow> 's" where
  "push_all es s = fold push es s"

lemma good_push_all: "good s \<Longrightarrow> good (push_all es s)"
  by (induction es arbitrary: s) (simp_all add: push_all_def good_push)

lemma view_push_all:
  "good s \<Longrightarrow> length (view s) \<le> cap \<Longrightarrow> view (push_all es s) = last_n cap (view s @ es)"
proof (induction es arbitrary: s)
  case Nil
  then show ?case by (simp add: push_all_def)
next
  case (Cons e es)
  have "view (push_all es (push e s)) = last_n cap (view (push e s) @ es)"
    using Cons.prems by (intro Cons.IH) (simp_all add: good_push view_push)
  also have "\<dots> = last_n cap (view s @ e # es)"
    using Cons.prems last_n_append [of cap "view s @ [e]" es] by (simp add: view_push)
  finally show ?case by (simp add: push_all_def)
qed

lemma view_bounded: "good s \<Longrightarrow> length (view (push e s)) \<le> cap"
  by (simp add: view_push)

lemma newest_kept: "good s \<Longrightarrow> view (push e s) \<noteq> [] \<and> last (view (push e s)) = e"
  using cap_pos by (simp add: view_push last_n_eq_Nil)

lemma nothing_invented: "good s \<Longrightarrow> set (view (push e s)) \<subseteq> insert e (set (view s))"
  using set_last_n [of cap "view s @ [e]"] by (simp add: view_push)

end

section \<open>Contract: a lease that has to be renewed\<close>

text \<open>
  The aiming beam and the recording of the console are both held on by somebody who keeps
  asking. \<open>granted\<close> says whether a request made at a time is granted, \<open>renew\<close> takes or renews
  the lease, \<open>live\<close> says whether it is held. Whoever was granted the lease may renew it.
\<close>

locale renewable_lease =
  fixes granted :: "instant \<Rightarrow> 's \<Rightarrow> bool"
    and renew :: "instant \<Rightarrow> 's \<Rightarrow> 's"
    and live :: "'s \<Rightarrow> instant \<Rightarrow> bool"
    and lease :: duration
  assumes lease_pos: "0 < lease"
    and live_renew: "granted t s \<Longrightarrow> live (renew t s) t' \<longleftrightarrow> t' < t + lease"
    and granted_again: "granted t s \<Longrightarrow> granted t' (renew t s)"
begin

lemma live_now: "granted t s \<Longrightarrow> live (renew t s) t"
  using lease_pos by (simp add: live_renew)

lemma dead_after: "granted t s \<Longrightarrow> t + lease \<le> t' \<Longrightarrow> \<not> live (renew t s) t'"
  by (simp add: live_renew)

fun renewals :: "instant list \<Rightarrow> 's \<Rightarrow> 's" where
  "renewals [] s = s"
| "renewals (t # ts) s = renewals ts (renew t s)"

text \<open>
  The lease lives exactly one span past the last renewal, whatever came before: a holder who
  asks at least once per span never loses it, one who stops asking loses it in bounded time.
\<close>

lemma renewals_last:
  "granted (hd (ts @ [t])) s \<Longrightarrow> live (renewals (ts @ [t]) s) t' \<longleftrightarrow> t' < t + lease"
proof (induction ts arbitrary: s)
  case Nil
  then show ?case by (simp add: live_renew)
next
  case (Cons u us)
  then have "granted (hd (us @ [t])) (renew u s)" by (simp add: granted_again)
  from Cons.IH [OF this] show ?case by simp
qed

end

end
