(* ===== verification/GoLib.thy ===== *)
theory GoLib
  imports Prelude
begin

text \<open>
  The part of Go's \<open>strings\<close> and \<open>strconv\<close> packages the modelled code uses, on bytes.
\<close>

section \<open>Package strings\<close>

definition has_prefix :: "string \<Rightarrow> string \<Rightarrow> bool" where
  "has_prefix s p \<longleftrightarrow> prefix p s"

definition has_suffix :: "string \<Rightarrow> string \<Rightarrow> bool" where
  "has_suffix s p \<longleftrightarrow> suffix p s"

definition trim_prefix :: "string \<Rightarrow> string \<Rightarrow> string" where
  "trim_prefix s p = (if has_prefix s p then drop (length p) s else s)"

definition trim_suffix :: "string \<Rightarrow> string \<Rightarrow> string" where
  "trim_suffix s p = (if has_suffix s p then take (length s - length p) s else s)"

text \<open>\<open>strings.Cut\<close> for a one-byte separator: before, after, found.\<close>

definition cut_string :: "string \<Rightarrow> byte \<Rightarrow> string \<times> string \<times> bool" where
  "cut_string s c =
     (if c \<in> set s
      then (takeWhile (\<lambda>x. x \<noteq> c) s, tl (dropWhile (\<lambda>x. x \<noteq> c) s), True)
      else (s, [], False))"

text \<open>\<open>strings.Split\<close> for a one-byte separator.\<close>

fun split_string :: "string \<Rightarrow> byte \<Rightarrow> string list" where
  "split_string [] c = [[]]"
| "split_string (x # xs) c =
     (if x = c then [] # split_string xs c
      else (case split_string xs c of [] \<Rightarrow> [[x]] | y # ys \<Rightarrow> (x # y) # ys))"

definition contains_any :: "string \<Rightarrow> string \<Rightarrow> bool" where
  "contains_any s cs \<longleftrightarrow> list_ex (\<lambda>c. c \<in> set cs) s"

definition trim_set :: "string \<Rightarrow> string \<Rightarrow> string" where
  \<comment> \<open>\<open>strings.Trim\<close> for a cutset of ASCII bytes\<close>
  "trim_set s cs = rev (dropWhile (\<lambda>c. c \<in> set cs) (rev (dropWhile (\<lambda>c. c \<in> set cs) s)))"

fun join :: "string list \<Rightarrow> string \<Rightarrow> string" where
  "join [] sep = []"
| "join [x] sep = x"
| "join (x # y # ys) sep = x @ sep @ join (y # ys) sep"

text \<open>
  \<open>unicode.IsSpace\<close> on UTF-8: the ASCII blanks, U+0085, U+00A0, U+1680, U+2000 to U+200A,
  U+2028, U+2029, U+202F, U+205F and U+3000. No encoding of one of them is part of
  another, so trimming the last rune is matching one of them at the end.
\<close>

definition space1 :: "byte \<Rightarrow> bool" where
  "space1 a \<longleftrightarrow> a \<in> set [CHR 0x09, CHR 0x0A, CHR 0x0B, CHR 0x0C, CHR 0x0D, CHR 0x20]"

definition space2 :: "byte \<Rightarrow> byte \<Rightarrow> bool" where
  "space2 a b \<longleftrightarrow> a = CHR 0xC2 \<and> (b = CHR 0x85 \<or> b = CHR 0xA0)"

definition space3 :: "byte \<Rightarrow> byte \<Rightarrow> byte \<Rightarrow> bool" where
  "space3 a b c \<longleftrightarrow>
     (a = CHR 0xE1 \<and> b = CHR 0x9A \<and> c = CHR 0x80)
   \<or> (a = CHR 0xE2 \<and> b = CHR 0x80 \<and>
       c \<in> set [CHR 0x80, CHR 0x81, CHR 0x82, CHR 0x83, CHR 0x84, CHR 0x85, CHR 0x86, CHR 0x87,
                CHR 0x88, CHR 0x89, CHR 0x8A, CHR 0xA8, CHR 0xA9, CHR 0xAF])
   \<or> (a = CHR 0xE2 \<and> b = CHR 0x81 \<and> c = CHR 0x9F)
   \<or> (a = CHR 0xE3 \<and> b = CHR 0x80 \<and> c = CHR 0x80)"

fun trim_left :: "string \<Rightarrow> string" where
  "trim_left [] = []"
| "trim_left [a] = (if space1 a then [] else [a])"
| "trim_left [a, b] =
     (if space1 a then trim_left [b] else if space2 a b then [] else [a, b])"
| "trim_left (a # b # c # s) =
     (if space1 a then trim_left (b # c # s)
      else if space2 a b then trim_left (c # s)
      else if space3 a b c then trim_left s
      else a # b # c # s)"

text \<open>The same from the end: the argument is the reversed string.\<close>

fun trim_left_rev :: "string \<Rightarrow> string" where
  "trim_left_rev [] = []"
| "trim_left_rev [a] = (if space1 a then [] else [a])"
| "trim_left_rev [a, b] =
     (if space1 a then trim_left_rev [b] else if space2 b a then [] else [a, b])"
| "trim_left_rev (a # b # c # s) =
     (if space1 a then trim_left_rev (b # c # s)
      else if space2 b a then trim_left_rev (c # s)
      else if space3 c b a then trim_left_rev s
      else a # b # c # s)"

definition trim_space :: "string \<Rightarrow> string" where
  "trim_space s = rev (trim_left_rev (rev (trim_left s)))"

text \<open>\<open>strings.Contains\<close>, and \<open>strings.Fields\<close>, which cuts at runs of white space.\<close>

fun contains_string :: "string \<Rightarrow> string \<Rightarrow> bool" where
  "contains_string [] p \<longleftrightarrow> p = []"
| "contains_string (x # s) p \<longleftrightarrow> prefix p (x # s) \<or> contains_string s p"

definition word_done :: "string \<Rightarrow> string list" where
  "word_done w = (if w = [] then [] else [w])"

fun fields_from :: "string \<Rightarrow> string \<Rightarrow> string list" where
  "fields_from w [] = word_done w"
| "fields_from w [a] = (if space1 a then word_done w else [w @ [a]])"
| "fields_from w [a, b] =
     (if space1 a then word_done w @ fields_from [] [b]
      else if space2 a b then word_done w else fields_from (w @ [a]) [b])"
| "fields_from w (a # b # c # s) =
     (if space1 a then word_done w @ fields_from [] (b # c # s)
      else if space2 a b then word_done w @ fields_from [] (c # s)
      else if space3 a b c then word_done w @ fields_from [] s
      else fields_from (w @ [a]) (b # c # s))"

definition string_fields :: "string \<Rightarrow> string list" where
  "string_fields s = fields_from [] s"

text \<open>
  \<open>strings.ToUpper\<close>. The code compares its result with words over the letters A, L, X, Y and
  Z only, and no rune outside ASCII has one of these as its upper case, so mapping the
  ASCII letters and leaving every other byte alone decides the same comparisons.
\<close>

definition upper :: "byte \<Rightarrow> byte" where
  "upper c =
     (let n = of_char c :: nat in if 97 \<le> n \<and> n \<le> 122 then char_of (n - 32) else c)"

definition to_upper :: "string \<Rightarrow> string" where
  "to_upper s = map upper s"

section \<open>Package strconv: integers\<close>

datatype num_error = ErrSyntax | ErrRange

definition digit_of :: "byte \<Rightarrow> int option" where
  "digit_of c =
     (let n = of_char c :: int in if 48 \<le> n \<and> n \<le> 57 then Some (n - 48) else None)"

text \<open>
  \<open>ParseUint(s, 10, 64)\<close> reads from the left and stops at the first thing it dislikes, so
  an overflow before a bad byte is a range error with the largest value.
\<close>

fun parse_digits :: "int \<Rightarrow> string \<Rightarrow> int \<times> num_error option" where
  "parse_digits n [] = (n, None)"
| "parse_digits n (c # cs) =
     (case digit_of c of
        None \<Rightarrow> (0, Some ErrSyntax)
      | Some d \<Rightarrow>
          if 18446744073709551616 \<le> n * 10 + d then (18446744073709551615, Some ErrRange)
          else parse_digits (n * 10 + d) cs)"

definition parse_uint :: "string \<Rightarrow> int \<times> num_error option" where
  "parse_uint s = (if s = [] then (0, Some ErrSyntax) else parse_digits 0 s)"

definition signed_of :: "bool \<Rightarrow> int \<times> num_error option \<Rightarrow> int \<times> num_error option" where
  "signed_of neg r =
     (if snd r = Some ErrSyntax then (0, Some ErrSyntax)
      else if \<not> neg \<and> 9223372036854775808 \<le> fst r then (9223372036854775807, Some ErrRange)
      else if neg \<and> 9223372036854775808 < fst r then (- 9223372036854775808, Some ErrRange)
      else ((if neg then - fst r else fst r), None))"

definition atoi :: "string \<Rightarrow> int \<times> num_error option" where
  "atoi s =
     (case s of
        [] \<Rightarrow> (0, Some ErrSyntax)
      | c # t \<Rightarrow>
          if c = CHR ''-'' then signed_of True (parse_uint t)
          else if c = CHR ''+'' then signed_of False (parse_uint t)
          else signed_of False (parse_uint s))"

text \<open>\<open>Itoa\<close>, \<open>FormatUint\<close> and the verb \<open>%d\<close>.\<close>

definition digit_char :: "int \<Rightarrow> byte" where
  "digit_char d = char_of (48 + d)"

function dec :: "int \<Rightarrow> string" where
  "dec n = (if n < 10 then [digit_char n] else dec (n div 10) @ [digit_char (n mod 10)])"
  by pat_completeness auto
termination
  by (relation "measure nat") auto

declare dec.simps [simp del]

definition itoa :: "int \<Rightarrow> string" where
  "itoa i = (if i < 0 then CHR ''-'' # dec (- i) else dec i)"

section \<open>Facts about the library\<close>

lemma split_not_Nil [simp]: "split_string s c \<noteq> []"
  by (induction s c rule: split_string.induct) (auto split: list.splits)

lemma split_no_sep: "c \<notin> set s \<Longrightarrow> split_string s c = [s]"
  by (induction s c rule: split_string.induct) auto

lemma split_append:
  "c \<notin> set s \<Longrightarrow> split_string (s @ c # t) c = s # split_string t c"
  by (induction s) auto

lemma split_joined:
  "\<forall>s \<in> set ss. c \<notin> set s \<Longrightarrow> ss \<noteq> [] \<Longrightarrow> split_string (join ss [c]) c = ss"
  by (induction ss "[c]" rule: join.induct) (simp_all add: split_no_sep split_append)

lemma join_split [simp]: "join (split_string s c) [c] = s"
proof (induction s)
  case (Cons x s)
  then show ?case by (cases "split_string s c"; cases "tl (split_string s c)") auto
qed simp

lemma split_parts: "\<forall>p \<in> set (split_string s c). c \<notin> set p"
proof (induction s)
  case (Cons x s)
  then show ?case by (cases "split_string s c") auto
qed simp

lemma cut_found: "c \<notin> set s \<Longrightarrow> cut_string (s @ c # t) c = (s, t, True)"
  by (simp add: cut_string_def takeWhile_append dropWhile_append)

lemma trim_prefix_append [simp]: "trim_prefix (p @ s) p = s"
  by (simp add: trim_prefix_def has_prefix_def)

text \<open>A string that starts and ends with an ASCII byte that is no blank is not trimmed.\<close>

definition solid :: "byte \<Rightarrow> bool" where
  "solid a \<longleftrightarrow> (of_char a :: int) < 128 \<and> \<not> space1 a"

lemma solid_not_space [simp]:
  assumes "solid a"
  shows "\<not> space1 a" "\<not> space2 a b" "\<not> space2 b a" "\<not> space3 a b c" "\<not> space3 c b a"
  using assms by (auto simp: solid_def space2_def space3_def)

lemma trim_left_solid [simp]: "solid a \<Longrightarrow> trim_left (a # s) = a # s"
  by (cases "a # s" rule: trim_left.cases) simp_all

lemma trim_left_rev_solid [simp]: "solid a \<Longrightarrow> trim_left_rev (a # s) = a # s"
  by (cases "a # s" rule: trim_left_rev.cases) simp_all

lemma trim_space_Nil [simp]: "trim_space [] = []"
  by (simp add: trim_space_def)

lemma trim_space_solid [simp]: "solid a \<Longrightarrow> solid b \<Longrightarrow> trim_space (a # s @ [b]) = a # s @ [b]"
  by (simp add: trim_space_def)

lemma trim_space_single [simp]: "solid a \<Longrightarrow> trim_space [a] = [a]"
  by (simp add: trim_space_def)

lemma dec_not_Nil [simp]: "dec n \<noteq> []"
  by (subst dec.simps) simp

lemma digit_of_digit_char [simp]: "0 \<le> d \<Longrightarrow> d < 10 \<Longrightarrow> digit_of (digit_char d) = Some d"
  by (simp add: digit_of_def digit_char_def of_char_of)

lemma length_dec: "n < 10 ^ k \<Longrightarrow> 0 < k \<Longrightarrow> length (dec n) \<le> k"
proof (induction k arbitrary: n)
  case 0
  then show ?case by simp
next
  case (Suc k)
  show ?case
  proof (cases "n < 10")
    case True
    then show ?thesis by (subst dec.simps) simp
  next
    case False
    with Suc.prems have "0 < k" by (cases k) auto
    moreover from Suc.prems have "n div 10 < 10 ^ k" by simp
    ultimately have "length (dec (n div 10)) \<le> k" by (intro Suc.IH)
    with False show ?thesis by (subst dec.simps) simp
  qed
qed

lemma parse_digits_append:
  "parse_digits n (s @ t) =
     (case parse_digits n s of (m, None) \<Rightarrow> parse_digits m t | r \<Rightarrow> r)"
  by (induction n s rule: parse_digits.induct) (auto split: option.splits)

lemma parse_digits_dec:
  "0 \<le> m \<Longrightarrow> m < 2 ^ 64 \<Longrightarrow> parse_digits 0 (dec m) = (m, None)"
proof (induction m rule: dec.induct)
  case (1 m)
  show ?case
  proof (cases "m < 10")
    case True
    with "1.prems" show ?thesis by (subst dec.simps) simp
  next
    case False
    then have "parse_digits 0 (dec (m div 10)) = (m div 10, None)"
      using 1 by simp
    moreover have "m div 10 * 10 + m mod 10 = m" by simp
    ultimately show ?thesis
      using False "1.prems" by (subst dec.simps) (simp add: parse_digits_append)
  qed
qed

text \<open>Printing a number and reading it back.\<close>

lemma parse_uint_dec: "0 \<le> m \<Longrightarrow> m < 2 ^ 64 \<Longrightarrow> parse_uint (dec m) = (m, None)"
  by (simp add: parse_uint_def parse_digits_dec)

lemma dec_head: "0 \<le> n \<Longrightarrow> \<exists>d t. 0 \<le> d \<and> d < 10 \<and> dec n = digit_char d # t"
proof (induction n rule: dec.induct)
  case (1 n)
  show ?case
  proof (cases "n < 10")
    case True
    with "1.prems" show ?thesis by (subst dec.simps) auto
  next
    case False
    then have "0 \<le> n div 10" by simp
    with 1(1) False obtain d t where "0 \<le> d" "d < 10" "dec (n div 10) = digit_char d # t"
      by blast
    with False show ?thesis by (subst dec.simps) auto
  qed
qed

lemma digit_char_no_sign:
  assumes "0 \<le> d" and "d < 10"
  shows "digit_char d \<noteq> CHR ''-'' \<and> digit_char d \<noteq> CHR ''+''"
proof -
  from assms have "digit_of (digit_char d) \<noteq> None" by simp
  moreover have "digit_of (CHR ''-'') = None" "digit_of (CHR ''+'') = None"
    by (simp_all add: digit_of_def)
  ultimately show ?thesis by metis
qed

lemma atoi_itoa:
  assumes "- (2 ^ 63) \<le> i" and "i < 2 ^ 63"
  shows "atoi (itoa i) = (i, None)"
proof (cases "i < 0")
  case True
  have "parse_uint (dec (- i)) = (- i, None)" using assms(1) True by (intro parse_uint_dec) auto
  then show ?thesis using True assms(1) by (simp add: itoa_def atoi_def signed_of_def)
next
  case False
  obtain d t where d: "0 \<le> d" "d < 10" "dec i = digit_char d # t"
    using dec_head [of i] False by auto
  have "atoi (dec i) = signed_of False (parse_uint (dec i))"
    using d digit_char_no_sign [OF d(1,2)] by (simp add: atoi_def)
  moreover have "parse_uint (dec i) = (i, None)" using assms(2) False by (intro parse_uint_dec) auto
  ultimately show ?thesis using False assms(2) by (simp add: itoa_def signed_of_def)
qed

end
