(* ===== verification/GoFloat.thy ===== *)
theory GoFloat
  imports GoLib Complex_Main
begin

text \<open>
  Go's \<open>float64\<close> as far as the code uses it: the values, rounding to the nearest double (ties
  to even), addition and subtraction, comparison, \<open>strconv.ParseFloat\<close>, and the \<open>%.3f\<close> and
  \<open>%.0f\<close> verbs. A finite double is its sign and its magnitude, an exact rational, so that
  minus zero, which prints as \<open>-0.000\<close>, is a value of its own.
\<close>

section \<open>Values and rounding\<close>

datatype float64 = F64 bool rat | F64Inf bool | F64NaN

definition f_zero :: float64 where
  "f_zero = F64 False 0"

definition pow2 :: "int \<Rightarrow> rat" where
  "pow2 e = (if 0 \<le> e then of_int (2 ^ nat e) else 1 / of_int (2 ^ nat (- e)))"

definition pow10 :: "int \<Rightarrow> rat" where
  "pow10 e = (if 0 \<le> e then of_int (10 ^ nat e) else 1 / of_int (10 ^ nat (- e)))"

definition round_even :: "rat \<Rightarrow> int" where
  "round_even r =
     (let f = \<lfloor>r\<rfloor>; d = r - of_int f
      in if d < 1/2 then f else if 1/2 < d then f + 1 else if even f then f else f + 1)"

text \<open>The exponent \<open>e\<close> with \<open>2 ^ e \<le> r < 2 ^ (e + 1)\<close> of a positive \<open>r\<close>.\<close>

function ilog2 :: "int \<Rightarrow> int" where
  "ilog2 n = (if n \<le> 1 then 0 else 1 + ilog2 (n div 2))"
  by pat_completeness auto
termination
  by (relation "measure nat") auto

declare ilog2.simps [simp del]

definition flog2 :: "rat \<Rightarrow> int" where
  "flog2 r =
     (let pq = quotient_of r; e = ilog2 (fst pq) - ilog2 (snd pq)
      in if pow2 e \<le> r then e else e - 1)"

text \<open>The nearest double to a magnitude: 53 bits, exponents from -1074; \<open>None\<close> on overflow.\<close>

definition round_mag :: "rat \<Rightarrow> rat option" where
  "round_mag r =
     (if r \<le> 0 then Some 0
      else let e = max (flog2 r - 52) (- 1074);
               m = of_int (round_even (r / pow2 e)) * pow2 e
           in if m = 0 then Some 0 else if flog2 m \<le> 1023 then Some m else None)"

definition rounded :: "bool \<Rightarrow> rat \<Rightarrow> float64" where
  "rounded neg r = (case round_mag r of None \<Rightarrow> F64Inf neg | Some m \<Rightarrow> F64 neg m)"

fun real_value :: "float64 \<Rightarrow> rat" where
  "real_value (F64 neg m) = (if neg then - m else m)"
| "real_value _ = 0"

section \<open>Arithmetic and comparison\<close>

fun f_add :: "float64 \<Rightarrow> float64 \<Rightarrow> float64" where
  "f_add (F64 n a) (F64 n' b) =
     (let s = real_value (F64 n a) + real_value (F64 n' b)
      in if s = 0 then F64 (n \<and> n') 0 else rounded (s < 0) \<bar>s\<bar>)"
| "f_add (F64Inf n) (F64Inf n') = (if n = n' then F64Inf n else F64NaN)"
| "f_add (F64Inf n) (F64 _ _) = F64Inf n"
| "f_add (F64 _ _) (F64Inf n) = F64Inf n"
| "f_add F64NaN _ = F64NaN"
| "f_add _ F64NaN = F64NaN"

fun f_neg :: "float64 \<Rightarrow> float64" where
  "f_neg (F64 n a) = F64 (\<not> n) a"
| "f_neg (F64Inf n) = F64Inf (\<not> n)"
| "f_neg F64NaN = F64NaN"

definition f_sub :: "float64 \<Rightarrow> float64 \<Rightarrow> float64" where
  "f_sub a b = f_add a (f_neg b)"

fun f_eq :: "float64 \<Rightarrow> float64 \<Rightarrow> bool" where
  "f_eq (F64 n a) (F64 n' b) = (real_value (F64 n a) = real_value (F64 n' b))"
| "f_eq (F64Inf n) (F64Inf n') = (n = n')"
| "f_eq _ _ = False"

fun f_less :: "float64 \<Rightarrow> float64 \<Rightarrow> bool" where
  "f_less (F64 n a) (F64 n' b) = (real_value (F64 n a) < real_value (F64 n' b))"
| "f_less (F64Inf n) (F64Inf n') = (n \<and> \<not> n')"
| "f_less (F64Inf n) (F64 _ _) = n"
| "f_less (F64 _ _) (F64Inf n) = (\<not> n)"
| "f_less _ _ = False"

definition f_of_int :: "int \<Rightarrow> float64" where
  "f_of_int i = rounded (i < 0) (of_int \<bar>i\<bar>)"

section \<open>ParseFloat\<close>

definition lower :: "byte \<Rightarrow> byte" where
  "lower c = (let n = of_char c :: int in if 65 \<le> n \<and> n \<le> 90 then char_of (n + 32) else c)"

definition float_digit :: "bool \<Rightarrow> byte \<Rightarrow> int option" where
  "float_digit hex c =
     (case digit_of c of
        Some d \<Rightarrow> Some d
      | None \<Rightarrow>
          let n = of_char (lower c) :: int
          in if hex \<and> 97 \<le> n \<and> n \<le> 102 then Some (n - 87) else None)"

text \<open>The mantissa: digits read so far, how many of them stood behind the dot.\<close>

record mantissa =
  m_dot :: bool
  m_seen :: bool
  m_value :: int
  m_frac :: int
  m_under :: bool

definition m_init :: mantissa where
  "m_init = \<lparr>m_dot = False, m_seen = False, m_value = 0, m_frac = 0, m_under = False\<rparr>"

fun scan_mantissa :: "bool \<Rightarrow> mantissa \<Rightarrow> string \<Rightarrow> mantissa \<times> string" where
  "scan_mantissa hex m [] = (m, [])"
| "scan_mantissa hex m (c # cs) =
     (if c = CHR ''_'' then scan_mantissa hex (m\<lparr>m_under := True\<rparr>) cs
      else if c = CHR ''.'' then
        (if m_dot m then (m, c # cs) else scan_mantissa hex (m\<lparr>m_dot := True\<rparr>) cs)
      else case float_digit hex c of
        Some d \<Rightarrow>
          scan_mantissa hex
            (m\<lparr>m_seen := True, m_value := m_value m * (if hex then 16 else 10) + d,
               m_frac := m_frac m + (if m_dot m then 1 else 0)\<rparr>) cs
      | None \<Rightarrow> (m, c # cs))"

text \<open>The digits of an exponent, which stop counting once it has reached 10000.\<close>

fun scan_exponent :: "int \<Rightarrow> bool \<Rightarrow> string \<Rightarrow> int \<times> bool \<times> string" where
  "scan_exponent e u [] = (e, u, [])"
| "scan_exponent e u (c # cs) =
     (if c = CHR ''_'' then scan_exponent e True cs
      else case digit_of c of
        Some d \<Rightarrow> scan_exponent (if e < 10000 then e * 10 + d else e) u cs
      | None \<Rightarrow> (e, u, c # cs))"

text \<open>Underscores stand between digits only; a base prefix counts as a digit.\<close>

datatype under_saw = SawBegin | SawDigit | SawUnder | SawOther

fun under_ok :: "bool \<Rightarrow> under_saw \<Rightarrow> string \<Rightarrow> bool" where
  "under_ok hex saw [] = (saw \<noteq> SawUnder)"
| "under_ok hex saw (c # cs) =
     (if float_digit hex c \<noteq> None then under_ok hex SawDigit cs
      else if c = CHR ''_'' then saw = SawDigit \<and> under_ok hex SawUnder cs
      else saw \<noteq> SawUnder \<and> under_ok hex SawOther cs)"

fun underscore_ok :: "string \<Rightarrow> bool" where
  "underscore_ok (a # b # s) =
     (if a = CHR ''0'' \<and> lower b \<in> set ''box'' then under_ok (lower b = CHR ''x'') SawDigit s
      else under_ok False SawBegin (a # b # s))"
| "underscore_ok s = under_ok False SawBegin s"

definition strip_sign :: "string \<Rightarrow> bool \<times> string" where
  "strip_sign s =
     (case s of
        [] \<Rightarrow> (False, [])
      | c # t \<Rightarrow> if c = CHR ''-'' then (True, t) else if c = CHR ''+'' then (False, t) else (False, s))"

definition has_hex_prefix :: "string \<Rightarrow> bool" where
  "has_hex_prefix s =
     (case s of a # b # c # _ \<Rightarrow> a = CHR ''0'' \<and> lower b = CHR ''x'' | _ \<Rightarrow> False)"

text \<open>The exponent part: its value, whether it had underscores, what follows; \<open>None\<close> when malformed.\<close>

definition read_exponent :: "bool \<Rightarrow> string \<Rightarrow> (int \<times> bool \<times> string) option" where
  "read_exponent hex s =
     (case s of
        [] \<Rightarrow> if hex then None else Some (0, False, [])
      | c # t \<Rightarrow>
          if lower c = (if hex then CHR ''p'' else CHR ''e'') then
            (let (neg, u) = strip_sign t
             in if u \<noteq> [] \<and> digit_of (hd u) \<noteq> None then
                  (let (e, us, r) = scan_exponent 0 False u
                   in Some ((if neg then - e else e), us, r))
                else None)
          else if hex then None else Some (0, False, s))"

definition scaled :: "bool \<Rightarrow> int \<Rightarrow> int \<Rightarrow> rat" where
  "scaled hex m e = of_int m * (if hex then pow2 e else pow10 e)"

definition parse_finite :: "string \<Rightarrow> float64 option" where
  "parse_finite s =
     (let (neg, t) = strip_sign s; hex = has_hex_prefix t;
          (m, r) = scan_mantissa hex m_init (if hex then drop 2 t else t)
      in if \<not> m_seen m then None
         else case read_exponent hex r of
           None \<Rightarrow> None
         | Some (e, us, rest) \<Rightarrow>
             if rest \<noteq> [] \<or> ((m_under m \<or> us) \<and> \<not> underscore_ok t) then None
             else (case round_mag
                      (scaled hex (m_value m) (e - m_frac m * (if hex then 4 else 1))) of
                     None \<Rightarrow> None
                   | Some v \<Rightarrow> Some (F64 neg v)))"

text \<open>\<open>None\<close> stands for any error, a range error included.\<close>

definition parse_float :: "string \<Rightarrow> float64 option" where
  "parse_float s =
     (let (neg, t) = strip_sign s
      in if map lower s = ''nan'' then Some F64NaN
         else if map lower t = ''inf'' \<or> map lower t = ''infinity'' then Some (F64Inf neg)
         else parse_finite s)"

section \<open>Formatting with a fixed number of decimals\<close>

definition pad0 :: "nat \<Rightarrow> string \<Rightarrow> string" where
  "pad0 n s = replicate (n - length s) (CHR ''0'') @ s"

definition fixed_digits :: "nat \<Rightarrow> int \<Rightarrow> string" where
  "fixed_digits p k =
     dec (k div 10 ^ p) @ (if p = 0 then [] else CHR ''.'' # pad0 p (dec (k mod 10 ^ p)))"

fun fmt_fixed :: "nat \<Rightarrow> float64 \<Rightarrow> string" where
  "fmt_fixed p (F64 neg m) =
     (if neg then ''-'' else []) @ fixed_digits p (round_even (m * of_int (10 ^ p)))"
| "fmt_fixed p (F64Inf neg) = (if neg then ''-Inf'' else ''+Inf'')"
| "fmt_fixed p F64NaN = ''NaN''"

section \<open>The shortest decimal that is still this double\<close>

text \<open>
  \<open>strconv.FormatFloat(v, 'f', -1, 64)\<close>: the fewest digits that read back as the same double,
  and among those the nearest. Seventeen digits are enough for every double.
\<close>

definition flog10 :: "rat \<Rightarrow> int" where
  \<comment> \<open>the exponent of the leading decimal digit of a positive number\<close>
  "flog10 r =
     (if 1 \<le> r then int (length (dec \<lfloor>r\<rfloor>)) - 1
      else - int (length (dec (\<lceil>1 / r\<rceil> - 1))))"

definition short_candidate :: "rat \<Rightarrow> int \<Rightarrow> int option" where
  \<comment> \<open>the digits, if cutting at the power of ten \<open>t\<close> loses nothing\<close>
  "short_candidate r t =
     (let v = r / pow10 t; low = \<lfloor>v\<rfloor>; high = \<lceil>v\<rceil>;
          good = (\<lambda>d. round_mag (of_int d * pow10 t) = Some r)
      in if good low \<and> good high then
           Some (if v - of_int low \<le> of_int high - v then low else high)
         else if good low then Some low else if good high then Some high else None)"

fun shortest :: "rat \<Rightarrow> nat \<Rightarrow> int \<Rightarrow> int \<times> int" where
  "shortest r 0 t = (\<lfloor>r / pow10 t\<rfloor>, t)"
| "shortest r (Suc n) t =
     (case short_candidate r t of Some d \<Rightarrow> (d, t) | None \<Rightarrow> shortest r n (t - 1))"

definition plain_decimal :: "int \<times> int \<Rightarrow> string" where
  "plain_decimal dt =
     (let (d, t) = (if snd dt < 0 \<and> fst dt mod 10 = 0 then (fst dt div 10, snd dt + 1) else dt)
      in if 0 \<le> t then dec d @ replicate (nat t) (CHR ''0'') else fixed_digits (nat (- t)) d)"

fun fmt_shortest :: "float64 \<Rightarrow> string" where
  "fmt_shortest (F64 neg m) =
     (if neg then ''-'' else [])
     @ (if m = 0 then ''0'' else plain_decimal (shortest m 17 (flog10 m)))"
| "fmt_shortest (F64Inf neg) = (if neg then ''-Inf'' else ''+Inf'')"
| "fmt_shortest F64NaN = ''NaN''"

section \<open>Facts\<close>

lemma round_even_of_int [simp]: "round_even (of_int i) = i"
  by (simp add: round_even_def)

lemma round_even_le:
  assumes "r \<le> of_int b"
  shows "round_even r \<le> b"
proof (cases "\<lfloor>r\<rfloor> < b")
  case True
  then show ?thesis by (auto simp: round_even_def Let_def)
next
  case False
  with assms have "\<lfloor>r\<rfloor> = b"
    by (metis floor_mono floor_of_int not_less order_antisym_conv)
  moreover from this assms have "r = of_int b"
    by (metis of_int_floor_le order_antisym_conv)
  ultimately show ?thesis by simp
qed

lemma round_even_nonneg: "0 \<le> r \<Longrightarrow> 0 \<le> round_even r"
  by (auto simp: round_even_def Let_def)

lemma round_even_near: "\<bar>of_int (round_even r) - r\<bar> \<le> 1 / 2"
proof -
  have "of_int \<lfloor>r\<rfloor> \<le> r" and "r < of_int \<lfloor>r\<rfloor> + 1" by linarith+
  then show ?thesis by (simp add: round_even_def Let_def abs_if) linarith
qed

lemma length_fixed_digits:
  assumes "k < 10 ^ (q + p)" and "0 < q" and "0 < p"
  shows "length (fixed_digits p k) \<le> q + 1 + p"
proof -
  have "k div 10 ^ p < 10 ^ q"
  proof (rule ccontr)
    assume "\<not> k div 10 ^ p < 10 ^ q"
    then have "10 ^ q * 10 ^ p \<le> k div 10 ^ p * 10 ^ p" by simp
    also have "\<dots> = k - k mod 10 ^ p" by (simp add: minus_mod_eq_div_mult)
    also have "\<dots> \<le> k" by simp
    finally show False using assms(1) by (simp add: power_add)
  qed
  then have "length (dec (k div 10 ^ p)) \<le> q" using assms(2) by (rule length_dec)
  moreover have "length (dec (k mod 10 ^ p)) \<le> p" using assms(3) by (intro length_dec) simp_all
  ultimately show ?thesis using assms(3) by (simp add: fixed_digits_def pad0_def)
qed

text \<open>How long a bounded value prints.\<close>

lemma length_fmt_fixed:
  assumes "\<bar>real_value (F64 neg m)\<bar> \<le> of_int b" and "b < 10 ^ q"
    and "0 < q" and "0 < p"
  shows "length (fmt_fixed p (F64 neg m)) \<le> 2 + q + p"
proof -
  have "m \<le> of_int b" using assms(1) by (simp split: if_splits)
  then have "m * of_int (10 ^ p) \<le> of_int (b * 10 ^ p)" by simp
  then have "round_even (m * of_int (10 ^ p)) \<le> b * 10 ^ p" by (rule round_even_le)
  also have "\<dots> < 10 ^ (q + p)" using assms(2) by (simp add: power_add)
  finally have "length (fixed_digits p (round_even (m * of_int (10 ^ p)))) \<le> q + 1 + p"
    using assms(3,4) by (intro length_fixed_digits)
  then show ?thesis by simp
qed

lemma length_fmt_int:
  assumes "\<bar>real_value (F64 neg m)\<bar> \<le> of_int b" and "b < 10 ^ q" and "0 < q"
  shows "length (fmt_fixed 0 (F64 neg m)) \<le> 1 + q"
proof -
  have "m \<le> of_int b" using assms(1) by (simp split: if_splits)
  then have "round_even m \<le> b" by (rule round_even_le)
  then have "length (dec (round_even m)) \<le> q" using assms(2,3) by (intro length_dec) linarith+
  then show ?thesis by (simp add: fixed_digits_def)
qed

end
