(* ===== verification/Grbl_Parse.thy ===== *)
theory Grbl_Parse
  imports GoFloat
begin

text \<open>
  \<open>backend/internal/grbl/parse.go\<close>: GRBL's machine states and the parser of one line of what a
  controller says. A \<open>MachineState\<close> is GRBL's own word, so an unfamiliar one survives; a
  \<open>Report\<close> is a record, its \<open>Kind\<close> a datatype with the eight words the code uses.
\<close>

section \<open>Machine states\<close>

type_synonym machine_state = string

definition StateUnknown :: machine_state where "StateUnknown = ''''"
definition StateIdle :: machine_state where "StateIdle = ''Idle''"
definition StateRun :: machine_state where "StateRun = ''Run''"
definition StateHold :: machine_state where "StateHold = ''Hold''"
definition StateJog :: machine_state where "StateJog = ''Jog''"
definition StateAlarm :: machine_state where "StateAlarm = ''Alarm''"
definition StateDoor :: machine_state where "StateDoor = ''Door''"
definition StateCheck :: machine_state where "StateCheck = ''Check''"
definition StateHome :: machine_state where "StateHome = ''Home''"
definition StateSleep :: machine_state where "StateSleep = ''Sleep''"

lemmas state_defs = StateUnknown_def StateIdle_def StateRun_def StateHold_def StateJog_def
  StateAlarm_def StateDoor_def StateCheck_def StateHome_def StateSleep_def

definition Moving :: "machine_state \<Rightarrow> bool" where
  "Moving s \<longleftrightarrow> s \<notin> set [StateIdle, StateAlarm, StateSleep, StateCheck, StateUnknown]"

definition AtRest :: "machine_state \<Rightarrow> bool" where
  "AtRest s \<longleftrightarrow> s \<in> set [StateIdle, StateHold, StateAlarm, StateSleep, StateCheck, StateDoor]"

section \<open>Reports\<close>

record position =
  pos_x :: float64
  pos_y :: float64
  pos_z :: float64

definition no_position :: position where
  "no_position = \<lparr>pos_x = f_zero, pos_y = f_zero, pos_z = f_zero\<rparr>"

datatype kind =
  KStatus | KOk | KError | KAlarm | KMessage | KWelcome | KSetting | KUnknown

definition kind_text :: "kind \<Rightarrow> string" where
  "kind_text k =
     (case k of KStatus \<Rightarrow> ''status'' | KOk \<Rightarrow> ''ok'' | KError \<Rightarrow> ''error'' | KAlarm \<Rightarrow> ''alarm''
      | KMessage \<Rightarrow> ''message'' | KWelcome \<Rightarrow> ''welcome'' | KSetting \<Rightarrow> ''setting''
      | KUnknown \<Rightarrow> ''unknown'')"

record report =
  r_kind :: kind
  r_state :: machine_state
  r_position :: position
  r_position_is_work :: bool
  r_offset :: position
  r_has_offset :: bool
  r_has_position :: bool
  r_feed :: float64
  r_spindle :: float64
  r_code :: int
  r_text :: string
  r_has_overrides :: bool
  r_accessory :: string
  r_setting :: string
  r_setting_value :: string

definition blank_report :: report where
  \<comment> \<open>\<open>Report{Kind: "unknown"}\<close>\<close>
  "blank_report =
     \<lparr>r_kind = KUnknown, r_state = StateUnknown, r_position = no_position,
      r_position_is_work = False, r_offset = no_position, r_has_offset = False,
      r_has_position = False, r_feed = f_zero, r_spindle = f_zero, r_code = 0, r_text = [],
      r_has_overrides = False, r_accessory = [], r_setting = [], r_setting_value = []\<rparr>"

definition LaserMode :: string where "LaserMode = ''$32''"
definition HomingCycle :: string where "HomingCycle = ''$22''"
definition SoftLimits :: string where "SoftLimits = ''$20''"
definition HardLimits :: string where "HardLimits = ''$21''"
definition SpindleMax :: string where "SpindleMax = ''$30''"

lemmas setting_defs = LaserMode_def HomingCycle_def SoftLimits_def HardLimits_def SpindleMax_def

section \<open>The parser\<close>

text \<open>
  \<open>parseNumbers\<close> gives up on the first number that does not parse, and then returns no
  numbers at all.
\<close>

definition parseNumbers :: "string \<Rightarrow> float64 list" where
  "parseNumbers value =
     (let numbers = map (\<lambda>part. parse_float (trim_space part)) (split_string value (CHR '',''))
      in if None \<in> set numbers then [] else map the numbers)"

definition parsePosition :: "string \<Rightarrow> position option" where
  "parsePosition value =
     (case parseNumbers value of
        [] \<Rightarrow> None
      | [x] \<Rightarrow> None
      | [x, y] \<Rightarrow> Some \<lparr>pos_x = x, pos_y = y, pos_z = f_zero\<rparr>
      | x # y # z # _ \<Rightarrow> Some \<lparr>pos_x = x, pos_y = y, pos_z = z\<rparr>)"

definition parse_field :: "string \<Rightarrow> report \<Rightarrow> report" where
  "parse_field field r =
     (let (name, value, found) = cut_string field (CHR '':'')
      in if \<not> found then r
         else if name = ''MPos'' \<or> name = ''WPos'' then
           (case parsePosition value of
              None \<Rightarrow> r
            | Some p \<Rightarrow> r\<lparr>r_position := p, r_has_position := True,
                          r_position_is_work := (name = ''WPos'')\<rparr>)
         else if name = ''WCO'' then
           (case parsePosition value of
              None \<Rightarrow> r
            | Some p \<Rightarrow> r\<lparr>r_offset := p, r_has_offset := True\<rparr>)
         else if name = ''FS'' then
           (let numbers = parseNumbers value;
                r1 = (case numbers of [] \<Rightarrow> r | f # _ \<Rightarrow> r\<lparr>r_feed := f\<rparr>)
            in (case numbers of f # s # _ \<Rightarrow> r1\<lparr>r_spindle := s\<rparr> | _ \<Rightarrow> r1))
         else if name = ''F'' then
           (case parseNumbers value of [] \<Rightarrow> r | f # _ \<Rightarrow> r\<lparr>r_feed := f\<rparr>)
         else if name = ''Ov'' then r\<lparr>r_has_overrides := True\<rparr>
         else if name = ''A'' then r\<lparr>r_accessory := value\<rparr>
         else r)"

definition parseStatus :: "string \<Rightarrow> report \<Rightarrow> report" where
  "parseStatus body r =
     (case split_string body (CHR ''|'') of
        [] \<Rightarrow> r
      | first # rest \<Rightarrow>
          fold parse_field rest
            (r\<lparr>r_kind := KStatus, r_state := takeWhile (\<lambda>c. c \<noteq> CHR '':'') first\<rparr>))"

definition Parse :: "string \<Rightarrow> report" where
  "Parse raw =
     (let line = trim_space raw; r = blank_report\<lparr>r_text := line\<rparr>
      in if line = [] then blank_report
         else if line = ''ok'' then r\<lparr>r_kind := KOk\<rparr>
         else if has_prefix line ''error:'' then
           r\<lparr>r_kind := KError, r_code := fst (atoi (trim_prefix line ''error:''))\<rparr>
         else if has_prefix line ''ALARM:'' then
           r\<lparr>r_kind := KAlarm, r_state := StateAlarm,
             r_code := fst (atoi (trim_prefix line ''ALARM:''))\<rparr>
         else if has_prefix line ''Grbl '' then r\<lparr>r_kind := KWelcome\<rparr>
         else if has_prefix line ''['' \<and> has_suffix line '']'' then r\<lparr>r_kind := KMessage\<rparr>
         else if has_prefix line ''<'' \<and> has_suffix line ''>'' then
           parseStatus (trim_suffix (trim_prefix line ''<'') ''>'') r
         else if has_prefix line ''$'' \<and> CHR ''='' \<in> set line then
           (let (name, value, _) = cut_string line (CHR ''='')
            in r\<lparr>r_kind := KSetting, r_setting := name, r_setting_value := value\<rparr>)
         else r)"

section \<open>Lemmas\<close>

lemma Moving_simps [simp]:
  "\<not> Moving StateIdle" "\<not> Moving StateAlarm" "\<not> Moving StateSleep" "\<not> Moving StateCheck"
  "\<not> Moving StateUnknown" "Moving StateRun" "Moving StateHold" "Moving StateJog"
  "Moving StateDoor" "Moving StateHome"
  by (simp_all add: Moving_def state_defs)

lemma AtRest_simps [simp]:
  "AtRest StateIdle" "AtRest StateHold" "AtRest StateAlarm" "AtRest StateSleep"
  "AtRest StateCheck" "AtRest StateDoor" "\<not> AtRest StateRun" "\<not> AtRest StateJog"
  "\<not> AtRest StateHome" "\<not> AtRest StateUnknown"
  by (simp_all add: AtRest_def state_defs)

text \<open>
  The two questions are not each other's negation: they agree on every state except a feed
  hold and a door, which are both moving and at rest, and the unknown state, which is neither.
\<close>

lemma Moving_AtRest:
  "Moving s = AtRest s \<longleftrightarrow> s = StateHold \<or> s = StateDoor \<or> s = StateUnknown"
  by (auto simp: Moving_def AtRest_def state_defs)

lemma parse_field_state [simp]:
  "r_state (parse_field f r) = r_state r" "r_kind (parse_field f r) = r_kind r"
  "r_text (parse_field f r) = r_text r" "r_code (parse_field f r) = r_code r"
  by (auto simp: parse_field_def Let_def split: prod.splits option.splits list.splits)

lemma fold_parse_field_state [simp]:
  "r_state (fold parse_field fs r) = r_state r" "r_kind (fold parse_field fs r) = r_kind r"
  "r_text (fold parse_field fs r) = r_text r" "r_code (fold parse_field fs r) = r_code r"
  by (induction fs arbitrary: r) simp_all

lemma parseStatus_kind [simp]: "r_kind (parseStatus b r) = KStatus"
  by (simp add: parseStatus_def split: list.splits)

lemma Parse_kind_status:
  "r_kind (Parse raw) = KStatus \<Longrightarrow>
   has_prefix (trim_space raw) ''<'' \<and> has_suffix (trim_space raw) ''>''"
  by (auto simp: Parse_def Let_def blank_report_def split: if_splits prod.splits)

section \<open>Printing a status report and reading it back\<close>

definition render_status :: "string \<Rightarrow> string list \<Rightarrow> string" where
  "render_status first rest = ''<'' @ join (first # rest) ''|'' @ ''>''"

lemma trim_render: "trim_space (render_status first rest) = render_status first rest"
proof -
  have "solid (CHR ''<'')" "solid (CHR ''>'')" by (simp_all add: solid_def space1_def)
  from trim_space_solid [OF this] show ?thesis by (simp add: render_status_def)
qed

lemma strip_render:
  "trim_suffix (trim_prefix (render_status first rest) ''<'') ''>'' = join (first # rest) ''|''"
  by (simp add: render_status_def trim_prefix_def trim_suffix_def has_prefix_def has_suffix_def)

text \<open>
  A status report made of a state and fields without separators parses back into exactly
  that state and those fields: each field is applied once, in order, and nothing else is.
\<close>

theorem status_line_round_trip:
  assumes "CHR ''|'' \<notin> set first" and "\<forall>f \<in> set rest. CHR ''|'' \<notin> set f"
  shows "Parse (render_status first rest) =
    fold parse_field rest
      (blank_report\<lparr>r_kind := KStatus, r_text := render_status first rest,
         r_state := takeWhile (\<lambda>c. c \<noteq> CHR '':'') first\<rparr>)"
proof -
  let ?s = "render_status first rest"
  have head: "?s \<noteq> []" "?s \<noteq> ''ok''" "\<not> has_prefix ?s ''error:''" "\<not> has_prefix ?s ''ALARM:''"
    "\<not> has_prefix ?s ''Grbl ''" "\<not> has_prefix ?s ''[''" "has_prefix ?s ''<''" "has_suffix ?s ''>''"
    by (simp_all add: render_status_def has_prefix_def has_suffix_def suffix_def)
  show ?thesis
    using head assms
    by (simp add: Parse_def Let_def trim_render strip_render parseStatus_def split_joined blank_report_def)
qed

theorem status_line_round_trip_witness:
  "r_state (Parse ''<Hold:0|MPos:1,2,3>'') = ''Hold''"
  using status_line_round_trip [of "''Hold:0''" "[''MPos:1,2,3'']"]
  by (simp add: render_status_def)

end
