(* ===== verification/Grbl_Observer.thy ===== *)
theory Grbl_Observer
  imports Grbl_Parse
begin

text \<open>
  \<open>backend/internal/grbl/observer.go\<close>: the observer assembles lines from whatever chunks the
  serial port produces, parses each and keeps the current reading of the controller. Its
  clock is a parameter: one reading per call of \<open>Write\<close>. The callback \<open>OnReport\<close> is the list
  of notable reports a call hands out, each with the machine as it stands after the call.
  Counters that grow by one per event are unbounded integers.
\<close>

section \<open>State\<close>

datatype beam = BeamUnknown | BeamOn | BeamOff

datatype setting = SettingUnknown | SettingOn | SettingOff

record machine =
  mc_state :: machine_state
  mc_position :: position
  mc_has_position :: bool
  mc_work :: position
  mc_offset :: position
  mc_has_offset :: bool
  mc_feed :: float64
  mc_spindle :: float64
  mc_alarm_code :: int
  mc_last_error :: int
  mc_last_message :: string
  mc_last_report_unix :: int
  mc_resets :: int
  mc_beam :: beam
  mc_beam_unix :: int
  mc_reports :: int
  mc_beam_reports :: int
  mc_laser_mode :: setting
  mc_firmware :: string
  mc_options :: string
  mc_spindle_max :: int
  mc_homing :: setting
  mc_soft_limits :: setting
  mc_hard_limits :: setting

definition blank_machine :: machine where
  \<comment> \<open>\<open>Machine{}\<close>\<close>
  "blank_machine =
     \<lparr>mc_state = StateUnknown, mc_position = no_position, mc_has_position = False,
      mc_work = no_position, mc_offset = no_position, mc_has_offset = False,
      mc_feed = f_zero, mc_spindle = f_zero, mc_alarm_code = 0, mc_last_error = 0,
      mc_last_message = [], mc_last_report_unix = 0, mc_resets = 0, mc_beam = BeamUnknown,
      mc_beam_unix = 0, mc_reports = 0, mc_beam_reports = 0, mc_laser_mode = SettingUnknown,
      mc_firmware = [], mc_options = [], mc_spindle_max = 0, mc_homing = SettingUnknown,
      mc_soft_limits = SettingUnknown, mc_hard_limits = SettingUnknown\<rparr>"

record observer =
  ob_line :: string
  ob_dropped :: bool
  ob_garbage :: int
  ob_recognised :: int
  ob_machine :: machine
  ob_last_report :: go_time

definition NewObserver :: observer where
  "NewObserver =
     \<lparr>ob_line = [], ob_dropped = False, ob_garbage = 0, ob_recognised = 0,
      ob_machine = blank_machine, ob_last_report = None\<rparr>"

definition maxLine :: nat where "maxLine = 512"

section \<open>Applying one report\<close>

definition add_position :: "position \<Rightarrow> position \<Rightarrow> position" where
  "add_position a b =
     \<lparr>pos_x = f_add (pos_x a) (pos_x b), pos_y = f_add (pos_y a) (pos_y b),
      pos_z = f_add (pos_z a) (pos_z b)\<rparr>"

definition subtract_position :: "position \<Rightarrow> position \<Rightarrow> position" where
  "subtract_position a b =
     \<lparr>pos_x = f_sub (pos_x a) (pos_x b), pos_y = f_sub (pos_y a) (pos_y b),
      pos_z = f_sub (pos_z a) (pos_z b)\<rparr>"

definition onOff :: "string \<Rightarrow> setting" where
  "onOff value = (if trim_space value = ''0'' then SettingOff else SettingOn)"

definition apply_status :: "instant \<Rightarrow> report \<Rightarrow> machine \<Rightarrow> machine" where
  "apply_status now r m0 =
     (let m1 = m0\<lparr>mc_state := r_state r, mc_feed := r_feed r, mc_spindle := r_spindle r\<rparr>;
          m2 = (if r_has_offset r then m1\<lparr>mc_offset := r_offset r, mc_has_offset := True\<rparr> else m1);
          m3 = (if r_has_position r then
                  (if r_position_is_work r then
                     m2\<lparr>mc_work := r_position r,
                        mc_position := add_position (r_position r) (mc_offset m2),
                        mc_has_position := True\<rparr>
                   else
                     m2\<lparr>mc_position := r_position r,
                        mc_work := subtract_position (r_position r) (mc_offset m2),
                        mc_has_position := True\<rparr>)
                else m2);
          m4 = (if r_state r \<noteq> StateAlarm then m3\<lparr>mc_alarm_code := 0\<rparr> else m3);
          m5 = m4\<lparr>mc_reports := mc_reports m4 + 1\<rparr>
      in if r_has_overrides r then
           m5\<lparr>mc_beam := (if contains_any (r_accessory r) ''SC'' then BeamOn else BeamOff),
              mc_beam_unix := unix now, mc_beam_reports := mc_reports m5\<rparr>
         else m5)"

definition apply_setting :: "report \<Rightarrow> machine \<Rightarrow> machine" where
  "apply_setting r m0 =
     (let m1 = (if r_setting r = SpindleMax then
                  (case atoi (trim_space (r_setting_value r)) of
                     (value, None) \<Rightarrow> if 0 < value then m0\<lparr>mc_spindle_max := value\<rparr> else m0
                   | (_, Some _) \<Rightarrow> m0)
                else m0);
          m2 = (if r_setting r = HomingCycle then m1\<lparr>mc_homing := onOff (r_setting_value r)\<rparr>
                else if r_setting r = SoftLimits then m1\<lparr>mc_soft_limits := onOff (r_setting_value r)\<rparr>
                else if r_setting r = HardLimits then m1\<lparr>mc_hard_limits := onOff (r_setting_value r)\<rparr>
                else m1)
      in if r_setting r = LaserMode then
           m2\<lparr>mc_laser_mode :=
               (if trim_space (r_setting_value r) = ''0'' then SettingOff else SettingOn)\<rparr>
         else m2)"

definition apply_message :: "report \<Rightarrow> machine \<Rightarrow> machine" where
  "apply_message r m0 =
     (let message = trim_set (r_text r) ''[]''; m1 = m0\<lparr>mc_last_message := message\<rparr>
      in if has_prefix message ''VER:'' then
           m1\<lparr>mc_firmware := trim_suffix (trim_prefix message ''VER:'') '':''\<rparr>
         else if has_prefix message ''OPT:'' then m1\<lparr>mc_options := trim_prefix message ''OPT:''\<rparr>
         else m1)"

definition apply_welcome :: "instant \<Rightarrow> machine \<Rightarrow> machine" where
  "apply_welcome now m =
     blank_machine
       \<lparr>mc_resets := mc_resets m + 1, mc_last_report_unix := mc_last_report_unix m,
        mc_state := StateUnknown, mc_beam := BeamOff, mc_beam_unix := unix now,
        mc_reports := mc_reports m, mc_beam_reports := mc_reports m,
        mc_laser_mode := mc_laser_mode m, mc_firmware := mc_firmware m,
        mc_options := mc_options m, mc_spindle_max := mc_spindle_max m,
        mc_homing := mc_homing m, mc_soft_limits := mc_soft_limits m,
        mc_hard_limits := mc_hard_limits m\<rparr>"

definition apply_kind :: "instant \<Rightarrow> report \<Rightarrow> machine \<Rightarrow> machine" where
  "apply_kind now r m =
     (case r_kind r of
        KStatus \<Rightarrow> apply_status now r m
      | KSetting \<Rightarrow> apply_setting r m
      | KAlarm \<Rightarrow> m\<lparr>mc_state := StateAlarm, mc_alarm_code := r_code r\<rparr>
      | KError \<Rightarrow> m\<lparr>mc_last_error := r_code r\<rparr>
      | KMessage \<Rightarrow> apply_message r m
      | KWelcome \<Rightarrow> apply_welcome now m
      | _ \<Rightarrow> m)"

definition apply_report :: "instant \<Rightarrow> report \<Rightarrow> observer \<Rightarrow> observer" where
  "apply_report now r ob =
     (if r_kind r = KUnknown \<and> r_text r = [] then ob
      else ob\<lparr>ob_recognised := ob_recognised ob + (if r_kind r \<noteq> KUnknown then 1 else 0),
              ob_last_report := Some now,
              ob_machine := apply_kind now r ((ob_machine ob)\<lparr>mc_last_report_unix := unix now\<rparr>)\<rparr>)"

section \<open>Assembling lines\<close>

definition announced :: "kind \<Rightarrow> bool" where
  "announced k \<longleftrightarrow> k \<in> {KAlarm, KError, KWelcome, KMessage, KSetting, KOk}"

definition flush :: "instant \<Rightarrow> observer \<Rightarrow> observer \<times> report option" where
  "flush now ob =
     (let text = ob_line ob; dropped = ob_dropped ob;
          ob1 = ob\<lparr>ob_line := [], ob_dropped := False\<rparr>
      in if text = [] \<or> dropped then (ob1, None)
         else let r = Parse text; ob2 = apply_report now r ob1
              in if announced (r_kind r) then (ob2, Some r)
                 else if r_kind r = KUnknown then
                   (ob2\<lparr>ob_garbage := ob_garbage ob2 + 1\<rparr>, None)
                 else (ob2, None))"

definition is_line_end :: "byte \<Rightarrow> bool" where
  "is_line_end b \<longleftrightarrow> b = CHR 0x0A \<or> b = CHR 0x0D"

definition observe_byte :: "instant \<Rightarrow> byte \<Rightarrow> observer \<Rightarrow> observer \<times> report option" where
  "observe_byte now b ob =
     (if is_line_end b then flush now ob
      else if maxLine \<le> length (ob_line ob) then
        (ob\<lparr>ob_dropped := True, ob_garbage := ob_garbage ob + 1\<rparr>, None)
      else (ob\<lparr>ob_line := ob_line ob @ [b]\<rparr>, None))"

fun observe_bytes :: "instant \<Rightarrow> string \<Rightarrow> observer \<Rightarrow> observer \<times> report list" where
  "observe_bytes now [] ob = (ob, [])"
| "observe_bytes now (b # bs) ob =
     (let (ob1, r) = observe_byte now b ob; (ob2, rs) = observe_bytes now bs ob1
      in (ob2, (case r of None \<Rightarrow> rs | Some x \<Rightarrow> x # rs)))"

text \<open>\<open>Write\<close>: the new state and what \<open>OnReport\<close> is called with, in order.\<close>

definition observer_Write ::
    "instant \<Rightarrow> string \<Rightarrow> observer \<Rightarrow> observer \<times> (report \<times> machine) list" where
  "observer_Write now data ob =
     (let (ob1, notable) = observe_bytes now data ob
      in (ob1, map (\<lambda>r. (r, ob_machine ob1)) notable))"

section \<open>Questions\<close>

definition Silent :: "observer \<Rightarrow> instant \<Rightarrow> duration \<Rightarrow> bool" where
  "Silent ob now d \<longleftrightarrow>
     mc_last_report_unix (ob_machine ob) \<noteq> 0
     \<and> d < now - mc_last_report_unix (ob_machine ob) * second"

definition Quiet :: "observer \<Rightarrow> instant \<Rightarrow> duration \<Rightarrow> bool" where
  "Quiet ob now d = (case ob_last_report ob of None \<Rightarrow> True | Some t \<Rightarrow> d < now - t)"

definition Gibberish :: "observer \<Rightarrow> bool" where
  "Gibberish ob \<longleftrightarrow> ob_recognised ob = 0 \<and> 5 \<le> ob_garbage ob"

definition ForgetBeam :: "observer \<Rightarrow> observer" where
  "ForgetBeam ob =
     ob\<lparr>ob_machine := (ob_machine ob)\<lparr>mc_beam := BeamUnknown, mc_beam_unix := 0,
                                      mc_beam_reports := 0\<rparr>\<rparr>"

definition observer_Reset :: "observer \<Rightarrow> observer" where
  "observer_Reset ob =
     ob\<lparr>ob_machine := blank_machine, ob_last_report := None, ob_line := [], ob_dropped := False,
        ob_garbage := 0, ob_recognised := 0\<rparr>"

lemma observe_bytes_Cons:
  "fst (observe_bytes now (b # bs) ob) = fst (observe_bytes now bs (fst (observe_byte now b ob)))"
  "snd (observe_bytes now (b # bs) ob) =
     (case snd (observe_byte now b ob) of None \<Rightarrow> [] | Some x \<Rightarrow> [x])
     @ snd (observe_bytes now bs (fst (observe_byte now b ob)))"
  by (simp_all add: Let_def split: prod.splits option.splits)

section \<open>Chunks do not matter\<close>

lemma observe_bytes_append:
  "observe_bytes now (xs @ ys) ob =
     (let (ob1, r1) = observe_bytes now xs ob; (ob2, r2) = observe_bytes now ys ob1
      in (ob2, r1 @ r2))"
  by (induction xs arbitrary: ob) (auto simp: Let_def split: prod.splits option.splits)

fun observe_chunks :: "instant \<Rightarrow> string list \<Rightarrow> observer \<Rightarrow> observer \<times> (report \<times> machine) list" where
  "observe_chunks now [] ob = (ob, [])"
| "observe_chunks now (c # cs) ob =
     (let (ob1, r1) = observer_Write now c ob; (ob2, r2) = observe_chunks now cs ob1
      in (ob2, r1 @ r2))"

lemma observe_chunks_concat:
  "fst (observe_chunks now cs ob) = fst (observe_bytes now (concat cs) ob)
   \<and> map fst (snd (observe_chunks now cs ob)) = snd (observe_bytes now (concat cs) ob)"
proof (induction cs arbitrary: ob)
  case Nil
  then show ?case by simp
next
  case (Cons c cs)
  obtain ob1 r1 where c: "observe_bytes now c ob = (ob1, r1)" by fastforce
  show ?case
    using Cons [of ob1] c
    by (auto simp: observer_Write_def observe_bytes_append Let_def comp_def split: prod.splits)
qed

section \<open>Refinement: the assembler delivers the complete lines that fit\<close>

fun lines_in :: "string \<Rightarrow> string \<Rightarrow> string list" where
  "lines_in acc [] = []"
| "lines_in acc (b # bs) = (if is_line_end b then acc # lines_in [] bs else lines_in (acc @ [b]) bs)"

definition usable_lines :: "string list \<Rightarrow> string list" where
  "usable_lines ls = filter (\<lambda>l. l \<noteq> [] \<and> length l \<le> maxLine) ls"

definition apply_line :: "instant \<Rightarrow> string \<Rightarrow> observer \<Rightarrow> observer" where
  "apply_line now l ob = apply_report now (Parse l) ob"

text \<open>What of the observer describes the controller, as opposed to the line being assembled.\<close>

definition reading :: "observer \<Rightarrow> machine \<times> go_time \<times> int" where
  "reading ob = (ob_machine ob, ob_last_report ob, ob_recognised ob)"

definition assembling :: "string \<Rightarrow> observer \<Rightarrow> bool" where
  \<comment> \<open>\<open>acc\<close> is the line so far; the observer holds its first 512 bytes\<close>
  "assembling acc ob \<longleftrightarrow>
     ob_line ob = take maxLine acc \<and> (ob_dropped ob \<longleftrightarrow> maxLine < length acc)"

lemma assembling_new: "assembling [] NewObserver" "assembling [] (observer_Reset ob)"
  by (simp_all add: assembling_def NewObserver_def observer_Reset_def)

lemma reading_apply:
  "reading ob = reading ob' \<Longrightarrow> reading (apply_report now r ob) = reading (apply_report now r ob')"
  by (simp add: reading_def apply_report_def)

lemma reading_fold_apply:
  "reading ob = reading ob' \<Longrightarrow> reading (fold (apply_line now) ls ob) = reading (fold (apply_line now) ls ob')"
proof (induction ls arbitrary: ob ob')
  case Nil
  then show ?case by simp
next
  case (Cons l ls)
  from Cons.prems have "reading (apply_line now l ob) = reading (apply_line now l ob')"
    unfolding apply_line_def by (rule reading_apply)
  from Cons.IH [OF this] show ?case by simp
qed

lemma apply_report_line [simp]:
  "ob_line (apply_report now r ob) = ob_line ob" "ob_dropped (apply_report now r ob) = ob_dropped ob"
  by (simp_all add: apply_report_def)

lemma assembling_byte:
  assumes "assembling acc ob" and "\<not> is_line_end b"
  shows "assembling (acc @ [b]) (fst (observe_byte now b ob))
    \<and> reading (fst (observe_byte now b ob)) = reading ob \<and> snd (observe_byte now b ob) = None"
proof (cases "maxLine \<le> length acc")
  case True
  with assms show ?thesis by (simp add: assembling_def observe_byte_def reading_def)
next
  case False
  with assms show ?thesis by (simp add: assembling_def observe_byte_def reading_def)
qed

lemma assembling_end:
  assumes "assembling acc ob" and "is_line_end b"
  shows "assembling [] (fst (observe_byte now b ob))"
  using assms by (simp add: assembling_def observe_byte_def flush_def Let_def)

lemma assembling_end_fits:
  assumes "assembling acc ob" and "is_line_end b" and "acc \<noteq> []" and "length acc \<le> maxLine"
  shows "reading (fst (observe_byte now b ob)) = reading (apply_line now acc ob)"
    and "snd (observe_byte now b ob) =
      (if announced (r_kind (Parse acc)) then Some (Parse acc) else None)"
proof -
  from assms(1,4) have "ob_line ob = acc" "\<not> ob_dropped ob" by (simp_all add: assembling_def)
  then have flush: "observe_byte now b ob =
      (let ob2 = apply_report now (Parse acc) (ob\<lparr>ob_line := [], ob_dropped := False\<rparr>)
       in if announced (r_kind (Parse acc)) then (ob2, Some (Parse acc))
          else if r_kind (Parse acc) = KUnknown then
            (ob2\<lparr>ob_garbage := ob_garbage ob2 + 1\<rparr>, None)
          else (ob2, None))"
    using assms(2,3) by (simp only: observe_byte_def flush_def Let_def simp_thms if_True if_False)
  have "reading (apply_report now (Parse acc) (ob\<lparr>ob_line := [], ob_dropped := False\<rparr>)) =
      reading (apply_report now (Parse acc) ob)"
    by (rule reading_apply) (simp add: reading_def)
  then show "reading (fst (observe_byte now b ob)) = reading (apply_line now acc ob)"
    unfolding flush by (simp add: Let_def apply_line_def reading_def)
  show "snd (observe_byte now b ob) =
      (if announced (r_kind (Parse acc)) then Some (Parse acc) else None)"
    unfolding flush by (simp add: Let_def)
qed

lemma assembling_end_skips:
  assumes "assembling acc ob" and "is_line_end b" and "acc = [] \<or> maxLine < length acc"
  shows "reading (fst (observe_byte now b ob)) = reading ob \<and> snd (observe_byte now b ob) = None"
  using assms by (auto simp: assembling_def observe_byte_def flush_def Let_def reading_def)

lemma observe_refines:
  assumes "assembling acc ob"
  shows "reading (fst (observe_bytes now data ob)) =
      reading (fold (apply_line now) (usable_lines (lines_in acc data)) ob)
    \<and> snd (observe_bytes now data ob) =
      filter (\<lambda>r. announced (r_kind r)) (map Parse (usable_lines (lines_in acc data)))"
  using assms
proof (induction data arbitrary: acc ob)
  case Nil
  then show ?case by (simp add: usable_lines_def)
next
  case (Cons b bs)
  let ?ob1 = "fst (observe_byte now b ob)"
  show ?case
  proof (cases "is_line_end b")
    case False
    from assembling_byte [OF Cons.prems False, of now]
    have "assembling (acc @ [b]) ?ob1" "reading ?ob1 = reading ob" "snd (observe_byte now b ob) = None"
      by auto
    then show ?thesis
      using False Cons.IH [of "acc @ [b]" ?ob1]
      by (simp add: observe_bytes_Cons reading_fold_apply [of ?ob1 ob] del: observe_bytes.simps)
  next
    case True
    note IH = Cons.IH [OF assembling_end [OF Cons.prems True]]
    show ?thesis
    proof (cases "acc \<noteq> [] \<and> length acc \<le> maxLine")
      case fits: True
      then have "usable_lines (lines_in acc (b # bs)) = acc # usable_lines (lines_in [] bs)"
        using True by (simp add: usable_lines_def)
      then show ?thesis
        using fits IH [of now] assembling_end_fits [OF Cons.prems True, of now]
        by (simp add: observe_bytes_Cons reading_fold_apply [of ?ob1 "apply_line now acc ob"]
            del: observe_bytes.simps)
    next
      case False
      then have skip: "acc = [] \<or> maxLine < length acc" by auto
      then have "usable_lines (lines_in acc (b # bs)) = usable_lines (lines_in [] bs)"
        using True by (auto simp: usable_lines_def)
      then show ?thesis
        using skip IH [of now] assembling_end_skips [OF Cons.prems True, of now]
        by (simp add: observe_bytes_Cons reading_fold_apply [of ?ob1 ob] del: observe_bytes.simps)
    qed
  qed
qed

section \<open>The line buffer is bounded\<close>

lemma observe_byte_bound:
  "length (ob_line ob) \<le> maxLine \<Longrightarrow> length (ob_line (fst (observe_byte now b ob))) \<le> maxLine"
  by (auto simp: observe_byte_def flush_def Let_def maxLine_def)

lemma observe_bytes_bound:
  "length (ob_line ob) \<le> maxLine \<Longrightarrow> length (ob_line (fst (observe_bytes now bs ob))) \<le> maxLine"
proof (induction bs arbitrary: ob)
  case Nil
  then show ?case by simp
next
  case (Cons b bs)
  then show ?case
    using observe_byte_bound [of ob now b] by (simp add: observe_bytes_Cons del: observe_bytes.simps)
qed

section \<open>The beam reading\<close>

lemma apply_status_beam:
  "mc_beam (apply_status now r m) =
     (if r_has_overrides r then (if contains_any (r_accessory r) ''SC'' then BeamOn else BeamOff)
      else mc_beam m)"
  by (simp add: apply_status_def Let_def)

lemma apply_setting_beam [simp]: "mc_beam (apply_setting r m) = mc_beam m"
  by (simp add: apply_setting_def Let_def split: prod.splits option.splits)

lemma apply_message_beam [simp]: "mc_beam (apply_message r m) = mc_beam m"
  by (simp add: apply_message_def Let_def)

lemma apply_welcome_beam [simp]: "mc_beam (apply_welcome now m) = BeamOff"
  by (simp add: apply_welcome_def)

definition shows_beam_on :: "report \<Rightarrow> bool" where
  "shows_beam_on r \<longleftrightarrow>
     r_kind r = KStatus \<and> r_has_overrides r \<and> contains_any (r_accessory r) ''SC''"

lemma apply_report_beam_on:
  "mc_beam (ob_machine (apply_report now r ob)) = BeamOn \<Longrightarrow>
   mc_beam (ob_machine ob) = BeamOn \<or> shows_beam_on r"
  by (auto simp: apply_report_def apply_kind_def apply_status_beam shows_beam_on_def
      split: if_splits kind.splits)

lemma fold_apply_beam_on:
  "mc_beam (ob_machine (fold (apply_line now) ls ob)) = BeamOn \<Longrightarrow>
   mc_beam (ob_machine ob) = BeamOn \<or> (\<exists>l \<in> set ls. shows_beam_on (Parse l))"
proof (induction ls arbitrary: ob)
  case Nil
  then show ?case by simp
next
  case (Cons l ls)
  then show ?case
    using apply_report_beam_on [of now "Parse l" ob] by (auto simp: apply_line_def)
qed

section \<open>Settings survive everything but a reset of the observer\<close>

definition identity :: "machine \<Rightarrow> setting \<times> string \<times> string \<times> int \<times> setting \<times> setting \<times> setting" where
  "identity m = (mc_laser_mode m, mc_firmware m, mc_options m, mc_spindle_max m, mc_homing m,
                 mc_soft_limits m, mc_hard_limits m)"

lemma apply_status_identity [simp]: "identity (apply_status now r m) = identity m"
  by (simp add: identity_def apply_status_def Let_def)

lemma apply_welcome_identity [simp]: "identity (apply_welcome now m) = identity m"
  by (simp add: identity_def apply_welcome_def)

lemma laser_mode_only_from_settings:
  "mc_laser_mode (apply_kind now r m) \<noteq> mc_laser_mode m \<Longrightarrow>
   r_kind r = KSetting \<and> r_setting r = LaserMode"
  by (auto simp: apply_kind_def apply_setting_def apply_status_def apply_message_def
      apply_welcome_def Let_def split: kind.splits if_splits prod.splits option.splits)

section \<open>Gibberish\<close>

lemma recognised_mono:
  "ob_recognised ob \<le> ob_recognised (fst (observe_byte now b ob))"
  by (simp add: observe_byte_def flush_def apply_report_def Let_def)

lemma recognised_mono_bytes:
  "ob_recognised ob \<le> ob_recognised (fst (observe_bytes now bs ob))"
proof (induction bs arbitrary: ob)
  case Nil
  then show ?case by simp
next
  case (Cons b bs)
  show ?case
    using recognised_mono [of ob now b] Cons [of "fst (observe_byte now b ob)"]
    by (simp add: observe_bytes_Cons del: observe_bytes.simps)
qed

section \<open>What the observer promises\<close>

text \<open>
  C35: however the serial port cuts the controller's output into chunks, the observer ends up
  with the reading that parsing the complete lines of up to 512 bytes one after the other
  gives, and hands out exactly the notable ones, in order; longer lines and blank ones count
  for nothing.
\<close>

theorem observer_reads_complete_lines:
  "reading (fst (observe_chunks now cs NewObserver)) =
     reading (fold (apply_line now) (usable_lines (lines_in [] (concat cs))) NewObserver)
   \<and> map fst (snd (observe_chunks now cs NewObserver)) =
     filter (\<lambda>r. announced (r_kind r)) (map Parse (usable_lines (lines_in [] (concat cs))))"
  using observe_refines [OF assembling_new(1), of now "concat cs"] observe_chunks_concat [of now cs]
  by simp

text \<open>
  The bridge believes the beam to be on only on the controller's word: among the complete
  lines there is a status report that mentions the outputs and names a spindle or coolant
  direction that is on.
\<close>

theorem beam_on_was_reported:
  assumes "mc_beam (ob_machine (fst (observe_chunks now cs NewObserver))) = BeamOn"
  shows "\<exists>l \<in> set (usable_lines (lines_in [] (concat cs))). shows_beam_on (Parse l)"
proof -
  have "ob_machine (fst (observe_chunks now cs NewObserver)) =
      ob_machine (fold (apply_line now) (usable_lines (lines_in [] (concat cs))) NewObserver)"
    using observe_refines [OF assembling_new(1), of now "concat cs"] observe_chunks_concat [of now cs]
    by (simp add: reading_def)
  with assms fold_apply_beam_on show ?thesis
    by (metis NewObserver_def beam.distinct(1) blank_machine_def machine.select_convs(14) observer.select_convs(5))
qed

theorem beam_on_was_reported_witness:
  "\<exists>l \<in> set (usable_lines (lines_in [] (''<Idle|Ov:1,1,1|A:S>'' @ [CHR 0x0A]))). shows_beam_on (Parse l)"
proof -
  have "mc_beam (ob_machine (fst (observe_chunks 0 [''<Idle|Ov:1,1'', '',1|A:S>'' @ [CHR 0x0A]] NewObserver))) = BeamOn"
    by code_simp
  from beam_on_was_reported [OF this] show ?thesis by simp
qed

end
