(* ===== verification/Safety.thy ===== *)
theory Safety
  imports Grbl_Observer
begin

text \<open>
  \<open>backend/internal/proxy/safety.go\<close>: the pure decision what the bridge does about a machine
  nobody is driving. \<open>Decide\<close> is the code's table, branch by branch and with its reasons. The
  contract that its caller relies on - a rung is never recommended twice, so the ladder ends -
  is the locale \<open>escalation\<close>, interpreted on \<open>Decide\<close>.
\<close>

section \<open>Data\<close>

definition DisconnectNone :: string where "DisconnectNone = ''none''"
definition DisconnectHold :: string where "DisconnectHold = ''hold''"
definition DisconnectReset :: string where "DisconnectReset = ''reset''"

datatype trigger = TriggerClientGone | TriggerBeamUnattended | TriggerBeamStationary

datatype rung = StepNone | StepFeedHold | StepSpindleStop | StepSoftReset | StepUnconfirmed

text \<open>The Go type is an integer counted by \<open>iota\<close>; its order is the order of the ladder.\<close>

primrec rung_index :: "rung \<Rightarrow> nat" where
  "rung_index StepNone = 0"
| "rung_index StepFeedHold = 1"
| "rung_index StepSpindleStop = 2"
| "rung_index StepSoftReset = 3"
| "rung_index StepUnconfirmed = 4"

lemma rung_index_eq [simp]: "rung_index a = rung_index b \<longleftrightarrow> a = b"
  by (cases a; cases b) simp_all

instantiation rung :: linorder
begin
definition less_eq_rung :: "rung \<Rightarrow> rung \<Rightarrow> bool" where
  "less_eq_rung a b \<longleftrightarrow> rung_index a \<le> rung_index b"
definition less_rung :: "rung \<Rightarrow> rung \<Rightarrow> bool" where
  "less_rung a b \<longleftrightarrow> rung_index a < rung_index b"
instance
  by standard (auto simp: less_eq_rung_def less_rung_def)
end

record tried =
  td_feed_hold :: bool
  td_spindle_stop :: bool
  td_soft_reset :: bool

definition nothing_tried :: tried where
  "nothing_tried = \<lparr>td_feed_hold = False, td_spindle_stop = False, td_soft_reset = False\<rparr>"

record situation =
  si_policy :: string
  si_trigger :: trigger
  si_state :: machine_state
  si_beam :: beam
  si_laser_mode :: setting
  si_tried :: tried

record decision =
  de_step :: rung
  de_wait_for_rest :: bool
  de_reason :: string

definition deciding :: "rung \<Rightarrow> bool \<Rightarrow> string \<Rightarrow> decision" where
  "deciding s w reason = \<lparr>de_step = s, de_wait_for_rest = w, de_reason = reason\<rparr>"

lemma deciding_simps [simp]:
  "de_step (deciding s w r) = s" "de_wait_for_rest (deciding s w r) = w"
  "de_reason (deciding s w r) = r"
  by (simp_all add: deciding_def)

section \<open>The table\<close>

definition Decide :: "situation \<Rightarrow> decision" where
  "Decide s =
     (if si_policy s = DisconnectNone then deciding StepNone False []
      else if \<not> Moving (si_state s) \<and> si_beam s \<noteq> BeamOn \<and> si_tried s = nothing_tried then
        deciding StepNone False []
      else if AtRest (si_state s) \<and> si_beam s = BeamOff \<and> si_tried s = nothing_tried then
        deciding StepNone False []
      else if \<not> td_feed_hold (si_tried s) \<and> \<not> AtRest (si_state s) then
        deciding StepFeedHold False ''feed hold''
      else
        (case si_beam s of
           BeamOn \<Rightarrow>
             (if si_state s = StateHold \<and> \<not> td_spindle_stop (si_tried s) then
                deciding StepSpindleStop False
                  ''the beam is still on; stopping the spindle output''
              else if td_soft_reset (si_tried s) then
                deciding StepUnconfirmed False
                  ''the beam is still on after a feed hold, a spindle stop and a soft reset''
              else if td_spindle_stop (si_tried s) then
                deciding StepSoftReset False
                  ''the beam stayed on after a feed hold and a spindle stop; soft reset''
              else
                deciding StepSoftReset False
                  ''the beam is on and the machine is not in a hold, so nothing gentler reaches it; soft reset'')
         | BeamOff \<Rightarrow>
             (if si_trigger s = TriggerClientGone \<and> si_policy s = DisconnectReset
                 \<and> \<not> td_soft_reset (si_tried s) then
                deciding StepSoftReset True ''soft reset after the client disconnected mid-job''
              else deciding StepNone False [])
         | BeamUnknown \<Rightarrow>
             (if si_laser_mode s = SettingOff \<and> \<not> td_soft_reset (si_tried s) then
                deciding StepSoftReset False
                  ''laser mode ($32) is off, so the feed hold did not switch the beam off; soft reset''
              else if si_trigger s = TriggerClientGone \<and> si_policy s = DisconnectReset
                 \<and> \<not> td_soft_reset (si_tried s) then
                deciding StepSoftReset True ''soft reset after the client disconnected mid-job''
              else if td_soft_reset (si_tried s) then deciding StepNone False []
              else
                deciding StepUnconfirmed False
                  ''the controller never reported whether the beam is off'')))"

lemma Decide_spindle_stop:
  "de_step (Decide s) = StepSpindleStop \<Longrightarrow> si_beam s = BeamOn \<and> si_state s = StateHold"
  by (cases "si_beam s") (simp_all add: Decide_def split: if_splits)

section \<open>Contract: a ladder whose rungs are spent\<close>

definition commands :: "rung set" where
  "commands = {StepFeedHold, StepSpindleStop, StepSoftReset}"

text \<open>
  \<open>decide t ev\<close> recommends the next rung after \<open>t\<close> has been spent and \<open>ev\<close> has been observed.
  A recommendation in \<open>rungs\<close> is acted on and spent; any other one ends the ladder.
\<close>

locale escalation =
  fixes decide :: "'t \<Rightarrow> 'o \<Rightarrow> 'r"
    and spend :: "'r \<Rightarrow> 't \<Rightarrow> 't"
    and spent :: "'t \<Rightarrow> 'r set"
    and rungs :: "'r set"
  assumes finite_rungs: "finite rungs"
    and spent_rungs: "spent t \<subseteq> rungs"
    and fresh_rung: "decide t ev \<in> rungs \<Longrightarrow> decide t ev \<notin> spent t"
    and spend_rung: "r \<in> rungs \<Longrightarrow> spent (spend r t) = insert r (spent t)"
begin

fun climb :: "'t \<Rightarrow> 'o list \<Rightarrow> 'r list" where
  "climb t [] = []"
| "climb t (ev # evs) =
     (if decide t ev \<in> rungs then decide t ev # climb (spend (decide t ev) t) evs
      else [decide t ev])"

definition budget :: "'t \<Rightarrow> nat" where
  "budget t = card (rungs - spent t)"

lemma budget_spend:
  assumes "decide t ev \<in> rungs"
  shows "Suc (budget (spend (decide t ev) t)) = budget t"
proof -
  have "rungs - spent (spend (decide t ev) t) = (rungs - spent t) - {decide t ev}"
    using assms by (auto simp: spend_rung)
  moreover have "decide t ev \<in> rungs - spent t" using assms fresh_rung by blast
  ultimately show ?thesis
    using card_Suc_Diff1 [of "rungs - spent t" "decide t ev"] finite_rungs
    by (simp add: budget_def)
qed

lemma climb_short: "length (climb t evs) \<le> Suc (budget t)"
proof (induction evs arbitrary: t)
  case Nil
  then show ?case by simp
next
  case (Cons ev evs)
  show ?case
    using Cons [of "spend (decide t ev) t"] budget_spend [of t ev]
    by (cases "decide t ev \<in> rungs") simp_all
qed

lemma climb_fresh: "r \<in> set (climb t evs) \<Longrightarrow> r \<in> rungs \<Longrightarrow> r \<notin> spent t"
proof (induction evs arbitrary: t)
  case Nil
  then show ?case by simp
next
  case (Cons ev evs)
  then show ?case
    using fresh_rung [of t ev] spend_rung [of "decide t ev" t]
    by (auto split: if_splits)
qed

lemma climb_distinct: "distinct (climb t evs)"
proof (induction evs arbitrary: t)
  case Nil
  then show ?case by simp
next
  case (Cons ev evs)
  show ?case
  proof (cases "decide t ev \<in> rungs")
    case True
    have "decide t ev \<notin> set (climb (spend (decide t ev) t) evs)"
      using climb_fresh [of "decide t ev" "spend (decide t ev) t" evs] spend_rung [OF True] True
      by auto
    then show ?thesis using True Cons by simp
  qed simp
qed

text \<open>One observation more than there are rungs left is enough to reach the end.\<close>

lemma climb_ends:
  "budget t < length evs \<Longrightarrow> climb t evs \<noteq> [] \<and> last (climb t evs) \<notin> rungs"
proof (induction evs arbitrary: t)
  case Nil
  then show ?case by simp
next
  case (Cons ev evs)
  show ?case
  proof (cases "decide t ev \<in> rungs")
    case True
    then have "budget (spend (decide t ev) t) < length evs"
      using budget_spend [OF True] Cons.prems by simp
    from Cons.IH [OF this] True show ?thesis by simp
  qed simp
qed

lemma climb_commands_first: "set (butlast (climb t evs)) \<subseteq> rungs"
proof (induction evs arbitrary: t)
  case Nil
  then show ?case by simp
next
  case (Cons ev evs)
  then show ?case by simp
qed

end

section \<open>The code's ladder meets the contract\<close>

definition spend_tried :: "rung \<Rightarrow> tried \<Rightarrow> tried" where
  "spend_tried r t =
     (case r of StepFeedHold \<Rightarrow> t\<lparr>td_feed_hold := True\<rparr>
      | StepSpindleStop \<Rightarrow> t\<lparr>td_spindle_stop := True\<rparr>
      | StepSoftReset \<Rightarrow> t\<lparr>td_soft_reset := True\<rparr>
      | _ \<Rightarrow> t)"

definition spent_tried :: "tried \<Rightarrow> rung set" where
  "spent_tried t =
     (if td_feed_hold t then {StepFeedHold} else {})
     \<union> (if td_spindle_stop t then {StepSpindleStop} else {})
     \<union> (if td_soft_reset t then {StepSoftReset} else {})"

text \<open>What can change between two decisions of one intervention: the controller's account.\<close>

record account =
  ac_state :: machine_state
  ac_beam :: beam
  ac_laser_mode :: setting

definition situation_of :: "string \<Rightarrow> trigger \<Rightarrow> tried \<Rightarrow> account \<Rightarrow> situation" where
  "situation_of policy trig t a =
     \<lparr>si_policy = policy, si_trigger = trig, si_state = ac_state a, si_beam = ac_beam a,
      si_laser_mode = ac_laser_mode a, si_tried = t\<rparr>"

definition recommend :: "string \<Rightarrow> trigger \<Rightarrow> tried \<Rightarrow> account \<Rightarrow> rung" where
  "recommend policy trig t a = de_step (Decide (situation_of policy trig t a))"

fun ladder :: "string \<Rightarrow> trigger \<Rightarrow> tried \<Rightarrow> account list \<Rightarrow> rung list" where
  "ladder policy trig t [] = []"
| "ladder policy trig t (a # as) =
     (let r = recommend policy trig t a
      in if r \<in> commands then r # ladder policy trig (spend_tried r t) as else [r])"

lemma spent_tried_simps [simp]:
  "StepNone \<notin> spent_tried t" "StepUnconfirmed \<notin> spent_tried t"
  "StepFeedHold \<in> spent_tried t \<longleftrightarrow> td_feed_hold t"
  "StepSpindleStop \<in> spent_tried t \<longleftrightarrow> td_spindle_stop t"
  "StepSoftReset \<in> spent_tried t \<longleftrightarrow> td_soft_reset t"
  by (simp_all add: spent_tried_def)

lemma Decide_fresh: "de_step (Decide s) \<notin> spent_tried (si_tried s)"
  by (cases "si_beam s") (simp_all add: Decide_def)

interpretation ladder: escalation "recommend policy trig" spend_tried spent_tried commands
  for policy trig
proof
  show "finite commands" by (simp add: commands_def)
  show "spent_tried t \<subseteq> commands" for t by (auto simp: spent_tried_def commands_def)
  show "recommend policy trig t ev \<in> commands \<Longrightarrow> recommend policy trig t ev \<notin> spent_tried t" for t ev
    using Decide_fresh [of "situation_of policy trig t ev"]
    by (simp add: recommend_def) (simp add: situation_of_def)
  show "r \<in> commands \<Longrightarrow> spent_tried (spend_tried r t) = insert r (spent_tried t)" for r t
    by (auto simp: commands_def spent_tried_def spend_tried_def)
qed

lemma ladder_climb: "ladder policy trig t as = ladder.climb policy trig t as"
  by (induction as arbitrary: t) (simp_all add: Let_def)

lemma budget_nothing_tried [simp]: "ladder.budget nothing_tried = 3"
proof -
  have "commands - spent_tried nothing_tried = {StepFeedHold, StepSpindleStop, StepSoftReset}"
    by (auto simp: commands_def spent_tried_def nothing_tried_def)
  then show ?thesis by (simp add: ladder.budget_def)
qed

section \<open>What the decision promises\<close>

lemma Decide_none: "si_policy s = DisconnectNone \<Longrightarrow> Decide s = deciding StepNone False []"
  by (simp add: Decide_def)

text \<open>
  C4: whatever the policy, the trigger and the controller's answers, a ladder never sends the
  same command twice, sends nothing but feed hold, spindle stop and soft reset before it
  concludes, and has concluded by its fourth decision - so the five turns of the loop that
  carries it out are always enough.
\<close>

theorem ladder_ends:
  "distinct (ladder policy trig nothing_tried (a1 # a2 # a3 # a4 # as))
   \<and> length (ladder policy trig nothing_tried (a1 # a2 # a3 # a4 # as)) \<le> 4
   \<and> set (butlast (ladder policy trig nothing_tried (a1 # a2 # a3 # a4 # as))) \<subseteq> commands
   \<and> last (ladder policy trig nothing_tried (a1 # a2 # a3 # a4 # as)) \<in> {StepNone, StepUnconfirmed}"
proof -
  let ?as = "a1 # a2 # a3 # a4 # as"
  have "last (ladder policy trig nothing_tried ?as) \<notin> commands"
    using ladder.climb_ends [of nothing_tried ?as policy trig] by (simp only: ladder_climb) simp
  then have "last (ladder policy trig nothing_tried ?as) \<in> {StepNone, StepUnconfirmed}"
    by (cases "last (ladder policy trig nothing_tried ?as)") (simp_all add: commands_def)
  then show ?thesis
    using ladder.climb_distinct [of policy trig nothing_tried ?as]
      ladder.climb_short [of policy trig nothing_tried ?as]
      ladder.climb_commands_first [of policy trig nothing_tried ?as]
    by (simp only: ladder_climb budget_nothing_tried) simp
qed



text \<open>
  With \<open>on_disconnect=reset\<close>, a client that leaves while the axes turn ends the job whatever
  the controller answers: the soft reset is the second or the third step of every ladder.
\<close>

theorem reset_policy_reaches_reset:
  assumes "Moving (ac_state a1)" and "\<not> AtRest (ac_state a1)"
  shows "StepSoftReset \<in> set (ladder DisconnectReset TriggerClientGone nothing_tried (a1 # a2 # a3 # as))"
proof -
  let ?held = "spend_tried StepFeedHold nothing_tried"
  have nonempty: "?held \<noteq> nothing_tried" "spend_tried StepSpindleStop ?held \<noteq> nothing_tried"
    by (simp_all add: spend_tried_def nothing_tried_def)
  have held: "td_feed_hold ?held" "\<not> td_soft_reset ?held" "\<not> td_spindle_stop ?held"
    by (simp_all add: spend_tried_def nothing_tried_def)
  have policy: "DisconnectReset \<noteq> DisconnectNone"
    by (simp add: DisconnectReset_def DisconnectNone_def)
  have first: "recommend DisconnectReset TriggerClientGone nothing_tried a1 = StepFeedHold"
    using assms policy by (simp add: recommend_def Decide_def situation_of_def nothing_tried_def)
  have second: "recommend DisconnectReset TriggerClientGone ?held a \<in> {StepSpindleStop, StepSoftReset}" for a
    using held nonempty policy by (cases "ac_beam a") (simp_all add: recommend_def Decide_def situation_of_def)
  have third: "recommend DisconnectReset TriggerClientGone (spend_tried StepSpindleStop ?held) a = StepSoftReset" for a
    using held nonempty policy
    by (cases "ac_beam a") (simp_all add: recommend_def Decide_def situation_of_def spend_tried_def)
  show ?thesis
    using second [of a2] third [of a3] by (auto simp: first Let_def commands_def)
qed

theorem reset_policy_reaches_reset_witness:
  "StepSoftReset \<in> set (ladder DisconnectReset TriggerClientGone nothing_tried
     [\<lparr>ac_state = StateRun, ac_beam = BeamOff, ac_laser_mode = SettingOn\<rparr>,
      \<lparr>ac_state = StateHold, ac_beam = BeamOn, ac_laser_mode = SettingOn\<rparr>,
      \<lparr>ac_state = StateHold, ac_beam = BeamOff, ac_laser_mode = SettingOn\<rparr>])"
  by (rule reset_policy_reaches_reset) simp_all

text \<open>
  The bridge never ends a job without cause. A soft reset is recommended only while the
  beam is known to be on, or when nothing is known and laser mode is off, or - and only then
  after waiting for the axes - because the client left under \<open>on_disconnect=reset\<close>. Waiting is
  never asked for while the beam is on.
\<close>

theorem soft_reset_needs_a_cause:
  assumes "de_step (Decide s) = StepSoftReset"
  shows "(\<not> de_wait_for_rest (Decide s) \<and> si_beam s = BeamOn)
    \<or> (\<not> de_wait_for_rest (Decide s) \<and> si_beam s = BeamUnknown \<and> si_laser_mode s = SettingOff)
    \<or> (de_wait_for_rest (Decide s) \<and> si_beam s \<noteq> BeamOn \<and> si_policy s = DisconnectReset
       \<and> si_trigger s = TriggerClientGone)"
  using assms by (cases "si_beam s") (simp_all add: Decide_def split: if_splits, auto)

theorem soft_reset_needs_a_cause_witness:
  "si_beam (situation_of DisconnectHold TriggerBeamStationary nothing_tried
     \<lparr>ac_state = StateIdle, ac_beam = BeamOn, ac_laser_mode = SettingOn\<rparr>) = BeamOn"
  using soft_reset_needs_a_cause [of "situation_of DisconnectHold TriggerBeamStationary nothing_tried
     \<lparr>ac_state = StateIdle, ac_beam = BeamOn, ac_laser_mode = SettingOn\<rparr>"]
  by (simp add: situation_of_def Decide_def DisconnectHold_def DisconnectNone_def nothing_tried_def)

text \<open>
  A job that stands in a feed hold or at an open door with the beam off is not ended when its
  client leaves, not even under \<open>on_disconnect=reset\<close>.
\<close>

lemma held_job_is_not_reset:
  "recommend DisconnectReset TriggerClientGone nothing_tried
     \<lparr>ac_state = StateHold, ac_beam = BeamOff, ac_laser_mode = mode\<rparr> = StepNone"
  by (simp add: recommend_def situation_of_def Decide_def)

end
