(* ===== verification/Line_Tail.thy ===== *)
theory Line_Tail
  imports Safety
begin

text \<open>
  \<open>lineTail\<close> of \<open>backend/internal/proxy/journal.go\<close>: what the client sent, so that GRBL's
  anonymous replies can be attributed to a line. The bytes that GRBL acts on at once are named
  here too, because the tail is the first component that looks for them.
\<close>

section \<open>Real-time bytes\<close>

definition feedHold :: byte where "feedHold = CHR ''!''"
definition statusReq :: byte where "statusReq = CHR ''?''"
definition softReset :: byte where "softReset = CHR 0x18"
definition resume :: byte where "resume = CHR ''~''"
definition jogCancel :: byte where "jogCancel = CHR 0x85"
definition spindleStop :: byte where "spindleStop = CHR 0x9E"

lemmas realtime_defs =
  feedHold_def statusReq_def softReset_def resume_def jogCancel_def spindleStop_def

definition skipped_realtime :: "byte \<Rightarrow> bool" where
  "skipped_realtime b \<longleftrightarrow> b = feedHold \<or> b = statusReq \<or> b = softReset \<or> b = CHR ''~''"

section \<open>State and operations\<close>

definition contextLines :: nat where "contextLines = 4"
definition maxPending :: nat where "maxPending = 4096"
definition maxContextLine :: nat where "maxContextLine = 256"

record line_tail =
  lt_lines :: "string list"
  lt_pending :: "string list"
  lt_desynced :: bool
  lt_partial :: string

definition newLineTail :: line_tail where
  "newLineTail = \<lparr>lt_lines = [], lt_pending = [], lt_desynced = False, lt_partial = []\<rparr>"

definition tail_Acknowledge :: "line_tail \<Rightarrow> line_tail \<times> string" where
  "tail_Acknowledge l =
     (case lt_pending l of
        [] \<Rightarrow> (l\<lparr>lt_desynced := True\<rparr>, [])
      | line # rest \<Rightarrow> (l\<lparr>lt_pending := rest\<rparr>, if lt_desynced l then [] else line))"

definition tail_Forget :: "line_tail \<Rightarrow> line_tail" where
  "tail_Forget l = l\<lparr>lt_pending := [], lt_desynced := False, lt_partial := []\<rparr>"

definition tail_keep :: "string \<Rightarrow> line_tail \<Rightarrow> line_tail" where
  \<comment> \<open>one line more in the context, the oldest one dropped beyond four\<close>
  "tail_keep text l =
     (let ls = lt_lines l @ [text]
      in l\<lparr>lt_lines := (if contextLines < length ls then tl ls else ls)\<rparr>)"

definition tail_expect :: "string \<Rightarrow> line_tail \<Rightarrow> line_tail" where
  \<comment> \<open>one line more waiting for its reply; overflow gives up on attribution\<close>
  "tail_expect text l =
     (let ps = lt_pending l @ [text]
      in if maxPending < length ps then l\<lparr>lt_pending := tl ps, lt_desynced := True\<rparr>
         else l\<lparr>lt_pending := ps\<rparr>)"

definition tail_byte :: "byte \<Rightarrow> line_tail \<Rightarrow> line_tail" where
  "tail_byte b l =
     (if is_line_end b then
        (let text = trim_space (lt_partial l);
             l1 = (if text \<noteq> [] then tail_expect text (tail_keep text l) else l)
         in l1\<lparr>lt_partial := []\<rparr>)
      else if skipped_realtime b then l
      else if length (lt_partial l) < maxContextLine then
        l\<lparr>lt_partial := lt_partial l @ [b]\<rparr>
      else l)"

definition tail_Write :: "string \<Rightarrow> line_tail \<Rightarrow> line_tail" where
  "tail_Write data l = fold tail_byte data l"

definition tail_Lines :: "line_tail \<Rightarrow> string list" where
  "tail_Lines l = lt_lines l"

section \<open>Reference: the lines a client sent\<close>

text \<open>
  What a client's bytes mean as lines, independently of how they are stored: real-time bytes
  are not part of any line, a line is cut at 256 bytes and trimmed, and a blank line is none.
\<close>

fun sent_lines :: "string \<Rightarrow> string \<Rightarrow> string list" where
  "sent_lines acc [] = []"
| "sent_lines acc (b # bs) =
     (if is_line_end b then
        (let text = trim_space (take maxContextLine acc)
         in (if text = [] then [] else [text]) @ sent_lines [] bs)
      else if skipped_realtime b then sent_lines acc bs
      else sent_lines (acc @ [b]) bs)"

fun sent_rest :: "string \<Rightarrow> string \<Rightarrow> string" where
  "sent_rest acc [] = acc"
| "sent_rest acc (b # bs) =
     (if is_line_end b then sent_rest [] bs
      else if skipped_realtime b then sent_rest acc bs
      else sent_rest (acc @ [b]) bs)"

lemma sent_lines_append:
  "sent_lines acc (xs @ ys) = sent_lines acc xs @ sent_lines (sent_rest acc xs) ys"
  by (induction xs arbitrary: acc) (simp_all add: Let_def)

lemma sent_rest_append: "sent_rest acc (xs @ ys) = sent_rest (sent_rest acc xs) ys"
  by (induction xs arbitrary: acc) simp_all

section \<open>The conversation\<close>

datatype talk = Sent string | Replied

text \<open>The tail after a conversation, and what \<open>Acknowledge\<close> said about each reply.\<close>

fun talk_through :: "talk list \<Rightarrow> line_tail \<Rightarrow> line_tail \<times> string list" where
  "talk_through [] l = (l, [])"
| "talk_through (Sent data # ts) l = talk_through ts (tail_Write data l)"
| "talk_through (Replied # ts) l =
     (let (l1, line) = tail_Acknowledge l; (l2, lines) = talk_through ts l1 in (l2, line # lines))"

fun said :: "talk list \<Rightarrow> string" where
  "said [] = []"
| "said (Sent data # ts) = data @ said ts"
| "said (Replied # ts) = said ts"

fun replies :: "talk list \<Rightarrow> nat" where
  "replies [] = 0"
| "replies (Sent data # ts) = replies ts"
| "replies (Replied # ts) = Suc (replies ts)"

section \<open>Context: the newest four lines\<close>

definition tail_small :: "line_tail \<Rightarrow> bool" where
  "tail_small l \<longleftrightarrow> length (lt_lines l) \<le> contextLines"

lemma tail_keep_lines:
  "tail_small l \<Longrightarrow> lt_lines (tail_keep t l) = last_n contextLines (lt_lines l @ [t])"
  using last_n_snoc_tl [of "lt_lines l" contextLines t]
  by (auto simp: tail_keep_def tail_small_def Let_def contextLines_def)

interpretation tail: bounded_log tail_keep lt_lines tail_small contextLines
proof
  show "0 < contextLines" by (simp add: contextLines_def)
  show "tail_small s \<Longrightarrow> tail_small (tail_keep e s)" for s e
    using tail_keep_lines [of s e] by (simp add: tail_small_def)
  show "tail_small s \<Longrightarrow> lt_lines (tail_keep e s) = last_n contextLines (lt_lines s @ [e])" for s e
    by (rule tail_keep_lines)
qed

lemma tail_expect_lines [simp]:
  "lt_lines (tail_expect t l) = lt_lines l" "lt_partial (tail_expect t l) = lt_partial l"
  by (simp_all add: tail_expect_def Let_def)

lemma tail_keep_simps [simp]:
  "lt_pending (tail_keep t l) = lt_pending l" "lt_desynced (tail_keep t l) = lt_desynced l"
  "lt_partial (tail_keep t l) = lt_partial l"
  by (simp_all add: tail_keep_def Let_def)

section \<open>A write adds exactly the lines it completes\<close>

definition tail_holds :: "string \<Rightarrow> line_tail \<Rightarrow> bool" where
  "tail_holds acc l \<longleftrightarrow> lt_partial l = take maxContextLine acc"

lemma tail_holds_new [simp]: "tail_holds [] newLineTail" "tail_holds [] (tail_Forget l)"
  by (simp_all add: tail_holds_def newLineTail_def tail_Forget_def)

lemma tail_byte_in_line:
  assumes "tail_holds acc l" and "\<not> is_line_end b" and "\<not> skipped_realtime b"
  shows "tail_holds (acc @ [b]) (tail_byte b l)"
    "lt_lines (tail_byte b l) = lt_lines l" "lt_pending (tail_byte b l) = lt_pending l"
    "lt_desynced (tail_byte b l) = lt_desynced l"
  using assms by (simp_all add: tail_holds_def tail_byte_def)

lemma tail_Write_Nil [simp]: "tail_Write [] l = l"
  by (simp add: tail_Write_def)

lemma tail_Write_Cons [simp]: "tail_Write (b # bs) l = tail_Write bs (tail_byte b l)"
  by (simp add: tail_Write_def)

lemma tail_Write_append: "tail_Write (xs @ ys) l = tail_Write ys (tail_Write xs l)"
  by (simp add: tail_Write_def)

text \<open>What a completed line does to the accounting, and nothing else does.\<close>

type_synonym tail_accounts = "string list \<times> string list \<times> bool"

definition tail_view :: "line_tail \<Rightarrow> tail_accounts" where
  "tail_view l = (lt_lines l, lt_pending l, lt_desynced l)"

definition take_line :: "string \<Rightarrow> tail_accounts \<Rightarrow> tail_accounts" where
  "take_line t v =
     (case v of (ls, ps, d) \<Rightarrow>
        (if contextLines < length (ls @ [t]) then tl (ls @ [t]) else ls @ [t],
         if maxPending < length (ps @ [t]) then tl (ps @ [t]) else ps @ [t],
         maxPending < length (ps @ [t]) \<or> d))"

lemma tail_view_simps [simp]:
  "fst (tail_view l) = lt_lines l" "fst (snd (tail_view l)) = lt_pending l"
  "snd (snd (tail_view l)) \<longleftrightarrow> lt_desynced l"
  by (simp_all add: tail_view_def)

lemma tail_view_line [simp]:
  "tail_view (tail_expect t (tail_keep t l)) = take_line t (tail_view l)"
  by (simp add: tail_view_def take_line_def tail_expect_def tail_keep_def Let_def)

lemma tail_view_partial [simp]: "tail_view (l\<lparr>lt_partial := p\<rparr>) = tail_view l"
  by (simp add: tail_view_def)

lemma tail_byte_end:
  assumes "tail_holds acc l" and "is_line_end b"
  shows "tail_holds [] (tail_byte b l)"
    and "tail_view (tail_byte b l) =
      (let text = trim_space (take maxContextLine acc)
       in if text = [] then tail_view l else take_line text (tail_view l))"
  using assms by (simp_all add: tail_byte_def tail_holds_def Let_def)

lemma tail_Write_refines:
  "tail_holds acc l \<Longrightarrow>
   tail_view (tail_Write data l) = fold take_line (sent_lines acc data) (tail_view l)
   \<and> tail_holds (sent_rest acc data) (tail_Write data l)"
proof (induction data arbitrary: acc l)
  case Nil
  then show ?case by simp
next
  case (Cons b bs)
  consider "is_line_end b" | "\<not> is_line_end b" "skipped_realtime b"
    | "\<not> is_line_end b" "\<not> skipped_realtime b" by blast
  then show ?case
  proof cases
    case 1
    from Cons.IH [OF tail_byte_end(1) [OF Cons.prems 1]] show ?thesis
      using 1 by (simp add: tail_byte_end(2) [OF Cons.prems 1] Let_def)
  next
    case 2
    then show ?thesis using Cons.IH [OF Cons.prems] by (simp add: tail_byte_def)
  next
    case 3
    have "tail_view (tail_byte b l) = tail_view l"
      using 3 by (simp add: tail_byte_def)
    then show ?thesis
      using Cons.IH [OF tail_byte_in_line(1) [OF Cons.prems 3]] 3 by simp
  qed
qed

section \<open>Attribution is exact as long as it is claimed\<close>

lemma fold_take_line_desynced: "snd (snd v) \<Longrightarrow> snd (snd (fold take_line ts v))"
  by (induction ts arbitrary: v) (simp_all add: take_line_def case_prod_beta)

lemma fold_take_line_pending:
  "\<not> snd (snd (fold take_line ts v)) \<Longrightarrow>
   fst (snd (fold take_line ts v)) = fst (snd v) @ ts \<and> \<not> snd (snd v)"
proof (induction ts arbitrary: v)
  case Nil
  then show ?case by simp
next
  case (Cons t ts)
  from Cons.prems Cons.IH [of "take_line t v"]
  show ?case by (auto simp: take_line_def split: prod.splits if_splits)
qed

lemma fold_take_line_lines:
  "length (fst v) \<le> contextLines \<Longrightarrow>
   fst (fold take_line ts v) = last_n contextLines (fst v @ ts)"
proof (induction ts arbitrary: v)
  case Nil
  then show ?case by simp
next
  case (Cons t ts)
  obtain ls ps d where v: "v = (ls, ps, d)" by (cases v)
  have first: "fst (take_line t v) = last_n contextLines (ls @ [t])"
    using Cons.prems v last_n_snoc_tl [of ls contextLines t]
    by (auto simp: take_line_def contextLines_def)
  from Cons.IH [of "take_line t v"] first show ?case
    using v last_n_append [of contextLines "ls @ [t]" ts] by simp
qed

lemma tail_Write_pending:
  assumes "tail_holds acc l" and "\<not> lt_desynced (tail_Write data l)"
  shows "lt_pending (tail_Write data l) = lt_pending l @ sent_lines acc data" and "\<not> lt_desynced l"
  using tail_Write_refines [OF assms(1), of data] assms(2)
    fold_take_line_pending [of "sent_lines acc data" "tail_view l"]
  by (metis tail_view_simps(2) tail_view_simps(3))+

lemma tail_Write_lines:
  assumes "tail_holds acc l" and "tail_small l"
  shows "lt_lines (tail_Write data l) = last_n contextLines (lt_lines l @ sent_lines acc data)"
  using tail_Write_refines [OF assms(1), of data] assms(2)
    fold_take_line_lines [of "tail_view l" "sent_lines acc data"]
  unfolding tail_small_def by (metis tail_view_simps(1))

lemma Acknowledge_simps:
  "lt_pending (fst (tail_Acknowledge l)) = tl (lt_pending l)"
  "lt_lines (fst (tail_Acknowledge l)) = lt_lines l"
  "lt_partial (fst (tail_Acknowledge l)) = lt_partial l"
  "lt_desynced (fst (tail_Acknowledge l)) \<longleftrightarrow> lt_desynced l \<or> lt_pending l = []"
  by (simp_all add: tail_Acknowledge_def split: list.splits)

lemma talk_Replied [simp]:
  "fst (talk_through (Replied # ts) l) = fst (talk_through ts (fst (tail_Acknowledge l)))"
  "snd (talk_through (Replied # ts) l) =
     snd (tail_Acknowledge l) # snd (talk_through ts (fst (tail_Acknowledge l)))"
  by (simp_all add: case_prod_beta)

lemma talk_desynced: "lt_desynced l \<Longrightarrow> lt_desynced (fst (talk_through ts l))"
proof (induction ts l rule: talk_through.induct)
  case (1 l)
  then show ?case by simp
next
  case (2 data ts l)
  have "lt_desynced (tail_byte b m)" if "lt_desynced m" for b m
    using that by (simp add: tail_byte_def tail_expect_def tail_keep_def Let_def)
  then have "lt_desynced (tail_Write data m)" if "lt_desynced m" for m
    using that by (induction data arbitrary: m) simp_all
  with 2 show ?case by simp
next
  case (3 ts l)
  then show ?case
    using Acknowledge_simps(4) [of l] by (simp del: talk_through.simps) (metis prod.collapse)
qed

lemma talk_exact:
  assumes "tail_holds acc l" and "\<not> lt_desynced (fst (talk_through ts l))"
  shows "snd (talk_through ts l) @ lt_pending (fst (talk_through ts l)) =
      lt_pending l @ sent_lines acc (said ts)
    \<and> length (snd (talk_through ts l)) = replies ts"
  using assms
proof (induction ts arbitrary: acc l)
  case Nil
  then show ?case by simp
next
  case (Cons t ts)
  show ?case
  proof (cases t)
    case (Sent data)
    from Cons.prems(2) Sent have "\<not> lt_desynced (tail_Write data l)"
      using talk_desynced by auto
    with Cons.prems Sent show ?thesis
      using Cons.IH [of "sent_rest acc data" "tail_Write data l"]
        tail_Write_refines [OF Cons.prems(1)] tail_Write_pending [OF Cons.prems(1)]
      by (simp add: sent_lines_append)
  next
    case Replied
    let ?l1 = "fst (tail_Acknowledge l)"
    from Cons.prems(2) Replied have ok: "\<not> lt_desynced (fst (talk_through ts ?l1))"
      by (simp del: talk_through.simps)
    then have "\<not> lt_desynced ?l1" using talk_desynced by blast
    then have l: "lt_pending l \<noteq> []" "\<not> lt_desynced l" by (simp_all add: Acknowledge_simps)
    have "tail_holds acc ?l1" using Cons.prems(1) by (simp add: tail_holds_def Acknowledge_simps)
    from Cons.IH [OF this ok] l Replied show ?thesis
      by (cases "lt_pending l")
        (simp_all add: tail_Acknowledge_def del: talk_through.simps)
  qed
qed

text \<open>
  The flag is raised only for a reason: a reply too many, or too many lines unanswered. A
  conversation that stays within both never raises it.
\<close>

definition in_step :: "nat \<Rightarrow> nat \<Rightarrow> bool" where
  "in_step lines answered \<longleftrightarrow> answered \<le> lines \<and> lines \<le> answered + maxPending"

definition keeps_step :: "talk list \<Rightarrow> bool" where
  "keeps_step ts \<longleftrightarrow>
     list_all (\<lambda>k. in_step (length (sent_lines [] (said (take k ts)))) (replies (take k ts)))
       [0 ..< Suc (length ts)]"

lemma keeps_step_at:
  "keeps_step ts \<Longrightarrow> k \<le> length ts \<Longrightarrow>
   in_step (length (sent_lines [] (said (take k ts)))) (replies (take k ts))"
  unfolding keeps_step_def list_all_iff set_upt by simp

lemma said_append [simp]: "said (xs @ ys) = said xs @ said ys"
  by (induction xs rule: said.induct) simp_all

lemma replies_append [simp]: "replies (xs @ ys) = replies xs + replies ys"
  by (induction xs rule: replies.induct) simp_all

lemma talk_append:
  "fst (talk_through (xs @ ys) l) = fst (talk_through ys (fst (talk_through xs l)))"
proof (induction xs arbitrary: l)
  case (Cons t xs)
  then show ?case by (cases t) (simp_all del: talk_through.simps(3))
qed simp

lemma fold_take_line_room:
  "length (fst (snd v)) + length ts \<le> maxPending \<Longrightarrow>
   snd (snd (fold take_line ts v)) \<longleftrightarrow> snd (snd v)"
  by (induction ts arbitrary: v) (simp_all add: take_line_def case_prod_beta)

lemma tail_Write_room:
  assumes "tail_holds acc l"
    and "length (lt_pending l) + length (sent_lines acc data) \<le> maxPending"
  shows "lt_desynced (tail_Write data l) \<longleftrightarrow> lt_desynced l"
  using tail_Write_refines [OF assms(1), of data] assms(2)
    fold_take_line_room [of "tail_view l" "sent_lines acc data"]
  by (metis tail_view_simps(2) tail_view_simps(3))

lemma talk_holds:
  "tail_holds acc l \<Longrightarrow> tail_holds (sent_rest acc (said ts)) (fst (talk_through ts l))"
proof (induction ts arbitrary: acc l)
  case Nil
  then show ?case by simp
next
  case (Cons t ts)
  show ?case
  proof (cases t)
    case (Sent data)
    then show ?thesis
      using Cons.IH [of "sent_rest acc data" "tail_Write data l"] tail_Write_refines [OF Cons.prems]
      by (simp add: sent_rest_append)
  next
    case Replied
    have "tail_holds acc (fst (tail_Acknowledge l))"
      using Cons.prems by (simp add: tail_holds_def Acknowledge_simps)
    from Cons.IH [OF this] Replied show ?thesis by (simp del: talk_through.simps)
  qed
qed

lemma talk_synced:
  assumes "tail_holds [] l" and "lt_pending l = []" and "\<not> lt_desynced l" and "keeps_step ts"
  shows "\<not> lt_desynced (fst (talk_through ts l))"
proof -
  have "\<not> lt_desynced (fst (talk_through (take k ts) l))" if "k \<le> length ts" for k
    using that
  proof (induction k)
    case 0
    then show ?case using assms by simp
  next
    case (Suc k)
    let ?xs = "take k ts" and ?m = "fst (talk_through (take k ts) l)"
    have ok: "\<not> lt_desynced ?m" using Suc by simp
    have count: "snd (talk_through ?xs l) @ lt_pending ?m = sent_lines [] (said ?xs)"
      "length (snd (talk_through ?xs l)) = replies ?xs"
      using talk_exact [OF assms(1) ok] assms(2) by simp_all
    from count have pending:
      "replies ?xs + length (lt_pending ?m) = length (sent_lines [] (said ?xs))"
      by (metis length_append)
    have step: "take (Suc k) ts = ?xs @ [ts ! k]" using Suc.prems by (simp add: take_Suc_conv_app_nth)
    have bound: "in_step (length (sent_lines [] (said (?xs @ [ts ! k])))) (replies (?xs @ [ts ! k]))"
      using keeps_step_at [OF assms(4) Suc.prems] step by simp
    show ?case
    proof (cases "ts ! k")
      case (Sent data)
      have "length (lt_pending ?m) + length (sent_lines (sent_rest [] (said ?xs)) data) \<le> maxPending"
        using bound pending Sent by (simp add: in_step_def sent_lines_append)
      from tail_Write_room [OF talk_holds [OF assms(1)] this] ok show ?thesis
        using Sent by (simp add: step talk_append)
    next
      case Replied
      have "lt_pending ?m \<noteq> []" using bound pending Replied by (auto simp: in_step_def)
      with ok Replied show ?thesis
        by (simp add: step talk_append Acknowledge_simps del: talk_through.simps(3))
    qed
  qed
  from this [of "length ts"] show ?thesis by simp
qed

section \<open>What the tail promises\<close>

text \<open>
  C34: whatever a client sends and however the controller answers, as long as the tail still
  claims to be in step at the end, the line it named for every reply was the right one: the
  n-th reply got the n-th line the client completed since the accounting began.
\<close>

theorem attribution_is_exact:
  assumes "\<not> lt_desynced (fst (talk_through ts (tail_Forget l)))"
  shows "snd (talk_through ts (tail_Forget l)) = take (replies ts) (sent_lines [] (said ts))"
proof -
  let ?r = "talk_through ts (tail_Forget l)"
  have "snd ?r @ lt_pending (fst ?r) = sent_lines [] (said ts)" and "length (snd ?r) = replies ts"
    using talk_exact [OF tail_holds_new(2) assms] by (simp_all add: tail_Forget_def)
  then show ?thesis by (metis append_eq_conv_conj)
qed

theorem attribution_is_exact_witness:
  "snd (talk_through [Sent ''G1 X1!'', Sent (CHR 0x0A # ''M5'' @ [CHR 0x0D, CHR 0x0A]), Replied, Replied]
          (tail_Forget newLineTail)) = [''G1 X1'', ''M5'']"
proof -
  let ?ts = "[Sent ''G1 X1!'', Sent (CHR 0x0A # ''M5'' @ [CHR 0x0D, CHR 0x0A]), Replied, Replied]"
  have "\<not> lt_desynced (fst (talk_through ?ts (tail_Forget newLineTail)))" by code_simp
  from attribution_is_exact [OF this] show ?thesis
    by (rule trans) code_simp
qed

text \<open>
  A controller that answers each line once, in order, and never has more than 4096 lines
  to answer for keeps the tail in step, so every one of its replies is attributed, and to the
  right line.
\<close>

theorem attribution_is_kept:
  assumes "keeps_step ts"
  shows "\<not> lt_desynced (fst (talk_through ts (tail_Forget l)))
    \<and> snd (talk_through ts (tail_Forget l)) = take (replies ts) (sent_lines [] (said ts))"
proof -
  let ?r = "talk_through ts (tail_Forget l)"
  have sync: "\<not> lt_desynced (fst ?r)"
    using talk_synced [OF tail_holds_new(2) _ _ assms, of l] by (simp add: tail_Forget_def)
  then have "snd ?r @ lt_pending (fst ?r) = sent_lines [] (said ts)" and "length (snd ?r) = replies ts"
    using talk_exact [OF tail_holds_new(2)] by (simp_all add: tail_Forget_def)
  with sync show ?thesis by (metis append_eq_conv_conj)
qed

theorem attribution_is_kept_witness:
  "keeps_step [Sent (''G1'' @ [CHR 0x0A]), Replied]
   \<and> snd (talk_through [Sent (''G1'' @ [CHR 0x0A]), Replied] (tail_Forget newLineTail)) = [''G1'']"
proof -
  have step: "keeps_step [Sent (''G1'' @ [CHR 0x0A]), Replied]" by code_simp
  have "take (replies [Sent (''G1'' @ [CHR 0x0A]), Replied])
      (sent_lines [] (said [Sent (''G1'' @ [CHR 0x0A]), Replied])) = [''G1'']" by code_simp
  with attribution_is_kept [OF step, of newLineTail] step show ?thesis by simp
qed

end
