(* ===== verification/Journal.thy ===== *)
theory Journal
  imports Line_Tail
begin

text \<open>
  \<open>Journal\<close> of \<open>backend/internal/proxy/journal.go\<close>: the ring of recent events in memory, the
  queue towards the goroutine that writes the notable ones to disk, and the collapsing of
  repeats. The file itself is in theory \<open>Journal_File\<close>. A
  nil channel is \<open>None\<close>; a queued event is taken by the writer in batches.
\<close>

section \<open>State\<close>

record event =
  ev_unix :: int
  ev_kind :: string
  ev_text :: string
  ev_code :: int
  ev_state :: machine_state
  ev_position :: "position option"
  ev_context :: "string list"
  ev_line :: string
  ev_repeats :: int
  ev_uptime :: int

definition blank_event :: event where
  "blank_event =
     \<lparr>ev_unix = 0, ev_kind = [], ev_text = [], ev_code = 0, ev_state = [], ev_position = None,
      ev_context = [], ev_line = [], ev_repeats = 0, ev_uptime = 0\<rparr>"

definition journalDepth :: nat where "journalDepth = 200"
definition journalQueue :: nat where "journalQueue = 256"

record journal =
  jr_ring :: "event list"
  jr_first :: nat
  jr_count :: nat
  jr_writes :: "event list option"
  jr_dropped :: int

definition NewJournal :: "string \<Rightarrow> journal" where
  \<comment> \<open>without the events of earlier runs that \<open>load\<close> reads back\<close>
  "NewJournal path =
     \<lparr>jr_ring = replicate journalDepth blank_event, jr_first = 0, jr_count = 0,
      jr_writes = (if path \<noteq> [] then Some [] else None), jr_dropped = 0\<rparr>"

section \<open>Operations\<close>

definition push :: "event \<Rightarrow> journal \<Rightarrow> journal" where
  "push e j =
     (let n = length (jr_ring j); index = (jr_first j + jr_count j) mod n;
          j1 = j\<lparr>jr_ring := (jr_ring j)[index := e]\<rparr>
      in if jr_count j < n then j1\<lparr>jr_count := jr_count j + 1\<rparr>
         else j1\<lparr>jr_first := (jr_first j + 1) mod n\<rparr>)"

definition Recent :: "int \<Rightarrow> journal \<Rightarrow> event list" where
  "Recent limit j =
     (let k = (if limit \<le> 0 \<or> int (jr_count j) < limit then jr_count j else nat limit)
      in map (\<lambda>i. jr_ring j ! ((jr_first j + i) mod length (jr_ring j))) [jr_count j - k ..< jr_count j])"

definition worthKeeping :: "string \<Rightarrow> bool" where
  "worthKeeping kind \<longleftrightarrow>
     kind \<in> set [''alarm'', ''error'', ''reset'', ''intervention'', ''device'', ''fault'']"

definition stamp :: "instant \<Rightarrow> int \<Rightarrow> event \<Rightarrow> event" where
  "stamp now uptime e =
     (let e1 = (if ev_unix e = 0 then e\<lparr>ev_unix := unix now\<rparr> else e)
      in if ev_uptime e1 = 0 then e1\<lparr>ev_uptime := uptime\<rparr> else e1)"

definition journal_Add :: "instant \<Rightarrow> int \<Rightarrow> event \<Rightarrow> journal \<Rightarrow> journal" where
  "journal_Add now uptime e0 j =
     (let e = stamp now uptime e0; j1 = push e j
      in case jr_writes j1 of
           None \<Rightarrow> j1
         | Some q \<Rightarrow>
             if \<not> worthKeeping (ev_kind e) then j1
             else if length q < journalQueue then j1\<lparr>jr_writes := Some (q @ [e])\<rparr>
             else j1\<lparr>jr_dropped := jr_dropped j1 + 1\<rparr>)"

definition sameEvent :: "event \<Rightarrow> event \<Rightarrow> bool" where
  "sameEvent a b \<longleftrightarrow>
     ev_kind a = ev_kind b \<and> ev_text a = ev_text b \<and> ev_code a = ev_code b \<and> ev_line a = ev_line b"

definition collapse_step :: "event list \<Rightarrow> event \<Rightarrow> event list" where
  "collapse_step out e =
     (if out \<noteq> [] \<and> sameEvent (last out) e then
        butlast out @ [(last out)\<lparr>ev_repeats := ev_repeats (last out) + 1\<rparr>]
      else out @ [e])"

definition collapse :: "event list \<Rightarrow> event list" where
  "collapse batch = foldl collapse_step [] batch"

text \<open>One turn of \<open>writeLoop\<close>: everything queued leaves as one batch for the disk.\<close>

definition write_turn :: "journal \<Rightarrow> journal \<times> event list" where
  "write_turn j =
     (case jr_writes j of
        None \<Rightarrow> (j, [])
      | Some q \<Rightarrow> (j\<lparr>jr_writes := Some []\<rparr>, collapse q))"

section \<open>The ring keeps the newest two hundred\<close>

definition ring_ok :: "journal \<Rightarrow> bool" where
  "ring_ok j \<longleftrightarrow>
     length (jr_ring j) = journalDepth \<and> jr_first j < journalDepth \<and> jr_count j \<le> journalDepth
     \<and> (jr_count j < journalDepth \<longrightarrow> jr_first j = 0)"

definition ring_view :: "journal \<Rightarrow> event list" where
  "ring_view j = Recent 0 j"

lemma ring_view_unfold:
  "ring_view j = map (\<lambda>i. jr_ring j ! ((jr_first j + i) mod length (jr_ring j))) [0 ..< jr_count j]"
  by (simp add: ring_view_def Recent_def)

lemma length_ring_view [simp]: "length (ring_view j) = jr_count j"
  by (simp add: ring_view_unfold)

lemma ring_ok_new [simp]: "ring_ok (NewJournal path)" "ring_view (NewJournal path) = []"
  by (simp_all add: ring_ok_def NewJournal_def journalDepth_def ring_view_unfold)

lemma ring_ok_push: "ring_ok j \<Longrightarrow> ring_ok (push e j)"
  by (auto simp: ring_ok_def push_def Let_def journalDepth_def)

lemma round_trip_index:
  assumes "f < n" and "i < (n::nat)"
  shows "(f + i) mod n = (if f + i < n then f + i else f + i - n)"
  using assms by (simp add: mod_if)

lemma push_room:
  assumes "ring_ok j" and "jr_count j < journalDepth"
  shows "ring_view (push e j) = ring_view j @ [e]"
proof -
  have "jr_first j = 0" "length (jr_ring j) = journalDepth" using assms by (simp_all add: ring_ok_def)
  then show ?thesis
    using assms(2) by (simp add: push_def ring_view_unfold Let_def)
qed

lemma push_full:
  assumes "ring_ok j" and "jr_count j = journalDepth"
  shows "ring_view (push e j) = tl (ring_view j) @ [e]"
proof (rule nth_equalityI)
  have n: "length (jr_ring j) = journalDepth" "jr_first j < journalDepth" "0 < journalDepth"
    using assms by (simp_all add: ring_ok_def journalDepth_def)
  show "length (ring_view (push e j)) = length (tl (ring_view j) @ [e])"
    using assms(2) n by (simp add: push_def Let_def)
  fix i
  assume "i < length (ring_view (push e j))"
  then have i: "i < journalDepth" using assms(2) n by (simp add: push_def Let_def)
  have push: "jr_ring (push e j) = (jr_ring j)[jr_first j := e]"
    "jr_first (push e j) = (jr_first j + 1) mod journalDepth" "jr_count (push e j) = journalDepth"
    using assms(2) n by (simp_all add: push_def Let_def)
  have at: "ring_view (push e j) ! i = (jr_ring j)[jr_first j := e] ! ((jr_first j + Suc i) mod journalDepth)"
    using i n push by (simp add: ring_view_unfold mod_simps)
  show "ring_view (push e j) ! i = (tl (ring_view j) @ [e]) ! i"
  proof (cases "Suc i < journalDepth")
    case True
    have "(jr_first j + Suc i) mod journalDepth \<noteq> jr_first j"
      using round_trip_index [of "jr_first j" journalDepth "Suc i"] n True by (simp split: if_splits)
    with at have "ring_view (push e j) ! i = jr_ring j ! ((jr_first j + Suc i) mod journalDepth)"
      by simp
    then show ?thesis
      using True assms(2) n by (simp add: nth_append nth_tl ring_view_unfold)
  next
    case False
    with i have "Suc i = journalDepth" by simp
    then have "(jr_first j + Suc i) mod journalDepth = jr_first j" and "i = journalDepth - 1"
      using n by simp_all
    with at show ?thesis using n assms(2) by (simp add: nth_append)
  qed
qed

lemma ring_view_push:
  assumes "ring_ok j"
  shows "ring_view (push e j) = last_n journalDepth (ring_view j @ [e])"
proof (cases "jr_count j < journalDepth")
  case True
  then show ?thesis using push_room [OF assms] by simp
next
  case False
  with assms have "jr_count j = journalDepth" by (simp add: ring_ok_def)
  with push_full [OF assms this] show ?thesis
    by (simp add: last_n_snoc_full journalDepth_def)
qed

interpretation ring: bounded_log push ring_view ring_ok journalDepth
  by standard (simp_all add: journalDepth_def [unfolded One_nat_def] ring_ok_push ring_view_push)

lemma Recent_last_n:
  "Recent limit j =
     last_n (if limit \<le> 0 \<or> int (jr_count j) < limit then jr_count j else nat limit) (ring_view j)"
  by (auto simp: Recent_def Let_def last_n_def ring_view_unfold drop_map drop_upt)

section \<open>Adding events\<close>

lemma ring_push_only:
  "jr_writes (push e j) = jr_writes j" "jr_dropped (push e j) = jr_dropped j"
  by (simp_all add: push_def Let_def)

lemma ring_view_cong:
  "jr_ring j = jr_ring j' \<Longrightarrow> jr_first j = jr_first j' \<Longrightarrow> jr_count j = jr_count j' \<Longrightarrow>
   ring_view j = ring_view j' \<and> ring_ok j = ring_ok j'"
  by (simp add: ring_view_unfold ring_ok_def)

lemma journal_Add_ring:
  "ring_view (journal_Add now up e j) = ring_view (push (stamp now up e) j)"
  "ring_ok (journal_Add now up e j) = ring_ok (push (stamp now up e) j)"
proof -
  have "jr_ring (journal_Add now up e j) = jr_ring (push (stamp now up e) j)"
    "jr_first (journal_Add now up e j) = jr_first (push (stamp now up e) j)"
    "jr_count (journal_Add now up e j) = jr_count (push (stamp now up e) j)"
    by (simp_all add: journal_Add_def Let_def split: option.splits)
  from ring_view_cong [OF this]
  show "ring_view (journal_Add now up e j) = ring_view (push (stamp now up e) j)"
    and "ring_ok (journal_Add now up e j) = ring_ok (push (stamp now up e) j)" by simp_all
qed

fun add_all :: "(instant \<times> int \<times> event) list \<Rightarrow> journal \<Rightarrow> journal" where
  "add_all [] j = j"
| "add_all ((now, up, e) # es) j = add_all es (journal_Add now up e j)"

definition stamped :: "(instant \<times> int \<times> event) list \<Rightarrow> event list" where
  "stamped es = map (\<lambda>(now, up, e). stamp now up e) es"

lemma add_all_ring:
  "ring_ok j \<Longrightarrow>
   ring_view (add_all es j) = last_n journalDepth (ring_view j @ stamped es) \<and> ring_ok (add_all es j)"
proof (induction es arbitrary: j)
  case Nil
  then show ?case by (simp add: stamped_def ring_ok_def)
next
  case (Cons x es)
  obtain now up e where x: "x = (now, up, e)" by (cases x)
  let ?j = "journal_Add now up e j"
  have "ring_ok ?j" using Cons.prems ring.good_push by (simp add: journal_Add_ring)
  from Cons.IH [OF this] show ?case
    using Cons.prems x last_n_append [of journalDepth "ring_view j @ [stamp now up e]" "stamped es"]
    by (simp add: journal_Add_ring ring_view_push stamped_def)
qed

definition kept_on_disk :: "event list \<Rightarrow> event list" where
  "kept_on_disk es = filter (\<lambda>e. worthKeeping (ev_kind e)) es"

lemma journal_Add_queue:
  "jr_writes j = Some q \<Longrightarrow>
   jr_writes (journal_Add now up e j) =
     Some (if worthKeeping (ev_kind (stamp now up e)) \<and> length q < journalQueue
           then q @ [stamp now up e] else q)
   \<and> jr_dropped (journal_Add now up e j) =
     jr_dropped j + (if worthKeeping (ev_kind (stamp now up e)) \<and> journalQueue \<le> length q then 1 else 0)"
  by (simp add: journal_Add_def Let_def ring_push_only)

lemma add_all_queue:
  assumes "jr_writes j = Some q" and "length q \<le> journalQueue"
  shows "jr_writes (add_all es j) = Some (take journalQueue (q @ kept_on_disk (stamped es)))
    \<and> jr_dropped (add_all es j) =
      jr_dropped j + int (length (q @ kept_on_disk (stamped es)) - journalQueue)"
  using assms
proof (induction es arbitrary: j q)
  case Nil
  then show ?case by (simp add: stamped_def kept_on_disk_def)
next
  case (Cons x es)
  obtain now up e where x: "x = (now, up, e)" by (cases x)
  let ?s = "stamp now up e" and ?j = "journal_Add now up e j"
  note add = journal_Add_queue [OF Cons.prems(1), of now up e]
  consider "\<not> worthKeeping (ev_kind ?s)" | "worthKeeping (ev_kind ?s)" "length q < journalQueue"
    | "worthKeeping (ev_kind ?s)" "length q = journalQueue"
    using Cons.prems(2) by linarith
  then show ?case
  proof cases
    case 1
    with add Cons.IH [of ?j q] Cons.prems(2) x show ?thesis
      by (simp add: stamped_def kept_on_disk_def)
  next
    case 2
    with add Cons.IH [of ?j "q @ [?s]"] x show ?thesis
      by (simp add: stamped_def kept_on_disk_def)
  next
    case 3
    with add Cons.IH [of ?j q] x show ?thesis
      by (simp add: stamped_def kept_on_disk_def)
  qed
qed

section \<open>Collapsing loses no event\<close>

definition essence :: "event \<Rightarrow> string \<times> string \<times> int \<times> string" where
  "essence e = (ev_kind e, ev_text e, ev_code e, ev_line e)"

lemma sameEvent_essence: "sameEvent a b \<longleftrightarrow> essence a = essence b"
  by (simp add: sameEvent_def essence_def)

definition told :: "event list \<Rightarrow> (string \<times> string \<times> int \<times> string) list" where
  \<comment> \<open>every event as often as it is said to have happened\<close>
  "told es = concat (map (\<lambda>e. replicate (nat (1 + ev_repeats e)) (essence e)) es)"

definition no_adjacent :: "event list \<Rightarrow> bool" where
  "no_adjacent es \<longleftrightarrow> (\<forall>i. Suc i < length es \<longrightarrow> essence (es ! i) \<noteq> essence (es ! Suc i))"

lemma told_append [simp]: "told (xs @ ys) = told xs @ told ys"
  by (simp add: told_def)

lemma told_Cons [simp]: "told (e # es) = replicate (nat (1 + ev_repeats e)) (essence e) @ told es"
  by (simp add: told_def)

lemma told_Nil [simp]: "told [] = []"
  by (simp add: told_def)

lemma collapse_step_told:
  assumes "\<forall>x \<in> set out. 0 \<le> ev_repeats x" and "ev_repeats e = 0"
  shows "told (collapse_step out e) = told out @ [essence e]
    \<and> (\<forall>x \<in> set (collapse_step out e). 0 \<le> ev_repeats x)"
proof (cases "out \<noteq> [] \<and> sameEvent (last out) e")
  case True
  then obtain xs x where out: "out = xs @ [x]" by (metis append_butlast_last_id)
  with True assms have same: "essence x = essence e" "0 \<le> ev_repeats x" by (auto simp: sameEvent_essence)
  have "nat (2 + ev_repeats x) = Suc (nat (1 + ev_repeats x))" using same by simp
  moreover have "essence (x\<lparr>ev_repeats := ev_repeats x + 1\<rparr>) = essence x" by (simp add: essence_def)
  ultimately show ?thesis
    using True out same assms
    by (simp add: collapse_step_def replicate_append_same [symmetric] add.commute)
next
  case False
  then show ?thesis using assms by (auto simp: collapse_step_def)
qed

lemma collapse_step_adjacent: "no_adjacent out \<Longrightarrow> no_adjacent (collapse_step out e)"
proof (cases "out \<noteq> [] \<and> sameEvent (last out) e")
  case True
  assume adj: "no_adjacent out"
  from True obtain xs x where out: "out = xs @ [x]" by (metis append_butlast_last_id)
  have "map essence (collapse_step out e) = map essence out"
    using True out by (simp add: collapse_step_def essence_def)
  with adj show ?thesis
    unfolding no_adjacent_def by (metis Suc_lessD length_map nth_map)
next
  case False
  assume adj: "no_adjacent out"
  have "essence (out ! i) \<noteq> essence e" if "Suc i = length out" for i
    using False that by (cases out rule: rev_cases) (auto simp: sameEvent_essence)
  with False adj show ?thesis
    by (auto simp: collapse_step_def no_adjacent_def nth_append)
qed

lemma collapse_loop:
  "\<forall>x \<in> set out. 0 \<le> ev_repeats x \<Longrightarrow> no_adjacent out \<Longrightarrow> \<forall>e \<in> set batch. ev_repeats e = 0 \<Longrightarrow>
   told (foldl collapse_step out batch) = told out @ map essence batch
   \<and> no_adjacent (foldl collapse_step out batch)"
proof (induction batch arbitrary: out)
  case Nil
  then show ?case by simp
next
  case (Cons e es)
  then show ?case
    using Cons.IH [of "collapse_step out e"] collapse_step_told [of out e]
      collapse_step_adjacent [of out e] by simp
qed

lemma collapse_told:
  "\<forall>e \<in> set batch. ev_repeats e = 0 \<Longrightarrow>
   told (collapse batch) = map essence batch \<and> no_adjacent (collapse batch)"
  using collapse_loop [of "[]" batch] by (simp add: collapse_def no_adjacent_def)

section \<open>What the journal promises\<close>

text \<open>
  A journal hands out exactly the newest of the events it was given, oldest first and
  each stamped with its time: as many as were asked for, and two hundred at most.
\<close>

theorem journal_keeps_the_newest:
  "Recent limit (add_all es (NewJournal path)) =
     last_n (if limit \<le> 0 then journalDepth else min (nat limit) journalDepth) (stamped es)"
proof -
  let ?j = "add_all es (NewJournal path)"
  have view: "ring_view ?j = last_n journalDepth (stamped es)"
    using add_all_ring [OF ring_ok_new(1), of es path] by simp
  then have count: "jr_count ?j = min journalDepth (length (stamped es))"
    by (metis length_last_n length_ring_view)
  show ?thesis
    unfolding Recent_last_n view count
    by (auto simp: last_n_def min_def add.commute)
qed

text \<open>
  Collapsing a batch for the disk loses no event: read with its repeat counts, the result
  tells the same sequence of events as the batch, and no two neighbours in it are the same.
\<close>

theorem collapse_tells_every_event:
  assumes "\<forall>e \<in> set batch. ev_repeats e = 0"
  shows "told (collapse batch) = map essence batch \<and> no_adjacent (collapse batch)"
  using assms by (rule collapse_told)

theorem collapse_tells_every_event_witness:
  "told (collapse [blank_event, blank_event, blank_event\<lparr>ev_code := 9\<rparr>]) =
     [([], [], 0, []), ([], [], 0, []), ([], [], 9, [])]"
  using collapse_tells_every_event [of "[blank_event, blank_event, blank_event\<lparr>ev_code := 9\<rparr>]"]
  by (simp add: blank_event_def essence_def)

text \<open>
  Between two turns of the writer, the events worth keeping wait for the disk in order;
  what does not fit into the queue of 256 is counted as dropped, and nothing else is.
\<close>

theorem disk_queue_accounts:
  assumes "path \<noteq> []"
  shows "jr_writes (add_all es (NewJournal path)) = Some (take journalQueue (kept_on_disk (stamped es)))
    \<and> jr_dropped (add_all es (NewJournal path)) = int (length (kept_on_disk (stamped es)) - journalQueue)"
  using add_all_queue [of "NewJournal path" "[]" es] assms by (simp add: NewJournal_def)

theorem disk_queue_accounts_witness:
  "jr_writes (add_all [(0, 1, blank_event\<lparr>ev_kind := ''alarm''\<rparr>), (0, 1, blank_event\<lparr>ev_kind := ''client''\<rparr>)]
       (NewJournal ''j'')) = Some [stamp 0 1 (blank_event\<lparr>ev_kind := ''alarm''\<rparr>)]"
  using disk_queue_accounts [of "''j''" "[(0, 1, blank_event\<lparr>ev_kind := ''alarm''\<rparr>),
      (0, 1, blank_event\<lparr>ev_kind := ''client''\<rparr>)]"]
  by (simp add: stamped_def stamp_def Let_def kept_on_disk_def worthKeeping_def blank_event_def
      journalQueue_def unix_def)

end
