(* ===== verification/Console.thy ===== *)
theory Console
  imports Journal "HOL-Library.Word"
begin

unbundle bit_operations_syntax

text \<open>
  \<open>backend/internal/proxy/console.go\<close>: the transcript kept for the web interface while
  somebody is looking at it. Sequence numbers are 64 bit words, as in the code; the lease that
  keeps the recording on is an instance of \<open>renewable_lease\<close>, the ring of \<open>bounded_log\<close>.
\<close>

section \<open>State and operations\<close>

record console_line =
  cl_seq :: "64 word"
  cl_mark :: string
  cl_text :: string
  cl_unix :: int

record console_view =
  cv_lines :: "console_line list"
  cv_next :: "64 word"
  cv_missed :: "64 word"
  cv_recording :: bool

definition consoleRing :: nat where "consoleRing = 400"
definition consoleLease :: duration where "consoleLease = 15 * second"

record console =
  co_lines :: "console_line list"
  co_first :: "64 word"
  co_next :: "64 word"
  co_until :: go_time

definition newConsole :: console where
  "newConsole = \<lparr>co_lines = [], co_first = 1, co_next = 1, co_until = None\<rparr>"

definition rune_string :: "byte \<Rightarrow> string" where
  \<comment> \<open>\<open>string(rune(b))\<close>: one byte below \<open>0x80\<close>, two in UTF-8 from there on\<close>
  "rune_string b =
     (let n = of_char b :: nat
      in if n < 128 then [b] else [char_of (192 + n div 64), char_of (128 + n mod 64)])"

definition console_recording :: "console \<Rightarrow> instant \<Rightarrow> bool" where
  "console_recording c now \<longleftrightarrow> (case co_until c of None \<Rightarrow> False | Some t \<Rightarrow> now < t)"

definition console_add :: "byte \<Rightarrow> string \<Rightarrow> instant \<Rightarrow> console \<Rightarrow> console" where
  "console_add mark text now c =
     (let c1 = (if length (co_lines c) = consoleRing then
                  c\<lparr>co_lines := tl (co_lines c), co_first := co_first c + 1\<rparr>
                else c)
      in c1\<lparr>co_lines := co_lines c1 @
               [\<lparr>cl_seq = co_next c1, cl_mark = rune_string mark, cl_text = text,
                 cl_unix = unix now\<rparr>],
            co_next := co_next c1 + 1\<rparr>)"

definition console_since :: "64 word \<Rightarrow> instant \<Rightarrow> console \<Rightarrow> console_view \<times> console" where
  "console_since after now c =
     (\<lparr>cv_lines = filter (\<lambda>l. after < cl_seq l) (co_lines c),
       cv_next = co_next c - 1,
       cv_missed = (if 0 < after \<and> after + 1 < co_first c then co_first c - after - 1 else 0),
       cv_recording = console_recording c now\<rparr>,
      c\<lparr>co_until := Some (now + consoleLease)\<rparr>)"

definition console_stop :: "console \<Rightarrow> console" where
  "console_stop c = c\<lparr>co_until := None\<rparr>"

section \<open>The ring\<close>

definition console_small :: "console \<Rightarrow> bool" where
  "console_small c \<longleftrightarrow> length (co_lines c) \<le> consoleRing"

definition console_text :: "console \<Rightarrow> (string \<times> string \<times> int) list" where
  "console_text c = map (\<lambda>l. (cl_mark l, cl_text l, cl_unix l)) (co_lines c)"

definition add_spoken :: "string \<times> string \<times> int \<Rightarrow> console \<Rightarrow> console" where
  "add_spoken x c =
     (case x of (mark, text, t) \<Rightarrow>
        (let c1 = (if length (co_lines c) = consoleRing then
                     c\<lparr>co_lines := tl (co_lines c), co_first := co_first c + 1\<rparr> else c)
         in c1\<lparr>co_lines := co_lines c1 @
                  [\<lparr>cl_seq = co_next c1, cl_mark = mark, cl_text = text, cl_unix = t\<rparr>],
               co_next := co_next c1 + 1\<rparr>))"

lemma console_add_spoken: "console_add mark text now = add_spoken (rune_string mark, text, unix now)"
  by (simp add: fun_eq_iff console_add_def add_spoken_def)

lemma add_spoken_text:
  assumes "console_small c"
  shows "console_text (add_spoken x c) = last_n consoleRing (console_text c @ [x])"
proof (cases "length (co_lines c) = consoleRing")
  case True
  obtain m w t where x: "x = (m, w, t)" by (cases x)
  have "length (console_text c) = consoleRing" using True by (simp add: console_text_def)
  then have "last_n consoleRing (console_text c @ [x]) = tl (console_text c) @ [x]"
    by (rule last_n_snoc_full) (simp add: consoleRing_def)
  with True x show ?thesis by (simp add: add_spoken_def console_text_def map_tl Let_def)
next
  case False
  with assms have "Suc (length (console_text c)) \<le> consoleRing"
    by (simp add: console_text_def console_small_def)
  with False show ?thesis
    by (cases x) (simp add: add_spoken_def console_text_def Let_def)
qed

lemma add_spoken_small: "console_small c \<Longrightarrow> console_small (add_spoken x c)"
  by (cases x) (auto simp: add_spoken_def console_small_def Let_def consoleRing_def)

interpretation transcript: bounded_log add_spoken console_text console_small consoleRing
  by standard (simp_all add: consoleRing_def [unfolded One_nat_def] add_spoken_text add_spoken_small)

section \<open>The lease\<close>

lemma recording_since:
  "console_recording (snd (console_since after now c)) t \<longleftrightarrow> t < now + consoleLease"
  by (simp add: console_since_def console_recording_def)

interpretation recording: renewable_lease
    "\<lambda>_ _. True" "\<lambda>now c. snd (console_since after now c)" console_recording consoleLease
  for after
  by standard (simp_all add: consoleLease_def recording_since)

section \<open>Sequence numbers\<close>

text \<open>
  As long as fewer than \<open>2 ^ 64\<close> lines were ever added, the numbers in the ring are the
  consecutive ones from \<open>first\<close> to just below \<open>next\<close>.
\<close>

definition console_ok :: "console \<Rightarrow> bool" where
  "console_ok c \<longleftrightarrow>
     map (unat \<circ> cl_seq) (co_lines c) = [unat (co_first c) ..< unat (co_next c)]
     \<and> 1 \<le> unat (co_first c) \<and> unat (co_first c) \<le> unat (co_next c) \<and> console_small c"

lemma console_ok_new [simp]: "console_ok newConsole"
  by (simp add: console_ok_def newConsole_def console_small_def)

lemma unat_Suc_no_wrap: "unat (x :: 64 word) < 2 ^ 64 - 1 \<Longrightarrow> unat (x + 1) = Suc (unat x)"
  by (simp add: unat_word_ariths)

lemma console_ok_length:
  "console_ok c \<Longrightarrow> length (co_lines c) = unat (co_next c) - unat (co_first c)"
  unfolding console_ok_def by (metis length_map length_upt)

lemma console_ok_add:
  assumes ok: "console_ok c" and room: "unat (co_next c) < 2 ^ 64 - 1"
  shows "console_ok (console_add mark text now c)"
proof (cases "length (co_lines c) = consoleRing")
  case True
  have len: "unat (co_next c) - unat (co_first c) = consoleRing"
    using console_ok_length [OF ok] True by simp
  then have lt: "unat (co_first c) < unat (co_next c)" by (simp add: consoleRing_def)
  with room have first: "unat (co_first c + 1) = Suc (unat (co_first c))"
    by (intro unat_Suc_no_wrap) simp
  have "map (unat \<circ> cl_seq) (tl (co_lines c)) = [Suc (unat (co_first c)) ..< unat (co_next c)]"
    using ok lt by (cases "co_lines c") (auto simp: console_ok_def upt_rec [of "unat (co_first c)"])
  with ok True lt first room show ?thesis
    by (simp add: console_ok_def console_add_def console_small_def Let_def unat_Suc_no_wrap comp_def
        consoleRing_def)
next
  case False
  with ok room show ?thesis
    by (simp add: console_ok_def console_add_def console_small_def Let_def unat_Suc_no_wrap comp_def)
qed

lemma console_ok_since [simp]: "console_ok (snd (console_since after now c)) \<longleftrightarrow> console_ok c"
  by (simp add: console_ok_def console_since_def console_small_def)

lemma console_ok_stop [simp]: "console_ok (console_stop c) \<longleftrightarrow> console_ok c"
  by (simp add: console_ok_def console_stop_def console_small_def)

lemma filter_after_upt: "length (filter (\<lambda>i. a < i) [b..<d]) = d - max b (Suc a)"
proof -
  have "{i. i < length [b..<d] \<and> a < [b..<d] ! i} = {max b (Suc a) - b ..< d - b}"
    by auto
  then show ?thesis by (simp add: length_filter_conv_card)
qed

lemma since_length:
  assumes ok: "console_ok c"
  shows "length (cv_lines (fst (console_since after now c))) =
    unat (co_next c) - max (unat (co_first c)) (Suc (unat after))"
proof -
  have "length (cv_lines (fst (console_since after now c))) =
      length (filter (\<lambda>i. unat after < i) (map (unat \<circ> cl_seq) (co_lines c)))"
    by (simp add: console_since_def filter_map comp_def word_less_nat_alt)
  also have "\<dots> = unat (co_next c) - max (unat (co_first c)) (Suc (unat after))"
    using ok by (simp add: console_ok_def filter_after_upt)
  finally show ?thesis .
qed

lemma since_missed:
  assumes ok: "console_ok c" and after: "0 < after" "after < co_next c"
  shows "unat (cv_missed (fst (console_since after now c))) = unat (co_first c) - Suc (unat after)"
proof -
  have nxt: "unat after < unat (co_next c)" using after by (simp add: word_less_nat_alt)
  have "unat (co_next c) < 2 ^ 64" by (rule order_less_le_trans [OF unsigned_less]) simp
  with nxt have plus: "unat (after + 1) = Suc (unat after)" by (intro unat_Suc_no_wrap) simp
  show ?thesis
  proof (cases "after + 1 < co_first c")
    case True
    then have "unat (co_first c - after - 1) = unat (co_first c) - unat (after + 1)"
      by (metis diff_diff_eq unat_sub word_less_def order_less_imp_le)
    with True plus after show ?thesis by (simp add: console_since_def)
  next
    case False
    with plus show ?thesis by (simp add: console_since_def word_less_nat_alt)
  qed
qed

section \<open>What the console promises\<close>

definition console_said :: "(byte \<times> string \<times> instant) list \<Rightarrow> console" where
  "console_said es = fold (\<lambda>(mark, w, now). console_add mark w now) es newConsole"

lemma console_said_snoc:
  "console_said (es @ [(mark, w, now)]) = console_add mark w now (console_said es)"
  by (simp add: console_said_def)

lemma console_said_ok:
  "length es < 2 ^ 64 - 1 \<Longrightarrow>
   console_ok (console_said es) \<and> unat (co_next (console_said es)) = Suc (length es)"
proof (induction es rule: rev_induct)
  case Nil
  show ?case by (simp add: console_said_def) (simp add: newConsole_def)
next
  case (snoc x xs)
  obtain mark w now where x: "x = (mark, w, now)" by (cases x)
  let ?c = "console_said xs"
  have c: "console_ok ?c" "unat (co_next ?c) = Suc (length xs)" using snoc by simp_all
  then have room: "unat (co_next ?c) < 2 ^ 64 - 1" using snoc.prems by simp
  have "co_next (console_add mark w now ?c) = co_next ?c + 1"
    by (simp add: console_add_def Let_def)
  with unat_Suc_no_wrap [OF room] console_ok_add [OF c(1) room] c(2) show ?case
    by (simp add: x console_said_snoc)
qed

lemma console_said_text:
  "map cl_text (co_lines (console_said es)) = last_n consoleRing (map (fst \<circ> snd) es)"
proof -
  let ?f = "\<lambda>(mark, w, now). (rune_string mark, w, unix now)"
  have "fold (\<lambda>(mark, w, now). console_add mark w now) es c = transcript.push_all (map ?f es) c" for c
    by (induction es arbitrary: c) (auto simp: transcript.push_all_def console_add_spoken)
  then have "console_said es = transcript.push_all (map ?f es) newConsole"
    by (simp add: console_said_def)
  moreover have "console_small newConsole" "console_text newConsole = []"
    by (simp_all add: console_small_def newConsole_def console_text_def)
  ultimately have "console_text (console_said es) = last_n consoleRing (map ?f es)"
    using transcript.view_push_all [of newConsole "map ?f es"] by simp
  then have "map (fst \<circ> snd) (console_text (console_said es)) =
      last_n consoleRing (map (fst \<circ> snd) (map ?f es))"
    by (simp add: last_n_def drop_map)
  then show ?thesis by (simp add: console_text_def comp_def case_prod_beta)
qed

lemma filter_above:
  "map f xs = [a..<b] \<Longrightarrow> filter (\<lambda>x. k < f x) xs = drop (Suc k - a) xs"
proof (induction xs arbitrary: a)
  case Nil
  then show ?case by simp
next
  case (Cons x xs)
  then have "a < b" "f x = a" "map f xs = [Suc a..<b]"
    by (cases "a < b"; auto simp: upt_conv_Cons)+
  with Cons.IH show ?case
    by (cases "k < a") (simp_all add: Suc_diff_le)
qed

text \<open>
  A reader who comes back for what it has not seen gets exactly the newest of the lines
  after the number it names, and is told how many in between are gone: seen, missed and
  returned lines add up to everything that was ever said. (As long as fewer than \<open>2 ^ 64 - 1\<close>
  lines were.)
\<close>

theorem console_accounts_for_every_line:
  fixes after :: "64 word" and now :: instant
  assumes "length es < 2 ^ 64 - 1" and "0 < after" and "after < co_next (console_said es)"
  defines "v \<equiv> fst (console_since after now (console_said es))"
  shows "map cl_text (cv_lines v) = drop (unat after + unat (cv_missed v)) (map (fst \<circ> snd) es)
    \<and> unat after + unat (cv_missed v) + length (cv_lines v) = length es"
proof -
  let ?c = "console_said es"
  have ok: "console_ok ?c" and nxt: "unat (co_next ?c) = Suc (length es)"
    using console_said_ok [OF assms(1)] by simp_all
  have seqs: "map (unat \<circ> cl_seq) (co_lines ?c) = [unat (co_first ?c) ..< Suc (length es)]"
    and first: "unat (co_first ?c) \<le> Suc (length es)"
    using ok nxt by (simp_all add: console_ok_def)
  have "length (co_lines ?c) = length (map cl_text (co_lines ?c))" by simp
  also have "\<dots> = min consoleRing (length es)" unfolding console_said_text by simp
  finally have size: "Suc (length es) - unat (co_first ?c) = min consoleRing (length es)"
    using console_ok_length [OF ok] nxt by simp
  have after: "unat after < Suc (length es)" using assms(3) nxt by (simp add: word_less_nat_alt)
  have missed: "unat (cv_missed v) = unat (co_first ?c) - Suc (unat after)"
    unfolding v_def by (rule since_missed [OF ok assms(2,3)])
  have "cv_lines v = filter (\<lambda>l. unat after < (unat \<circ> cl_seq) l) (co_lines ?c)"
    by (simp add: v_def console_since_def word_less_nat_alt)
  also have "\<dots> = drop (Suc (unat after) - unat (co_first ?c)) (co_lines ?c)"
    by (rule filter_above [OF seqs])
  finally have "map cl_text (cv_lines v) =
      drop (Suc (unat after) - unat (co_first ?c)) (last_n consoleRing (map (fst \<circ> snd) es))"
    by (simp add: drop_map [symmetric] console_said_text)
  also have "\<dots> = drop (unat after + unat (cv_missed v)) (map (fst \<circ> snd) es)"
    using size first after unfolding missed last_n_def drop_drop
    by (intro arg_cong [where f = "\<lambda>k. drop k (map (fst \<circ> snd) es)"]) (simp add: min_def split: if_splits)
  finally have lines: "map cl_text (cv_lines v) = drop (unat after + unat (cv_missed v)) (map (fst \<circ> snd) es)" .
  have "length (cv_lines v) = length es - (unat after + unat (cv_missed v))"
    using arg_cong [OF lines, of length] by simp
  moreover have "unat after + unat (cv_missed v) \<le> length es"
    using size first after unfolding missed by (simp add: min_def consoleRing_def split: if_splits)
  ultimately show ?thesis using lines by simp
qed

theorem console_accounts_for_every_line_witness:
  "map cl_text (cv_lines (fst (console_since 1 0
     (console_said [(CHR ''>'', ''G1'', 0), (CHR ''<'', ''ok'', 0), (CHR ''>'', ''M5'', 0)])))) = [''ok'', ''M5'']"
proof -
  let ?es = "[(CHR ''>'', ''G1'', 0), (CHR ''<'', ''ok'', 0), (CHR ''>'', ''M5'', 0)]"
  have next3: "co_next (console_said ?es) = 4" by code_simp
  have missed: "cv_missed (fst (console_since 1 0 (console_said ?es))) = 0" by code_simp
  from console_accounts_for_every_line [of ?es 1 0] show ?thesis
    by (simp add: next3 missed)
qed

text \<open>
  The number after the last 64 bit one wraps to zero, and a reader that names that number is
  told of a gap that does not exist.
\<close>

lemma console_gap_out_of_nothing:
  "cv_missed (fst (console_since (- 1) now newConsole)) = 1"
  by (simp add: console_since_def newConsole_def word_greater_zero_iff)

end
