(* ===== verification/Monitor.thy ===== *)
theory Monitor
  imports Console
begin

text \<open>
  \<open>backend/internal/proxy/monitor.go\<close>: the transcript of the traffic, assembled into lines for
  the watchers of the monitor port and for the console's ring. A watcher is a number; which
  watchers fail to take a write is a parameter of \<open>monitors_send\<close>. Listening and accepting
  are not modelled.
\<close>

record monitors =
  mo_subs :: "nat list"
  mo_towards :: string
  mo_from :: string

definition newMonitors :: monitors where
  "newMonitors = \<lparr>mo_subs = [], mo_towards = [], mo_from = []\<rparr>"

definition monitors_add :: "nat \<Rightarrow> monitors \<Rightarrow> monitors" where
  "monitors_add conn m = m\<lparr>mo_subs := List.insert conn (mo_subs m)\<rparr>"

definition monitors_remove :: "nat \<Rightarrow> monitors \<Rightarrow> monitors" where
  "monitors_remove conn m = m\<lparr>mo_subs := removeAll conn (mo_subs m)\<rparr>"

definition monitors_count :: "monitors \<Rightarrow> nat" where
  "monitors_count m = length (mo_subs m)"

definition monitors_closeAll :: "monitors \<Rightarrow> monitors" where
  "monitors_closeAll m = m\<lparr>mo_subs := []\<rparr>"

definition realtimeName :: "byte \<Rightarrow> string" where
  "realtimeName b =
     (if b = feedHold then ''! (feed hold)''
      else if b = statusReq then ''? (status)''
      else if b = softReset then ''0x18 (soft reset)''
      else ''~ (resume)'')"

definition appendMarked :: "string \<Rightarrow> byte \<Rightarrow> string \<Rightarrow> string" where
  "appendMarked out mark w = out @ [mark, CHR '' ''] @ w @ [CHR 0x0A]"

type_synonym marked = "byte \<times> string"

definition finish_line :: "byte \<Rightarrow> string \<Rightarrow> marked list" where
  "finish_line mark partial = (if partial \<noteq> [] then [(mark, partial)] else [])"

text \<open>The byte loop of \<open>send\<close>: the lines it completes and what is left unfinished.\<close>

fun transcribe :: "byte \<Rightarrow> string \<Rightarrow> string \<Rightarrow> marked list \<times> string" where
  "transcribe mark partial [] = ([], partial)"
| "transcribe mark partial (b # bs) =
     (if is_line_end b then
        (let (ls, p) = transcribe mark [] bs in (finish_line mark partial @ ls, p))
      else if skipped_realtime b then
        (let (ls, p) = transcribe mark [] bs
         in (finish_line mark partial @ (mark, realtimeName b) # ls, p))
      else
        transcribe mark (if length partial < maxContextLine then partial @ [b] else partial) bs)"

definition ellipsis :: string where
  \<comment> \<open>a space and U+2026 in UTF-8\<close>
  "ellipsis = [CHR '' '', CHR 0xE2, CHR 0x80, CHR 0xA6]"

definition interrupt_line :: "byte \<Rightarrow> string \<Rightarrow> marked list" where
  "interrupt_line mark other = (if other \<noteq> [] then [(mark, other @ ellipsis)] else [])"

definition marked_bytes :: "marked list \<Rightarrow> string" where
  "marked_bytes ls = fold (\<lambda>(mark, w) out. appendMarked out mark w) ls []"

record sent =
  se_monitors :: monitors
  se_console :: console
  se_written :: "(nat \<times> string) list"

definition monitors_send ::
    "(nat \<Rightarrow> bool) \<Rightarrow> instant \<Rightarrow> byte \<Rightarrow> string \<Rightarrow> monitors \<Rightarrow> console \<Rightarrow> sent" where
  "monitors_send fails now mark data m co =
     (let recording = console_recording co now
      in if mo_subs m = [] \<and> \<not> recording then
           \<lparr>se_monitors = m\<lparr>mo_towards := [], mo_from := []\<rparr>, se_console = co, se_written = []\<rparr>
         else
           (let from_machine = (mark = CHR ''<'');
                partial = (if from_machine then mo_from m else mo_towards m);
                other = (if from_machine then mo_towards m else mo_from m);
                other_mark = (if from_machine then CHR ''>'' else CHR ''<'');
                (ls, rest) = transcribe mark partial data;
                kept = interrupt_line other_mark other @ ls;
                out = marked_bytes kept;
                m1 = (if from_machine then m\<lparr>mo_from := rest, mo_towards := []\<rparr>
                      else m\<lparr>mo_towards := rest, mo_from := []\<rparr>);
                co1 = (if recording then fold (\<lambda>(k, w). console_add k w now) kept co else co)
            in if out = [] then \<lparr>se_monitors = m1, se_console = co1, se_written = []\<rparr>
               else \<lparr>se_monitors = m1\<lparr>mo_subs := filter (\<lambda>c. \<not> fails c) (mo_subs m1)\<rparr>,
                     se_console = co1,
                     se_written = map (\<lambda>c. (c, out)) (filter (\<lambda>c. \<not> fails c) (mo_subs m1))\<rparr>))"

section \<open>Chunks do not matter to the transcript\<close>

lemma transcribe_append:
  "transcribe mark partial (xs @ ys) =
     (fst (transcribe mark partial xs)
        @ fst (transcribe mark (snd (transcribe mark partial xs)) ys),
      snd (transcribe mark (snd (transcribe mark partial xs)) ys))"
  by (induction mark partial xs rule: transcribe.induct) (auto simp: case_prod_beta Let_def)

lemma marked_bytes_append: "marked_bytes (xs @ ys) = marked_bytes xs @ marked_bytes ys"
proof -
  have "fold (\<lambda>(mark, w) out. appendMarked out mark w) ls out =
      out @ fold (\<lambda>(mark, w) out. appendMarked out mark w) ls []" for ls out
  proof (induction ls arbitrary: out)
    case Nil
    then show ?case by simp
  next
    case (Cons l ls)
    show ?case
      using Cons [of "appendMarked out (fst l) (snd l)"] Cons [of "appendMarked [] (fst l) (snd l)"]
      by (simp add: case_prod_beta) (simp add: appendMarked_def)
  qed
  from this [of ys "marked_bytes xs"] show ?thesis by (simp add: marked_bytes_def)
qed

lemma marked_bytes_Nil_iff: "marked_bytes ls = [] \<longleftrightarrow> ls = []"
proof (cases ls)
  case (Cons l ls')
  have "marked_bytes ls = marked_bytes [l] @ marked_bytes ls'"
    using Cons marked_bytes_append [of "[l]" ls'] by simp
  moreover have "marked_bytes [l] \<noteq> []" by (cases l) (simp add: marked_bytes_def appendMarked_def)
  ultimately show ?thesis using Cons by simp
qed (simp add: marked_bytes_def)

section \<open>Bounds\<close>

lemma transcribe_bound:
  "length partial \<le> maxContextLine \<Longrightarrow> length (snd (transcribe mark partial bs)) \<le> maxContextLine"
  by (induction mark partial bs rule: transcribe.induct)
    (auto simp: case_prod_beta Let_def maxContextLine_def)

text \<open>What was sent, read off the transcript: nothing in it was made up.\<close>

definition monitors_small :: "monitors \<Rightarrow> bool" where
  "monitors_small m \<longleftrightarrow>
     length (mo_towards m) \<le> maxContextLine \<and> length (mo_from m) \<le> maxContextLine"

lemma monitors_send_small:
  "monitors_small m \<Longrightarrow> monitors_small (se_monitors (monitors_send fails now mark data m co))"
  using transcribe_bound [of "mo_from m" mark data] transcribe_bound [of "mo_towards m" mark data]
  by (auto simp: monitors_small_def monitors_send_def Let_def case_prod_beta)

section \<open>What the transcript promises\<close>

definition watcher_bytes :: "nat \<Rightarrow> (nat \<times> string) list \<Rightarrow> string" where
  "watcher_bytes c ws = concat (map snd (filter (\<lambda>w. fst w = c) ws))"

lemma watcher_bytes_all:
  "distinct cs \<Longrightarrow> watcher_bytes c (map (\<lambda>x. (x, out)) cs) = (if c \<in> set cs then out else [])"
proof (induction cs)
  case Nil
  then show ?case by (simp add: watcher_bytes_def)
next
  case (Cons x xs)
  then show ?case by (auto simp: watcher_bytes_def filter_map comp_def filter_empty_conv)
qed

lemma recording_add [simp]: "console_recording (console_add k w now c) t = console_recording c t"
  by (simp add: console_recording_def console_add_def Let_def)

lemma recording_fold [simp]:
  "console_recording (fold (\<lambda>(k, w). console_add k w now) ls c) t = console_recording c t"
proof (induction ls arbitrary: c)
  case (Cons l ls)
  then show ?case by (cases l) simp
qed simp

text \<open>What one \<open>send\<close> transcribes, and everything it does, when somebody is watching.\<close>

definition send_lines :: "byte \<Rightarrow> string \<Rightarrow> monitors \<Rightarrow> marked list" where
  "send_lines mark data m =
     (if mark = CHR ''<'' then
        interrupt_line (CHR ''>'') (mo_towards m) @ fst (transcribe mark (mo_from m) data)
      else interrupt_line (CHR ''<'') (mo_from m) @ fst (transcribe mark (mo_towards m) data))"

definition send_buffers :: "byte \<Rightarrow> string \<Rightarrow> monitors \<Rightarrow> monitors" where
  "send_buffers mark data m =
     (if mark = CHR ''<'' then
        m\<lparr>mo_from := snd (transcribe mark (mo_from m) data), mo_towards := []\<rparr>
      else m\<lparr>mo_towards := snd (transcribe mark (mo_towards m) data), mo_from := []\<rparr>)"

lemma monitors_send_watched:
  assumes "mo_subs m \<noteq> [] \<or> console_recording co now"
  shows "monitors_send (\<lambda>_. False) now mark data m co =
    \<lparr>se_monitors = send_buffers mark data m,
     se_console = (if console_recording co now
                   then fold (\<lambda>(k, w). console_add k w now) (send_lines mark data m) co else co),
     se_written = (if marked_bytes (send_lines mark data m) = [] then []
                   else map (\<lambda>c. (c, marked_bytes (send_lines mark data m))) (mo_subs m))\<rparr>"
  using assms
  by (cases "mo_subs m = []"; cases "console_recording co now")
    (simp_all add: monitors_send_def Let_def case_prod_beta send_buffers_def send_lines_def)

lemma send_lines_append:
  "send_lines mark (xs @ ys) m = send_lines mark xs m @ send_lines mark ys (send_buffers mark xs m)"
  "send_buffers mark (xs @ ys) m = send_buffers mark ys (send_buffers mark xs m)"
  "mo_subs (send_buffers mark xs m) = mo_subs m"
  by (simp_all add: send_lines_def send_buffers_def transcribe_append interrupt_line_def)

text \<open>
  C39: the transcript is made of the conversation, not of its packets: sending a piece of one
  party's stream in two parts leaves the same unfinished lines, the same record in the console
  and the same bytes at every watcher as sending it at once.
\<close>

theorem transcript_ignores_chunks:
  fixes m :: monitors and co :: console and now :: instant and mark :: byte and xs ys :: string
  assumes "distinct (mo_subs m)"
  defines "one \<equiv> monitors_send (\<lambda>_. False) now mark xs m co"
  defines "two \<equiv> monitors_send (\<lambda>_. False) now mark ys (se_monitors one) (se_console one)"
  defines "all \<equiv> monitors_send (\<lambda>_. False) now mark (xs @ ys) m co"
  shows "se_monitors two = se_monitors all \<and> se_console two = se_console all
    \<and> watcher_bytes c (se_written one @ se_written two) = watcher_bytes c (se_written all)"
proof (cases "mo_subs m = [] \<and> \<not> console_recording co now")
  case True
  then show ?thesis by (simp add: one_def two_def all_def monitors_send_def)
next
  case False
  then have watched: "mo_subs m \<noteq> [] \<or> console_recording co now" by blast
  have one: "se_monitors one = send_buffers mark xs m"
      "console_recording (se_console one) now = console_recording co now"
    unfolding one_def monitors_send_watched [OF watched] by simp_all
  then have "mo_subs (se_monitors one) \<noteq> [] \<or> console_recording (se_console one) now"
    using watched by (simp add: send_lines_append)
  then have two: "two =
    \<lparr>se_monitors = send_buffers mark ys (se_monitors one),
     se_console = (if console_recording (se_console one) now
                   then fold (\<lambda>(k, w). console_add k w now) (send_lines mark ys (se_monitors one)) (se_console one)
                   else se_console one),
     se_written = (if marked_bytes (send_lines mark ys (se_monitors one)) = [] then []
                   else map (\<lambda>c. (c, marked_bytes (send_lines mark ys (se_monitors one)))) (mo_subs (se_monitors one)))\<rparr>"
    unfolding two_def by (rule monitors_send_watched)
  have bytes: "watcher_bytes c (x @ y) = watcher_bytes c x @ watcher_bytes c y"
      "watcher_bytes c [] = []" for x y
    by (simp_all add: watcher_bytes_def)
  have written: "watcher_bytes c (if out = [] then [] else map (\<lambda>c. (c, out)) (mo_subs m)) =
      (if c \<in> set (mo_subs m) then out else [])" for out
    using watcher_bytes_all [OF assms(1), of c out] by (simp add: bytes)
  have console: "se_console one =
      (if console_recording co now then fold (\<lambda>(k, w). console_add k w now) (send_lines mark xs m) co else co)"
    and wrote: "se_written one = (if marked_bytes (send_lines mark xs m) = [] then []
                   else map (\<lambda>c. (c, marked_bytes (send_lines mark xs m))) (mo_subs m))"
    unfolding one_def monitors_send_watched [OF watched] by simp_all
  have "se_monitors two = se_monitors all" "se_console two = se_console all"
    unfolding two all_def monitors_send_watched [OF watched] one console
    by (simp_all add: send_lines_append)
  moreover have "watcher_bytes c (se_written one @ se_written two) = watcher_bytes c (se_written all)"
    unfolding two all_def monitors_send_watched [OF watched] wrote one
    by (simp only: sent.simps bytes written send_lines_append marked_bytes_append) simp
  ultimately show ?thesis by blast
qed

theorem transcript_ignores_chunks_witness:
  "watcher_bytes 7 (se_written (monitors_send (\<lambda>_. False) 0 (CHR ''<'') (''o'' @ ''k'' @ [CHR 0x0A])
     (newMonitors\<lparr>mo_subs := [7]\<rparr>) newConsole)) = ''< ok'' @ [CHR 0x0A]"
proof -
  let ?m = "newMonitors\<lparr>mo_subs := [7]\<rparr>"
  let ?one = "monitors_send (\<lambda>_. False) 0 (CHR ''<'') ''o'' ?m newConsole"
  have "distinct (mo_subs ?m)" by simp
  note chunks = transcript_ignores_chunks [OF this, where co = newConsole and now = 0 and mark = "CHR ''<''"
      and xs = "''o''" and ys = "''k'' @ [CHR 0x0A]" and c = 7]
  have "watcher_bytes 7 (se_written ?one @ se_written (monitors_send (\<lambda>_. False) 0 (CHR ''<'')
      (''k'' @ [CHR 0x0A]) (se_monitors ?one) (se_console ?one))) = ''< ok'' @ [CHR 0x0A]"
    by code_simp
  with chunks show ?thesis by simp
qed

text \<open>
  A real-time byte of the bridge's own beyond the four that the transcript knows is taken for
  the beginning of a line, and what interrupts it is then marked as the client's.
\<close>

lemma own_byte_marked_as_the_clients:
  assumes "mo_subs m = [c]" and "mo_towards m = []" and "mo_from m = []" and "\<not> console_recording co now"
  shows "se_written (monitors_send (\<lambda>_. False) now (CHR ''<'') [CHR 0x0A]
      (se_monitors (monitors_send (\<lambda>_. False) now (CHR ''*'') [jogCancel] m co)) co) =
    [(c, [CHR ''>'', CHR '' '', jogCancel] @ ellipsis @ [CHR 0x0A])]"
  using assms
  by (simp add: monitors_send_def Let_def jogCancel_def is_line_end_def skipped_realtime_def
      realtime_defs maxContextLine_def interrupt_line_def finish_line_def marked_bytes_def appendMarked_def)

end
