(* ===== verification/GoTime.thy ===== *)
theory GoTime
  imports GoLib
begin

text \<open>
  What the program uses of package \<open>time\<close> beyond comparing instants: the text form of a
  duration and rounding to a multiple.
\<close>

definition zero_pad :: "nat \<Rightarrow> string \<Rightarrow> string" where
  "zero_pad n s = replicate (n - length s) (CHR ''0'') @ s"

definition trim_zeros :: "string \<Rightarrow> string" where
  "trim_zeros s = rev (dropWhile (\<lambda>c. c = CHR ''0'') (rev s))"

text \<open>The fraction \<open>v mod 10 ^ prec\<close> after the point, without trailing zeros.\<close>

definition fmt_frac :: "int \<Rightarrow> nat \<Rightarrow> string" where
  "fmt_frac v prec =
     (let f = v mod 10 ^ prec
      in if f = 0 then [] else CHR ''.'' # trim_zeros (zero_pad prec (dec f)))"

definition fmt_unit :: "int \<Rightarrow> nat \<Rightarrow> string \<Rightarrow> string" where
  "fmt_unit v prec name = dec (v div 10 ^ prec) @ fmt_frac v prec @ name"

definition duration_magnitude :: "int \<Rightarrow> string" where
  "duration_magnitude u =
     (if u = 0 then ''0s''
      else if u < 1000 then fmt_unit u 0 ''ns''
      else if u < 1000000 then fmt_unit u 3 [CHR 0xC2, CHR 0xB5, CHR ''s'']
      else if u < 1000000000 then fmt_unit u 6 ''ms''
      else
        (let s = u div 1000000000; frac = fmt_frac u 9; m = s div 60; h = m div 60;
             secs = dec (s mod 60) @ frac @ ''s''
         in if m = 0 then secs
            else if h = 0 then dec m @ ''m'' @ secs
            else dec h @ ''h'' @ dec (m mod 60) @ ''m'' @ secs))"

definition duration_string :: "duration \<Rightarrow> string" where
  "duration_string d =
     (if d < 0 then CHR ''-'' # duration_magnitude (- d) else duration_magnitude d)"

text \<open>\<open>Duration.Round\<close>: to the nearest multiple, halves away from zero.\<close>

definition duration_round :: "duration \<Rightarrow> duration \<Rightarrow> duration" where
  "duration_round d m =
     (if m \<le> 0 then d
      else
        (let a = \<bar>d\<bar>; r = a mod m; q = (if 2 * r < m then a - r else a - r + m)
         in if d < 0 then - q else q))"

lemma duration_round_near: "0 < m \<Longrightarrow> 2 * \<bar>duration_round d m - d\<bar> \<le> m"
proof -
  assume m: "0 < m"
  define r where "r = \<bar>d\<bar> mod m"
  have r: "0 \<le> r" "r < m" using m by (simp_all add: r_def)
  have "duration_round d m =
      (let q = (if 2 * r < m then \<bar>d\<bar> - r else \<bar>d\<bar> - r + m) in if d < 0 then - q else q)"
    using m by (simp only: duration_round_def r_def Let_def) simp
  then show ?thesis using r by (simp add: Let_def abs_if)
qed

lemma duration_round_multiple: "0 < m \<Longrightarrow> m dvd duration_round d m"
  by (simp add: duration_round_def Let_def minus_mod_eq_mult_div dvd_add)

lemma duration_samples:
  "duration_string 0 = ''0s''" "duration_string 20000000000 = ''20s''"
  "duration_string 3600000000000 = ''1h0m0s''" "duration_string 1500000000 = ''1.5s''"
  "duration_string (- 90050000000) = ''-1m30.05s''" "duration_string 2500000 = ''2.5ms''"
  by code_simp+

end
