(* ===== verification/Job.thy ===== *)
theory Job
  imports Grbl_Observer GoTime "HOL-Library.Word"
begin

text \<open>
  \<open>backend/internal/proxy/job.go\<close>: the appliance's notion of the work in front of the machine.
  The client's counters of lines and bytes are 64 bit words whose differences wrap as in the
  code; the wall clock and the uptime clock are parameters of \<open>job_observe\<close>.
\<close>

section \<open>State\<close>

record job =
  jb_running :: bool
  jb_started_unix :: int
  jb_started_uptime :: int
  jb_ended_unix :: int
  jb_ended :: string
  jb_seconds :: int
  jb_lines :: "64 word"
  jb_bytes :: "64 word"
  jb_start :: position
  jb_last :: position

definition blank_job :: job where
  "blank_job =
     \<lparr>jb_running = False, jb_started_unix = 0, jb_started_uptime = 0, jb_ended_unix = 0,
      jb_ended = [], jb_seconds = 0, jb_lines = 0, jb_bytes = 0, jb_start = no_position,
      jb_last = no_position\<rparr>"

definition jobQuiet :: duration where "jobQuiet = 15 * second"

record job_tracker =
  jt_job :: job
  jt_rest :: go_time
  jt_start_lines :: "64 word"
  jt_start_bytes :: "64 word"

definition newJobTracker :: job_tracker where
  \<comment> \<open>the zero value\<close>
  "newJobTracker =
     \<lparr>jt_job = blank_job, jt_rest = None, jt_start_lines = 0, jt_start_bytes = 0\<rparr>"

section \<open>Operations\<close>

definition job_endLocked :: "string \<Rightarrow> instant \<Rightarrow> job_tracker \<Rightarrow> job_tracker \<times> string" where
  "job_endLocked reason now t =
     (if \<not> jb_running (jt_job t) then (t, [])
      else
        (t\<lparr>jt_job := (jt_job t)\<lparr>jb_running := False, jb_ended := reason, jb_ended_unix := unix now\<rparr>,
           jt_rest := None\<rparr>,
         ''job '' @ reason @ '' after '' @ duration_string (jb_seconds (jt_job t) * second)
           @ '' and '' @ dec (uint (jb_lines (jt_job t))) @ '' lines''))"

definition job_end :: "string \<Rightarrow> instant \<Rightarrow> job_tracker \<Rightarrow> job_tracker \<times> string" where
  "job_end reason now t = job_endLocked reason now t"

definition job_current :: "job_tracker \<Rightarrow> job" where
  "job_current t = jt_job t"

record sighting =
  sg_machine :: machine
  sg_client :: bool
  sg_lines :: "64 word"
  sg_bytes :: "64 word"
  sg_now :: instant
  sg_uptime :: int

text \<open>The parameters of \<open>observe\<close>, as one reading.\<close>

definition job_begin :: "sighting \<Rightarrow> job_tracker \<Rightarrow> job_tracker" where
  "job_begin g t =
     t\<lparr>jt_job := blank_job\<lparr>jb_running := True, jb_started_unix := unix (sg_now g),
                           jb_started_uptime := sg_uptime g,
                           jb_start := mc_position (sg_machine g),
                           jb_last := mc_position (sg_machine g)\<rparr>,
       jt_start_lines := sg_lines g, jt_start_bytes := sg_bytes g, jt_rest := None\<rparr>"

definition job_count :: "sighting \<Rightarrow> job_tracker \<Rightarrow> job_tracker" where
  "job_count g t =
     t\<lparr>jt_job := (jt_job t)\<lparr>jb_last := mc_position (sg_machine g),
                            jb_lines := sg_lines g - jt_start_lines t,
                            jb_bytes := sg_bytes g - jt_start_bytes t,
                            jb_seconds := sg_uptime g - jb_started_uptime (jt_job t)\<rparr>\<rparr>"

definition job_observe :: "sighting \<Rightarrow> job_tracker \<Rightarrow> job_tracker \<times> string" where
  "job_observe g t =
     (let moving = Moving (mc_state (sg_machine g))
      in if \<not> jb_running (jt_job t) then
           (if \<not> moving \<or> \<not> sg_client g then (t, []) else (job_begin g t, []))
         else
           (let t1 = job_count g t
            in if moving then (t1\<lparr>jt_rest := None\<rparr>, [])
               else case jt_rest t1 of
                      None \<Rightarrow> (t1\<lparr>jt_rest := Some (sg_now g)\<rparr>, [])
                    | Some since \<Rightarrow>
                        if sg_now g - since < jobQuiet then (t1, [])
                        else job_endLocked ''finished'' (sg_now g) t1))"

section \<open>A run of readings\<close>

fun job_watch :: "sighting list \<Rightarrow> job_tracker \<Rightarrow> job_tracker \<times> string list" where
  "job_watch [] t = (t, [])"
| "job_watch (g # gs) t =
     (let (t1, note) = job_observe g t; (t2, notes) = job_watch gs t1
      in (t2, (if note = [] then [] else [note]) @ notes))"

definition still :: "sighting \<Rightarrow> bool" where
  "still g \<longleftrightarrow> \<not> Moving (mc_state (sg_machine g))"

lemma job_note_Nil: "snd (job_endLocked r now t) = [] \<longleftrightarrow> \<not> jb_running (jt_job t)"
  by (simp add: job_endLocked_def)

text \<open>The tracker's own consistency: no clock of rest without a job, no end while it runs.\<close>

definition job_ok :: "job_tracker \<Rightarrow> bool" where
  "job_ok t \<longleftrightarrow>
     (jb_running (jt_job t) \<longrightarrow> jb_ended (jt_job t) = [] \<and> jb_ended_unix (jt_job t) = 0)
     \<and> (\<not> jb_running (jt_job t) \<longrightarrow> jt_rest t = None)"

lemma job_ok_new [simp]: "job_ok newJobTracker"
  by (simp add: job_ok_def newJobTracker_def blank_job_def)

lemma job_ok_end: "job_ok t \<Longrightarrow> job_ok (fst (job_endLocked r now t))"
  by (simp add: job_ok_def job_endLocked_def)

lemma job_ok_count: "job_ok t \<Longrightarrow> job_ok (job_count g t)"
  by (simp add: job_ok_def job_count_def)

lemma job_ok_observe:
  assumes "job_ok t"
  shows "job_ok (fst (job_observe g t))"
proof (cases "jb_running (jt_job t)")
  case True
  have "job_ok (job_count g t)" "jb_running (jt_job (job_count g t))"
    using assms True by (simp_all add: job_ok_count) (simp add: job_count_def)
  then show ?thesis
    using True job_ok_end [of "job_count g t" "''finished''" "sg_now g"]
    by (auto simp: job_observe_def Let_def job_ok_def split: option.splits)
next
  case False
  with assms show ?thesis
    by (auto simp: job_observe_def Let_def job_begin_def job_ok_def blank_job_def)
qed

lemma job_running_observe:
  assumes "jb_running (jt_job t)"
  shows "jb_running (jt_job (fst (job_observe g t))) \<longleftrightarrow> snd (job_observe g t) = []"
  using assms
  by (auto simp: job_observe_def Let_def job_count_def job_endLocked_def split: option.splits)

lemma job_rest_observe:
  assumes "jb_running (jt_job t)"
  shows "jt_rest (fst (job_observe g t)) =
    (if snd (job_observe g t) \<noteq> [] \<or> \<not> still g then None
     else Some (case jt_rest t of None \<Rightarrow> sg_now g | Some since \<Rightarrow> since))"
  using assms
  by (auto simp: job_observe_def still_def Let_def job_count_def job_endLocked_def
      split: option.splits)

lemma job_ends_when:
  assumes "jb_running (jt_job t)"
  shows "snd (job_observe g t) \<noteq> [] \<longleftrightarrow>
    still g \<and> (\<exists>since. jt_rest t = Some since \<and> jobQuiet \<le> sg_now g - since)"
  using assms
  by (auto simp: job_observe_def still_def Let_def job_count_def job_endLocked_def
      split: option.splits)

lemma job_starts_when:
  assumes "\<not> jb_running (jt_job t)"
  shows "jb_running (jt_job (fst (job_observe g t))) \<longleftrightarrow> \<not> still g \<and> sg_client g"
  using assms by (auto simp: job_observe_def still_def Let_def job_begin_def)

section \<open>What the tracker promises\<close>

text \<open>No pause among the readings is as long as fifteen seconds.\<close>

definition short_pauses :: "sighting list \<Rightarrow> bool" where
  "short_pauses gs \<longleftrightarrow>
     (\<forall>i j. i \<le> j \<longrightarrow> j < length gs \<longrightarrow> (\<forall>k. i \<le> k \<and> k \<le> j \<longrightarrow> still (gs ! k)) \<longrightarrow>
        sg_now (gs ! j) - sg_now (gs ! i) < jobQuiet)"

lemma short_pauses_Cons: "short_pauses (g # gs) \<Longrightarrow> short_pauses gs"
  unfolding short_pauses_def
proof (intro allI impI)
  fix i j
  assume all: "\<forall>i j. i \<le> j \<longrightarrow> j < length (g # gs) \<longrightarrow> (\<forall>k. i \<le> k \<and> k \<le> j \<longrightarrow> still ((g # gs) ! k)) \<longrightarrow>
      sg_now ((g # gs) ! j) - sg_now ((g # gs) ! i) < jobQuiet"
    and ij: "i \<le> j" "j < length gs" "\<forall>k. i \<le> k \<and> k \<le> j \<longrightarrow> still (gs ! k)"
  have "still ((g # gs) ! k)" if "Suc i \<le> k \<and> k \<le> Suc j" for k
    using ij(3) that by (cases k) auto
  with all [rule_format, of "Suc i" "Suc j"] ij show "sg_now (gs ! j) - sg_now (gs ! i) < jobQuiet"
    by simp
qed

lemma short_pauses_running:
  assumes "jb_running (jt_job t)" and "short_pauses gs"
    and "\<And>since j. jt_rest t = Some since \<Longrightarrow> j < length gs \<Longrightarrow> \<forall>k \<le> j. still (gs ! k) \<Longrightarrow>
      sg_now (gs ! j) - since < jobQuiet"
  shows "jb_running (jt_job (fst (job_watch gs t))) \<and> snd (job_watch gs t) = []"
  using assms
proof (induction gs arbitrary: t)
  case Nil
  then show ?case by simp
next
  case (Cons g gs)
  let ?t = "fst (job_observe g t)"
  have quiet: "snd (job_observe g t) = []"
  proof (rule ccontr)
    assume "snd (job_observe g t) \<noteq> []"
    then obtain since where "still g" "jt_rest t = Some since" "jobQuiet \<le> sg_now g - since"
      using job_ends_when [OF Cons.prems(1)] by auto
    with Cons.prems(3) [of since 0] show False by simp
  qed
  have run: "jb_running (jt_job ?t)" using job_running_observe [OF Cons.prems(1)] quiet by simp
  have rest: "jt_rest ?t = (if still g then Some (case jt_rest t of None \<Rightarrow> sg_now g | Some s \<Rightarrow> s) else None)"
    using job_rest_observe [OF Cons.prems(1), of g] quiet by simp
  have "sg_now (gs ! j) - since < jobQuiet"
    if since: "jt_rest ?t = Some since" and j: "j < length gs" and all: "\<forall>k \<le> j. still (gs ! k)"
    for since j
  proof -
    have g: "still g" using since rest by (simp split: if_splits)
    have all': "still ((g # gs) ! k)" if "k \<le> Suc j" for k
      using g all that by (cases k) auto
    show ?thesis
    proof (cases "jt_rest t")
      case None
      then have "since = sg_now g" using since rest g by simp
      then show ?thesis
        using Cons.prems(2) [unfolded short_pauses_def, rule_format, of 0 "Suc j"] all' j by simp
    next
      case (Some s)
      then have "since = s" using since rest g by simp
      then show ?thesis using Cons.prems(3) [OF Some, of "Suc j"] all' j by simp
    qed
  qed
  from Cons.IH [OF run short_pauses_Cons [OF Cons.prems(2)] this] quiet show ?case
    by (simp add: case_prod_beta)
qed

lemma job_kept:
  assumes "\<not> jb_running (jt_job t)" and "\<not> still g" and "sg_client g" and "short_pauses gs"
  shows "jb_running (jt_job (fst (job_watch (g # gs) t))) \<and> snd (job_watch (g # gs) t) = []"
proof -
  let ?t = "fst (job_observe g t)"
  have start: "job_observe g t = (job_begin g t, [])"
    using assms(1-3) by (simp add: job_observe_def still_def Let_def)
  have "jb_running (jt_job (job_begin g t))" "jt_rest (job_begin g t) = None"
    by (simp_all add: job_begin_def)
  from short_pauses_running [OF this(1) assms(4)] this(2) show ?thesis
    by (simp add: start)
qed

text \<open>
  A job that has begun stays one job - no entry in the record, still running - through any
  sequence of readings in which the machine never stands still for fifteen seconds, whatever
  the client does in the meantime.
\<close>

theorem short_pauses_keep_the_job:
  assumes "\<not> jb_running (jt_job t)" and "\<not> still g" and "sg_client g" and "short_pauses gs"
  shows "jb_running (jt_job (fst (job_watch (g # gs) t))) \<and> snd (job_watch (g # gs) t) = []"
  using assms by (rule job_kept)

definition sight :: "machine_state \<Rightarrow> int \<Rightarrow> sighting" where
  "sight st seconds =
     \<lparr>sg_machine = blank_machine\<lparr>mc_state := st\<rparr>, sg_client = True, sg_lines = 0, sg_bytes = 0,
      sg_now = seconds * second, sg_uptime = seconds\<rparr>"

theorem short_pauses_keep_the_job_witness:
  "snd (job_watch [sight StateRun 0, sight StateIdle 1] newJobTracker) = []"
proof -
  have "short_pauses [sight StateIdle 1]"
    by (auto simp: short_pauses_def sight_def jobQuiet_def)
  moreover have "\<not> still (sight StateRun 0)" "sg_client (sight StateRun 0)"
    "\<not> jb_running (jt_job newJobTracker)"
    by (simp_all add: still_def sight_def newJobTracker_def blank_job_def)
  ultimately show ?thesis
    using short_pauses_keep_the_job by blast
qed

text \<open>
  The job ends after fifteen seconds of standing still even while the client keeps sending.
\<close>

lemma job_ends_while_the_client_sends:
  "snd (job_watch
     [sight StateRun 0, (sight StateIdle 1)\<lparr>sg_lines := 10\<rparr>, (sight StateIdle 8)\<lparr>sg_lines := 20\<rparr>,
      (sight StateIdle 16)\<lparr>sg_lines := 30\<rparr>] newJobTracker) =
   [''job finished after 16s and 30 lines'']"
  by code_simp

end
