(* ===== verification/Control.thy ===== *)
theory Control
  imports Monitor Job
begin

text \<open>
  \<open>backend/internal/proxy/control.go\<close>, the parts that need no bridge: the lease of the aiming
  beam, the lines an operator's command turns into, and the books the appliance keeps about
  the lines it has sent itself. \<open>Do\<close>, which puts them together, is in theory \<open>Bridge\<close>.
\<close>

section \<open>Commands and errors\<close>

datatype command =
    CommandHome | CommandUnlock | CommandHold | CommandResume | CommandStop | CommandJog
  | CommandJogCancel | CommandAim | CommandAimOff | CommandGoTo | CommandSend | CommandZero
  | CommandOther string

fun command_text :: "command \<Rightarrow> string" where
  "command_text CommandHome = ''home''"
| "command_text CommandUnlock = ''unlock''"
| "command_text CommandHold = ''hold''"
| "command_text CommandResume = ''resume''"
| "command_text CommandStop = ''stop''"
| "command_text CommandJog = ''jog''"
| "command_text CommandJogCancel = ''jog-cancel''"
| "command_text CommandAim = ''aim''"
| "command_text CommandAimOff = ''aim-off''"
| "command_text CommandGoTo = ''goto''"
| "command_text CommandSend = ''send''"
| "command_text CommandZero = ''zero''"
| "command_text (CommandOther s) = s"

record command_request =
  rq_command :: command
  rq_axis :: string
  rq_distance :: float64
  rq_feed :: float64
  rq_x :: "float64 option"
  rq_y :: "float64 option"
  rq_z :: "float64 option"
  rq_percent :: int
  rq_line :: string
  rq_holder :: string

datatype control_error =
    ErrClientInCharge | ErrNoPort | ErrUnknownCommand command | ErrSomebodyElseIsAiming
  | ErrStillWorking | ErrWrite string | ErrRefused string

section \<open>The aiming beam\<close>

definition aimLease :: duration where "aimLease = 3 * second"

record aiming_beam =
  am_until :: go_time
  am_holder :: string
  am_percent :: int

definition no_aim :: aiming_beam where
  "no_aim = \<lparr>am_until = None, am_holder = [], am_percent = 0\<rparr>"

definition aim_live :: "aiming_beam \<Rightarrow> instant \<Rightarrow> bool" where
  "aim_live a now \<longleftrightarrow> (case am_until a of None \<Rightarrow> False | Some t \<Rightarrow> now < t)"

definition aim_hold ::
    "string \<Rightarrow> int \<Rightarrow> instant \<Rightarrow> aiming_beam \<Rightarrow> aiming_beam \<times> (control_error + bool)" where
  "aim_hold holder percent now a =
     (let live = aim_live a now
      in if live \<and> am_holder a \<noteq> holder then (a, Inl ErrSomebodyElseIsAiming)
         else (\<lparr>am_until = Some (now + aimLease), am_holder = holder, am_percent = percent\<rparr>,
               Inr (\<not> live)))"

definition aim_releaseBy :: "string \<Rightarrow> aiming_beam \<Rightarrow> aiming_beam \<times> control_error option" where
  "aim_releaseBy holder a =
     (if holder \<noteq> [] \<and> am_holder a \<noteq> [] \<and> am_holder a \<noteq> holder \<and> am_until a \<noteq> None then
        (a, Some ErrSomebodyElseIsAiming)
      else (a\<lparr>am_until := None, am_holder := []\<rparr>, None))"

definition aim_release :: "aiming_beam \<Rightarrow> aiming_beam" where
  "aim_release a = fst (aim_releaseBy [] a)"

definition aim_expired :: "instant \<Rightarrow> aiming_beam \<Rightarrow> aiming_beam \<times> bool" where
  "aim_expired now a =
     (case am_until a of
        None \<Rightarrow> (a, False)
      | Some t \<Rightarrow> if now < t then (a, False) else (a\<lparr>am_until := None\<rparr>, True))"

definition aim_granted :: "string \<Rightarrow> instant \<Rightarrow> aiming_beam \<Rightarrow> bool" where
  "aim_granted holder now a \<longleftrightarrow> (\<exists>first. snd (aim_hold holder 1 now a) = Inr first)"

lemma aim_granted_iff: "aim_granted holder now a \<longleftrightarrow> \<not> aim_live a now \<or> am_holder a = holder"
  by (auto simp: aim_granted_def aim_hold_def Let_def)

interpretation aiming: renewable_lease
    "aim_granted holder" "\<lambda>now a. fst (aim_hold holder percent now a)" aim_live aimLease
  for holder percent
proof
  show "0 < aimLease" by (simp add: aimLease_def)
  show "aim_granted holder t s \<Longrightarrow>
      aim_live (fst (aim_hold holder percent t s)) t' \<longleftrightarrow> t' < t + aimLease" for t s t'
    by (auto simp: aim_granted_iff aim_hold_def aim_live_def Let_def)
  show "aim_granted holder t s \<Longrightarrow>
      aim_granted holder t' (fst (aim_hold holder percent t s))" for t s t'
    by (auto simp: aim_granted_iff aim_hold_def Let_def)
qed

section \<open>Lines\<close>

definition jogLine :: "string \<Rightarrow> float64 \<Rightarrow> float64 \<Rightarrow> control_error + string" where
  "jogLine axis0 distance feed =
     (let axis = to_upper (trim_space axis0)
      in if axis \<noteq> ''X'' \<and> axis \<noteq> ''Y'' \<and> axis \<noteq> ''Z'' then
           Inl (ErrRefused ''jog axis must be X, Y or Z'')
         else if f_eq distance f_zero \<or> f_less distance (f_of_int (- 1000))
             \<or> f_less (f_of_int 1000) distance then
           Inl (ErrRefused ''jog distance must be between -1000 and 1000 millimetres, and not zero'')
         else if f_less feed (f_of_int 1) \<or> f_less (f_of_int 20000) feed then
           Inl (ErrRefused ''jog feed must be between 1 and 20000'')
         else Inr (''$J=G91 G21 '' @ axis @ fmt_fixed 3 distance @ '' F'' @ fmt_fixed 0 feed))"

fun goto_axes :: "(string \<times> float64 option) list \<Rightarrow> string \<Rightarrow> control_error + string" where
  "goto_axes [] line = Inr line"
| "goto_axes ((name, None) # rest) line = goto_axes rest line"
| "goto_axes ((name, Some v) # rest) line =
     (if f_less v (f_of_int (- 10000)) \<or> f_less (f_of_int 10000) v then
        Inl (ErrRefused ''a target coordinate must be between -10000 and 10000 millimetres'')
      else goto_axes rest (line @ '' '' @ name @ fmt_fixed 3 v))"

definition gotoLine :: "command_request \<Rightarrow> control_error + string" where
  "gotoLine rq =
     (case goto_axes [(''X'', rq_x rq), (''Y'', rq_y rq), (''Z'', rq_z rq)] ''$J=G90 G21'' of
        Inl e \<Rightarrow> Inl e
      | Inr line \<Rightarrow>
          if line = ''$J=G90 G21'' then Inl (ErrRefused ''a go-to needs at least one coordinate'')
          else if f_less (rq_feed rq) (f_of_int 1) \<or> f_less (f_of_int 20000) (rq_feed rq) then
            Inl (ErrRefused ''feed must be between 1 and 20000'')
          else Inr (line @ '' F'' @ fmt_fixed 0 (rq_feed rq)))"

definition zeroLine :: "string \<Rightarrow> control_error + string" where
  "zeroLine axis0 =
     (let axis = to_upper (trim_space axis0)
      in if axis = ''X'' then Inr ''G10 L20 P1 X0''
         else if axis = ''Y'' then Inr ''G10 L20 P1 Y0''
         else if axis = ''Z'' then Inr ''G10 L20 P1 Z0''
         else if axis = [] \<or> axis = ''ALL'' then Inr ''G10 L20 P1 X0 Y0 Z0''
         else Inl (ErrRefused ''an axis to zero must be X, Y, Z or all''))"

definition maxTypedLine :: nat where "maxTypedLine = 80"

definition printable :: "byte \<Rightarrow> bool" where
  "printable c \<longleftrightarrow> 32 \<le> (of_char c :: int) \<and> (of_char c :: int) \<le> 126"

definition typedLine :: "string \<Rightarrow> control_error + string" where
  "typedLine line0 =
     (let line = trim_space line0
      in if line = [] then Inl (ErrRefused ''nothing to send'')
         else if maxTypedLine < length line then
           Inl (ErrRefused (''a typed command may be at most '' @ itoa (int maxTypedLine) @ '' characters''))
         else if \<not> list_all printable line then
           Inl (ErrRefused ''a typed command may only contain printable ASCII, and only one line at a time'')
         else if line = ''?'' \<or> line = ''!'' \<or> line = ''~'' then
           Inl (ErrRefused ''the real-time keys have their own buttons: the status is read continuously, and hold, resume and stop are beside the pad'')
         else Inr line)"

definition aimFeed :: int where "aimFeed = 100"

definition aimLines :: "int \<Rightarrow> string list" where
  "aimLines s_value = [''M3'', ''G1 F'' @ itoa aimFeed @ '' S'' @ itoa s_value]"

text \<open>\<open>int\<close> is 64 bits wide: the product wraps, the quotient rounds towards zero.\<close>

definition wrap64 :: "int \<Rightarrow> int" where
  "wrap64 i = (i + 2 ^ 63) mod 2 ^ 64 - 2 ^ 63"

definition quot_zero :: "int \<Rightarrow> int \<Rightarrow> int" where
  "quot_zero a b = (if 0 \<le> a then a div b else - (- a div b))"

definition spindleFor :: "machine \<Rightarrow> int \<Rightarrow> int" where
  "spindleFor m percent =
     (let maximum = (if mc_spindle_max m \<le> 0 then 1000 else mc_spindle_max m);
          value = quot_zero (wrap64 (maximum * percent)) 100
      in if value < 1 then 1 else value)"

section \<open>The books about our own lines\<close>

definition outstandingLines :: nat where "outstandingLines = 4"
definition lineAnswerTimeout :: duration where "lineAnswerTimeout = 90 * second"

text \<open>The channel \<open>injected\<close>, oldest entry first. A full channel refuses, an empty one gives nothing.\<close>

type_synonym slots = "instant list"

definition acknowledged :: "slots \<Rightarrow> slots" where
  "acknowledged ch = (case ch of [] \<Rightarrow> [] | sent # rest \<Rightarrow> rest)"

fun release_slots :: "nat \<Rightarrow> slots \<Rightarrow> slots" where
  "release_slots 0 ch = ch"
| "release_slots (Suc n) ch = release_slots n (acknowledged ch)"

fun take_slots :: "'l list \<Rightarrow> instant \<Rightarrow> slots \<Rightarrow> nat \<Rightarrow> slots \<times> nat \<times> bool" where
  "take_slots [] now ch taken = (ch, taken, True)"
| "take_slots (l # ls) now ch taken =
     (if length ch < outstandingLines then take_slots ls now (ch @ [now]) (taken + 1)
      else (ch, taken, False))"

text \<open>
  What \<open>sendLines\<close> does to the books; the answer says whether the payload may be written.
\<close>

definition reserve :: "'l list \<Rightarrow> instant \<Rightarrow> slots \<Rightarrow> slots \<times> bool" where
  "reserve ls now ch =
     (case take_slots ls now ch 0 of
        (ch1, taken, True) \<Rightarrow> (ch1, True)
      | (ch1, taken, False) \<Rightarrow> (release_slots taken ch1, False))"

definition forgetInjected :: "slots \<Rightarrow> slots" where
  "forgetInjected ch = []"

fun forgetStaleLines :: "instant \<Rightarrow> slots \<Rightarrow> slots" where
  "forgetStaleLines now [] = []"
| "forgetStaleLines now (sent # rest) =
     (if now - sent < lineAnswerTimeout then
        (if length rest < outstandingLines then rest @ [sent] else rest)
      else forgetStaleLines now rest)"

definition payload :: "string list \<Rightarrow> string" where
  "payload ls = join ls [CHR 0x0A] @ [CHR 0x0A]"

section \<open>Facts about the books\<close>

lemma take_slots_ok:
  "length ch + length ls \<le> outstandingLines \<Longrightarrow>
   take_slots ls now ch taken = (ch @ replicate (length ls) now, taken + length ls, True)"
  by (induction ls arbitrary: ch taken) (simp_all add: replicate_app_Cons_same)

lemma take_slots_full:
  "length ch \<le> outstandingLines \<Longrightarrow> outstandingLines < length ch + length ls \<Longrightarrow>
   take_slots ls now ch taken =
     (ch @ replicate (outstandingLines - length ch) now, taken + (outstandingLines - length ch), False)"
proof (induction ls arbitrary: ch taken)
  case Nil
  then show ?case by simp
next
  case (Cons l ls)
  show ?case
  proof (cases "length ch < outstandingLines")
    case True
    then obtain k where k: "outstandingLines - length ch = Suc k" by (metis Suc_diff_Suc)
    then have "outstandingLines - length (ch @ [now]) = k" by simp
    with Cons.IH [of "ch @ [now]" "taken + 1"] Cons.prems True k show ?thesis by simp
  qed (use Cons.prems in simp)
qed

lemma release_slots_drop: "release_slots n ch = drop n ch"
  by (induction n arbitrary: ch) (simp_all add: acknowledged_def drop_Suc split: list.splits)

lemma reserve_cases:
  assumes "length ch \<le> outstandingLines"
  shows "reserve ls now ch =
    (if length ch + length ls \<le> outstandingLines then (ch @ replicate (length ls) now, True)
     else (drop (outstandingLines - length ch) (ch @ replicate (outstandingLines - length ch) now), False))"
  using assms by (simp add: reserve_def take_slots_ok take_slots_full release_slots_drop)

lemma reserve_length:
  assumes "length ch \<le> outstandingLines"
  shows "length (fst (reserve ls now ch)) =
    length ch + (if snd (reserve ls now ch) then length ls else 0)
    \<and> length (fst (reserve ls now ch)) \<le> outstandingLines"
proof (cases "length ch + length ls \<le> outstandingLines")
  case True
  with assms show ?thesis by (simp add: reserve_cases)
next
  case False
  with assms have "length (fst (reserve ls now ch)) = length ch" "\<not> snd (reserve ls now ch)"
    unfolding reserve_cases [OF assms] by simp_all
  with assms show ?thesis by simp
qed

lemma forgetStaleLines_length: "length (forgetStaleLines now ch) \<le> length ch"
  by (induction now ch rule: forgetStaleLines.induct) auto

lemma forgetStaleLines_young:
  "length ch \<le> outstandingLines \<Longrightarrow> t \<in> set ch \<Longrightarrow> now - t < lineAnswerTimeout \<Longrightarrow>
   t \<in> set (forgetStaleLines now ch)"
  by (induction now ch rule: forgetStaleLines.induct) auto

section \<open>How long a line can be\<close>

lemma f_of_int_small [simp]:
  "f_of_int 1000 = F64 False 1000" "f_of_int (- 1000) = F64 True 1000" "f_of_int 1 = F64 False 1"
  "f_of_int 20000 = F64 False 20000" "f_of_int 10000 = F64 False 10000"
  "f_of_int (- 10000) = F64 True 10000"
  by code_simp+

lemma fixed_length_between:
  assumes "\<not> f_less v (F64 True b)" and "\<not> f_less (F64 False b) v" and "b = of_int n"
    and "n < 10 ^ q" and "0 < q" and "0 < p"
  shows "length (fmt_fixed p v) \<le> 2 + q + p"
proof (cases v)
  case (F64 neg m)
  with assms(1-3) have "\<bar>real_value (F64 neg m)\<bar> \<le> of_int n" by (auto split: if_splits)
  from length_fmt_fixed [OF this assms(4-6)] F64 show ?thesis by simp
next
  case (F64Inf neg)
  with assms(1,2) show ?thesis by (cases neg) simp_all
qed (use assms(5,6) in simp)

lemma feed_length:
  assumes "\<not> f_less v (f_of_int 1)" and "\<not> f_less (f_of_int 20000) v"
  shows "length (fmt_fixed 0 v) \<le> 6"
proof (cases v)
  case (F64 neg m)
  with assms have "\<bar>real_value (F64 neg m)\<bar> \<le> of_int 20000" by (auto split: if_splits)
  from length_fmt_int [OF this, of 5] F64 show ?thesis by simp
next
  case (F64Inf neg)
  with assms show ?thesis by (cases neg) simp_all
qed simp

lemma jogLine_length:
  assumes "jogLine axis distance feed = Inr line"
  shows "length line \<le> 29"
proof -
  let ?axis = "to_upper (trim_space axis)"
  have axis: "length ?axis = 1" and d: "\<not> f_less distance (f_of_int (- 1000))"
      "\<not> f_less (f_of_int 1000) distance"
    and f: "\<not> f_less feed (f_of_int 1)" "\<not> f_less (f_of_int 20000) feed"
    and line: "line = ''$J=G91 G21 '' @ ?axis @ fmt_fixed 3 distance @ '' F'' @ fmt_fixed 0 feed"
    using assms unfolding jogLine_def Let_def by (auto split: if_splits)
  have "length (fmt_fixed 3 distance) \<le> 2 + 4 + 3"
    using d by (intro fixed_length_between [of _ 1000 1000]) simp_all
  with feed_length [OF f] axis show ?thesis unfolding line by simp
qed

lemma goto_axes_length:
  "goto_axes axes line = Inr line' \<Longrightarrow> list_all (\<lambda>(name, v). length name = 1) axes \<Longrightarrow>
   length line' \<le> length line + 12 * length axes"
proof (induction axes line rule: goto_axes.induct)
  case (3 name v rest line)
  from "3.prems" have v: "\<not> f_less v (f_of_int (- 10000))" "\<not> f_less (f_of_int 10000) v"
    and rest: "goto_axes rest (line @ '' '' @ name @ fmt_fixed 3 v) = Inr line'"
    by (auto split: if_splits)
  have "length (fmt_fixed 3 v) \<le> 2 + 5 + 3"
    using v by (intro fixed_length_between [of _ 10000 10000]) simp_all
  with "3.IH" [OF _ rest] v "3.prems" show ?case by auto
qed auto

lemma gotoLine_length:
  assumes "gotoLine rq = Inr line"
  shows "length line \<le> 54"
proof -
  obtain base where base: "goto_axes [(''X'', rq_x rq), (''Y'', rq_y rq), (''Z'', rq_z rq)] ''$J=G90 G21'' = Inr base"
    and f: "\<not> f_less (rq_feed rq) (f_of_int 1)" "\<not> f_less (f_of_int 20000) (rq_feed rq)"
    and line: "line = base @ '' F'' @ fmt_fixed 0 (rq_feed rq)"
    using assms unfolding gotoLine_def by (auto split: sum.splits if_splits)
  from goto_axes_length [OF base] have "length base \<le> 46" by simp
  with feed_length [OF f] show ?thesis unfolding line by simp
qed

lemma typedLine_sound:
  assumes "typedLine s = Inr line"
  shows "line \<noteq> [] \<and> length line \<le> 80 \<and> list_all printable line"
  using assms by (auto simp: typedLine_def Let_def maxTypedLine_def split: if_splits)

section \<open>The power of the aiming beam\<close>

lemma wrap64_id: "- (2 ^ 63) \<le> i \<Longrightarrow> i < 2 ^ 63 \<Longrightarrow> wrap64 i = i"
  by (simp add: wrap64_def)

lemma wrap64_product: "0 \<le> i \<Longrightarrow> i \<le> 2 ^ 56 * 100 \<Longrightarrow> wrap64 i = i"
  by (intro wrap64_id) simp_all

lemma spindleFor_scaled:
  assumes "0 < mc_spindle_max m" and "mc_spindle_max m \<le> 2 ^ 56" and "1 \<le> p" and "p \<le> 100"
  shows "spindleFor m p = max 1 (mc_spindle_max m * p div 100)"
proof -
  have "mc_spindle_max m * p \<le> 2 ^ 56 * 100" "0 \<le> mc_spindle_max m * p"
    using assms by (intro mult_mono mult_nonneg_nonneg; simp)+
  then have "wrap64 (mc_spindle_max m * p) = mc_spindle_max m * p"
    by (intro wrap64_product)
  then show ?thesis using assms by (simp add: spindleFor_def quot_zero_def Let_def max_def)
qed

section \<open>What the parts of the steering promise\<close>

text \<open>
  The slots for lines of our own are taken all or none: after a refusal as many are
  occupied as before, after a success exactly as many more as there are lines, and never more
  than four.
\<close>

theorem slots_all_or_none:
  assumes "length ch \<le> outstandingLines"
  shows "length (fst (reserve ls now ch)) =
      length ch + (if snd (reserve ls now ch) then length ls else 0)
    \<and> length (fst (reserve ls now ch)) \<le> outstandingLines
    \<and> (snd (reserve ls now ch) \<longleftrightarrow> length ch + length ls \<le> outstandingLines)"
  using reserve_length [OF assms, of ls now] reserve_cases [OF assms, of ls now] by simp

theorem slots_all_or_none_witness:
  "length (fst (reserve [''M3'', ''G1 F100 S20''] 9 [1, 2, 3])) = 3"
  using slots_all_or_none [of "[1, 2, 3]" "[''M3'', ''G1 F100 S20'']" 9]
  by (simp add: outstandingLines_def)

text \<open>
  However fast an operator taps the jog pad, the jogs that may be outstanding at once fit
  into the controller's 128 byte receive buffer.
\<close>

theorem outstanding_jogs_fit:
  assumes "length ls \<le> outstandingLines" and "\<forall>l \<in> set ls. \<exists>axis distance feed. jogLine axis distance feed = Inr l"
  shows "length (concat (map (\<lambda>l. payload [l]) ls)) \<le> 120"
proof -
  have each: "length (payload [l]) \<le> 30" if "l \<in> set ls" for l
    using assms(2) that jogLine_length by (fastforce simp: payload_def)
  have "length (concat (map (\<lambda>l. payload [l]) xs)) \<le> 30 * length xs" if "set xs \<subseteq> set ls" for xs
    using that
  proof (induction xs)
    case (Cons x xs)
    then show ?case using each [of x] by simp
  qed simp
  from this [of ls] assms(1) show ?thesis by (simp add: outstandingLines_def)
qed

theorem outstanding_jogs_fit_witness:
  "length (concat (map (\<lambda>l. payload [l]) (replicate 4 ''$J=G91 G21 X-10.000 F500''))) \<le> 120"
proof (rule outstanding_jogs_fit)
  show "length (replicate 4 ''$J=G91 G21 X-10.000 F500'') \<le> outstandingLines"
    by (simp add: outstandingLines_def)
  have "jogLine ''x'' (f_of_int (- 10)) (f_of_int 500) = Inr ''$J=G91 G21 X-10.000 F500''"
    by code_simp
  then show "\<forall>l \<in> set (replicate 4 ''$J=G91 G21 X-10.000 F500'').
      \<exists>axis distance feed. jogLine axis distance feed = Inr l"
    by (auto simp del: f_of_int_small)
qed

text \<open>
  The aiming beam has one holder. From the moment somebody is granted it until the lease
  runs out nobody else can renew it or let go of it, and when it has run out the watch is told
  so exactly once.
\<close>

theorem aiming_beam_has_one_holder:
  assumes "aim_hold holder percent t a = (a', Inr first)" and "other \<noteq> holder"
    and "other \<noteq> []" and "holder \<noteq> []"
  shows "(t' < t + aimLease \<longrightarrow>
      aim_hold other p t' a' = (a', Inl ErrSomebodyElseIsAiming) \<and> \<not> snd (aim_expired t' a'))
    \<and> aim_releaseBy other a' = (a', Some ErrSomebodyElseIsAiming)
    \<and> (t + aimLease \<le> t' \<longrightarrow>
      snd (aim_expired t' a') \<and> \<not> snd (aim_expired t'' (fst (aim_expired t' a'))))"
proof -
  have a': "a' = \<lparr>am_until = Some (t + aimLease), am_holder = holder, am_percent = percent\<rparr>"
    using assms(1) by (auto simp: aim_hold_def Let_def split: if_splits)
  have "aim_granted holder t a" "a' = fst (aim_hold holder percent t a)"
    using assms(1) by (auto simp: aim_granted_iff aim_hold_def Let_def split: if_splits)
  then have "aim_live a' t' \<longleftrightarrow> t' < t + aimLease"
    using aiming.live_renew by blast
  then show ?thesis
    using assms(2-4) by (auto simp: a' aim_hold_def aim_releaseBy_def aim_expired_def Let_def)
qed

theorem aiming_beam_has_one_holder_witness:
  "aim_releaseBy ''b'' (fst (aim_hold ''a'' 20 0 no_aim)) =
     (fst (aim_hold ''a'' 20 0 no_aim), Some ErrSomebodyElseIsAiming)"
  using aiming_beam_has_one_holder [of "''a''" 20 0 no_aim "fst (aim_hold ''a'' 20 0 no_aim)" True "''b''"]
  by (simp add: aim_hold_def aim_live_def no_aim_def)

text \<open>
  The spindle value of an aiming beam is the percentage asked for of the controller's
  maximum, at least one and never above the maximum; without a known maximum it is the
  percentage of a thousand.
\<close>

theorem aiming_power_is_scaled:
  assumes "1 \<le> p" and "p \<le> 100" and "mc_spindle_max m \<le> 2 ^ 56"
  shows "spindleFor m p =
      max 1 ((if mc_spindle_max m \<le> 0 then 1000 else mc_spindle_max m) * p div 100)
    \<and> 1 \<le> spindleFor m p
    \<and> spindleFor m p \<le> (if mc_spindle_max m \<le> 0 then 1000 else mc_spindle_max m)"
proof -
  let ?top = "if mc_spindle_max m \<le> 0 then 1000 else mc_spindle_max m"
  have top: "0 < ?top" "?top \<le> 2 ^ 56" using assms(3) by simp_all
  have "spindleFor m p = spindleFor (m\<lparr>mc_spindle_max := ?top\<rparr>) p"
    by (simp add: spindleFor_def)
  also have "\<dots> = max 1 (?top * p div 100)"
    using spindleFor_scaled [of "m\<lparr>mc_spindle_max := ?top\<rparr>" p] top assms(1,2) by simp
  finally have eq: "spindleFor m p = max 1 (?top * p div 100)" .
  have "?top * p \<le> ?top * 100" using assms(2) top by (intro mult_left_mono) simp_all
  then have "?top * p div 100 \<le> ?top * 100 div 100" by (intro zdiv_mono1) simp_all
  then have "?top * p div 100 \<le> ?top" by simp
  with eq top show ?thesis by simp
qed

theorem aiming_power_is_scaled_witness:
  "spindleFor (blank_machine\<lparr>mc_spindle_max := 255\<rparr>) 20 = 51"
  using aiming_power_is_scaled [of 20 "blank_machine\<lparr>mc_spindle_max := 255\<rparr>"] by simp

text \<open>
  What an operator typed reaches the controller only as one non-empty line of at most
  eighty printable characters, never as one of the lone real-time keys, and otherwise exactly
  as it was typed, without the space around it.
\<close>

theorem typed_lines_are_single_lines:
  assumes "typedLine typed = Inr line"
  shows "line = trim_space typed \<and> line \<noteq> [] \<and> length line \<le> 80
    \<and> CHR 0x0A \<notin> set line \<and> CHR 0x0D \<notin> set line \<and> softReset \<notin> set line
    \<and> line \<notin> {''?'', ''!'', ''~''}"
proof -
  have sound: "list_all printable line" using typedLine_sound [OF assms] by simp
  have "\<not> printable (CHR 0x0A)" "\<not> printable (CHR 0x0D)" "\<not> printable softReset"
    by (simp_all add: printable_def softReset_def)
  with sound have "CHR 0x0A \<notin> set line" "CHR 0x0D \<notin> set line" "softReset \<notin> set line"
    by (auto simp: list_all_iff)
  then show ?thesis
    using assms typedLine_sound [OF assms] by (auto simp: typedLine_def Let_def split: if_splits)
qed

theorem typed_lines_are_single_lines_witness:
  "softReset \<notin> set ''G0 X0''"
proof -
  have "typedLine '' G0 X0 '' = Inr ''G0 X0''" by code_simp
  from typed_lines_are_single_lines [OF this] show ?thesis by blast
qed

text \<open>
  The refusal of the real-time keys looks at the whole line only: a line that merely
  contains one is sent, and the controller acts on the key the moment it reads it.
\<close>

lemma typed_line_may_hide_a_feed_hold:
  "typedLine ''G1 X10!'' = Inr ''G1 X10!'' \<and> feedHold \<in> set ''G1 X10!''"
proof
  show "typedLine ''G1 X10!'' = Inr ''G1 X10!''" by code_simp
  show "feedHold \<in> set ''G1 X10!''" by (simp add: feedHold_def)
qed

definition far_away :: command_request where
  "far_away =
     \<lparr>rq_command = CommandGoTo, rq_axis = [], rq_distance = f_zero, rq_feed = f_of_int 20000,
      rq_x = Some (f_of_int (- 10000)), rq_y = Some (f_of_int (- 10000)),
      rq_z = Some (f_of_int (- 10000)), rq_percent = 0, rq_line = [], rq_holder = []\<rparr>"

text \<open>
  Four go-to lines, which the books allow to be outstanding at once, do not fit into a
  128 byte receive buffer.
\<close>

theorem outstanding_gotos_overflow:
  "\<exists>line. gotoLine far_away = Inr line \<and> 128 < outstandingLines * length (payload [line])"
proof -
  have "gotoLine far_away = Inr ''$J=G90 G21 X-10000.000 Y-10000.000 Z-10000.000 F20000''"
    by code_simp
  then show ?thesis by (simp add: payload_def outstandingLines_def)
qed

text \<open>
  The clean-up of unanswered lines puts a young entry back behind younger ones, so an
  answer may free the wrong slot: with lines sent at 0 s and at 89 s, a tick at 89.5 s and the
  answer to the first line, the tick at 90 s drops the slot of a line that was sent one second
  ago.
\<close>

theorem tick_forgets_a_young_line:
  "forgetStaleLines (90 * second)
     (acknowledged (forgetStaleLines (89 * second + 500 * millisecond) [0, 89 * second])) = []"
  by (simp add: lineAnswerTimeout_def outstandingLines_def acknowledged_def)

text \<open>A refused attempt trades the oldest entries of the books for new ones.\<close>

lemma refused_attempt_refreshes_the_books:
  "reserve [''M3'', ''G1''] 50 [1, 2, 3] = ([2, 3, 50], False)"
  by code_simp

end
