(* ===== verification/Bridge.thy ===== *)
theory Bridge
  imports Control
begin

text \<open>
  \<open>backend/internal/proxy/bridge.go\<close>: the state of the proxy and the operations its goroutines
  perform on it. The world outside is part of the state: the clock, whether a write to the
  serial port or to a connection succeeds, and what has gone over the wire so far, each write
  with its origin and the client that was attached when it was made. Log output is not
  modelled. An operation that a mutex makes atomic is one function.
\<close>

section \<open>Configuration\<close>

record bridge_config =
  cf_device :: string
  cf_baudrate :: int
  cf_port :: int
  cf_kick_old_client :: bool
  cf_device_retry :: duration
  cf_on_disconnect :: string
  cf_hold_settle :: duration
  cf_probe_identify :: duration
  cf_beam_confirm :: duration
  cf_silence_after :: duration
  cf_client_write_timeout :: duration
  cf_journal_path :: string
  cf_monitor_port :: int
  cf_beam_grace :: duration
  cf_stationary_beam :: duration
  cf_idle_poll :: duration

definition probeIdentify :: duration where "probeIdentify = 5 * second"
definition probeSettings :: duration where "probeSettings = 2 * second"

definition or_default :: "duration \<Rightarrow> duration \<Rightarrow> duration" where
  "or_default d x = (if x \<le> 0 then d else x)"

definition with_defaults :: "bridge_config \<Rightarrow> bridge_config" where
  "with_defaults c =
     c\<lparr>cf_device_retry := or_default (2 * second) (cf_device_retry c),
       cf_hold_settle := or_default (3 * second) (cf_hold_settle c),
       cf_probe_identify := or_default probeIdentify (cf_probe_identify c),
       cf_beam_confirm := or_default (5 * second) (cf_beam_confirm c),
       cf_on_disconnect := (if cf_on_disconnect c = [] then DisconnectReset else cf_on_disconnect c),
       cf_silence_after := or_default (10 * second) (cf_silence_after c),
       cf_client_write_timeout := or_default (5 * second) (cf_client_write_timeout c),
       cf_beam_grace := or_default second (cf_beam_grace c),
       cf_idle_poll := or_default second (cf_idle_poll c),
       cf_stationary_beam := (if cf_stationary_beam c < 0 then 0 else cf_stationary_beam c)\<rparr>"

section \<open>State\<close>

text \<open>A connection: which one it is, and the text of its remote address.\<close>

datatype conn = Conn nat (conn_addr: string)

datatype bridge_state =
  StateStopped | StateWaitingForDevice | StateListening | StateClientConnected | StateFault

text \<open>
  An error of a read or a write; \<open>isExpectedClose\<close> tells the first kind from the second.
\<close>

datatype io_error = ClosedError (error_text: string) | OtherError (error_text: string)

definition isExpectedClose :: "io_error \<Rightarrow> bool" where
  "isExpectedClose e \<longleftrightarrow> (case e of ClosedError _ \<Rightarrow> True | OtherError _ \<Rightarrow> False)"

text \<open>
  Who a write to the serial port came from: a client, \<open>writeOwn\<close>, \<open>sendLines\<close>, or the opening
  questions.
\<close>

datatype origin = FromClient conn | Own | Injected | Question

record wire_entry =
  we_origin :: origin
  we_bytes :: string
  we_client :: "conn option"
  we_reading :: machine

record world =
  wo_now :: instant
  wo_started :: instant
  wo_port_error :: "io_error option"
  wo_stalled :: "conn list"
  wo_broken :: "conn list"
  wo_deaf :: "nat list"
  wo_wire :: "wire_entry list"
  wo_received :: "(conn \<times> string) list"
  wo_closed :: "conn list"

record bridge =
  br_config :: bridge_config
  br_port :: "string option"
  br_client :: "conn option"
  br_dropped_by_us :: "conn option"
  br_state :: bridge_state
  br_device_path :: string
  br_client_addr :: string
  br_connected_since :: int
  br_last_error :: string
  br_last_intervention :: string
  br_stopping :: bool
  br_observer :: observer
  br_journal :: journal
  br_sent :: line_tail
  br_monitors :: monitors
  br_console :: console
  br_port_opened_at :: go_time
  br_probe_closed :: bool
  br_aim :: aiming_beam
  br_injected :: slots
  br_jobs :: job_tracker
  br_lines :: "64 word"
  br_rx :: "64 word"
  br_tx :: "64 word"
  br_rejected :: "64 word"
  br_handled :: "64 word"
  br_leaving :: "conn list"
  br_world :: world

text \<open>
  \<open>br_leaving\<close> holds the connections whose goroutine has finished its bookkeeping and is about
  to call \<open>onClientGone\<close>, which waits for the intervention lock.
\<close>

definition New :: "bridge_config \<Rightarrow> instant \<Rightarrow> bridge" where
  "New c now =
     \<lparr>br_config = with_defaults c, br_port = None, br_client = None, br_dropped_by_us = None,
      br_state = StateStopped, br_device_path = [], br_client_addr = [], br_connected_since = 0,
      br_last_error = [], br_last_intervention = [], br_stopping = False,
      br_observer = NewObserver, br_journal = NewJournal (cf_journal_path c),
      br_sent = newLineTail, br_monitors = newMonitors, br_console = newConsole,
      br_port_opened_at = None, br_probe_closed = False, br_aim = no_aim, br_injected = [],
      br_jobs = newJobTracker, br_lines = 0, br_rx = 0, br_tx = 0, br_rejected = 0,
      br_handled = 0, br_leaving = [],
      br_world = \<lparr>wo_now = now, wo_started = now, wo_port_error = None, wo_stalled = [],
                  wo_broken = [], wo_deaf = [], wo_wire = [], wo_received = [], wo_closed = []\<rparr>\<rparr>"

abbreviation br_now :: "bridge \<Rightarrow> instant" where
  "br_now b \<equiv> wo_now (br_world b)"

abbreviation br_machine :: "bridge \<Rightarrow> machine" where
  "br_machine b \<equiv> ob_machine (br_observer b)"

abbreviation br_wire :: "bridge \<Rightarrow> wire_entry list" where
  "br_wire b \<equiv> wo_wire (br_world b)"

definition uptime :: "bridge \<Rightarrow> int" where
  "uptime b = quot_zero (br_now b - wo_started (br_world b)) second"

section \<open>The record and the status\<close>

definition journal_event :: "event \<Rightarrow> bridge \<Rightarrow> bridge" where
  "journal_event e b = b\<lparr>br_journal := journal_Add (br_now b) (uptime b) e (br_journal b)\<rparr>"

definition noted :: "string \<Rightarrow> string \<Rightarrow> bridge \<Rightarrow> bridge" where
  "noted kind words b =
     journal_event
       (blank_event\<lparr>ev_kind := kind, ev_text := words, ev_state := mc_state (br_machine b)\<rparr>) b"

definition setState :: "bridge_state \<Rightarrow> bridge \<Rightarrow> bridge" where
  "setState s b = (if br_state b \<noteq> s then b\<lparr>br_state := s\<rparr> else b)"

definition setErrorUnlessClosed :: "io_error \<Rightarrow> bridge \<Rightarrow> bridge" where
  "setErrorUnlessClosed e b =
     (if isExpectedClose e then b else b\<lparr>br_last_error := error_text e\<rparr>)"

definition setError :: "string \<Rightarrow> bridge \<Rightarrow> bridge" where
  "setError e b = b\<lparr>br_last_error := e\<rparr>"

definition noteIntervention :: "string \<Rightarrow> bridge \<Rightarrow> bridge" where
  "noteIntervention what b =
     (let b1 = b\<lparr>br_last_intervention := what\<rparr>; m = br_machine b1;
          e = blank_event\<lparr>ev_kind := ''intervention'', ev_text := what, ev_state := mc_state m,
                          ev_context := tail_Lines (br_sent b1)\<rparr>
      in journal_event (if mc_has_position m then e\<lparr>ev_position := Some (mc_position m)\<rparr> else e) b1)"

definition laser_mode_warning :: string where
  "laser_mode_warning =
     ''laser mode ($32) is off: this controller treats the laser as a spindle, and a feed hold does not switch a spindle off''"

definition recordReport :: "report \<Rightarrow> machine \<Rightarrow> bridge \<Rightarrow> bridge" where
  "recordReport r m b =
     (let e0 = blank_event\<lparr>ev_kind := kind_text (r_kind r), ev_text := r_text r,
                           ev_code := r_code r, ev_state := mc_state m\<rparr>;
          e = (if mc_has_position m then e0\<lparr>ev_position := Some (mc_position m)\<rparr> else e0)
      in case r_kind r of
           KSetting \<Rightarrow>
             (if r_setting r = LaserMode \<and> mc_laser_mode m = SettingOff then
                journal_event
                  (blank_event\<lparr>ev_kind := ''fault'', ev_text := laser_mode_warning,
                               ev_state := mc_state m\<rparr>) b
              else b)
         | KOk \<Rightarrow>
             b\<lparr>br_injected := acknowledged (br_injected b),
               br_sent := fst (tail_Acknowledge (br_sent b))\<rparr>
         | KError \<Rightarrow>
             (let b1 = b\<lparr>br_injected := acknowledged (br_injected b)\<rparr>;
                  (sent1, line) = tail_Acknowledge (br_sent b1);
                  b2 = b1\<lparr>br_sent := sent1\<rparr>
              in journal_event (e\<lparr>ev_line := line, ev_context := tail_Lines sent1\<rparr>) b2)
         | KAlarm \<Rightarrow> journal_event (e\<lparr>ev_context := tail_Lines (br_sent b)\<rparr>) b
         | KWelcome \<Rightarrow>
             (let b1 = b\<lparr>br_sent := tail_Forget (br_sent b),
                         br_injected := forgetInjected (br_injected b)\<rparr>
              in journal_event
                   (e\<lparr>ev_kind := ''reset'', ev_text := ''the controller restarted: '' @ r_text r\<rparr>) b1)
         | _ \<Rightarrow> journal_event e b)"

section \<open>Writing\<close>

definition is_deaf :: "bridge \<Rightarrow> nat \<Rightarrow> bool" where
  "is_deaf b c \<longleftrightarrow> c \<in> set (wo_deaf (br_world b))"

definition transcribed :: "byte \<Rightarrow> string \<Rightarrow> bridge \<Rightarrow> bridge" where
  "transcribed mark data b =
     (let s = monitors_send (is_deaf b) (br_now b) mark data (br_monitors b) (br_console b)
      in b\<lparr>br_monitors := se_monitors s, br_console := se_console s\<rparr>)"

definition port_Write :: "origin \<Rightarrow> string \<Rightarrow> bridge \<Rightarrow> bridge \<times> io_error option" where
  \<comment> \<open>\<open>port.Write\<close>: all of it goes out, or the error of the day\<close>
  "port_Write who data b =
     (case wo_port_error (br_world b) of
        Some e \<Rightarrow> (b, Some e)
      | None \<Rightarrow>
          (b\<lparr>br_world := (br_world b)
               \<lparr>wo_wire := br_wire b @
                   [\<lparr>we_origin = who, we_bytes = data, we_client = br_client b,
                     we_reading = br_machine b\<rparr>]\<rparr>\<rparr>, None))"

definition writeOwn :: "byte \<Rightarrow> bridge \<Rightarrow> bridge \<times> io_error option" where
  "writeOwn cmd b =
     (case port_Write Own [cmd] b of
        (b1, Some e) \<Rightarrow> (b1, Some e)
      | (b1, None) \<Rightarrow> (transcribed (CHR ''*'') [cmd] b1, None))"

definition close_conn :: "conn \<Rightarrow> bridge \<Rightarrow> bridge" where
  "close_conn c b = b\<lparr>br_world := (br_world b)\<lparr>wo_closed := c # wo_closed (br_world b)\<rparr>\<rparr>"

definition hears :: "bridge \<Rightarrow> conn \<Rightarrow> bool" where
  "hears b c \<longleftrightarrow>
     c \<notin> set (wo_closed (br_world b) @ wo_broken (br_world b) @ wo_stalled (br_world b))"

definition deliver :: "conn \<Rightarrow> string \<Rightarrow> bridge \<Rightarrow> bridge" where
  "deliver c data b = b\<lparr>br_world := (br_world b)\<lparr>wo_received := wo_received (br_world b) @ [(c, data)]\<rparr>\<rparr>"

definition writeToClient :: "string \<Rightarrow> bridge \<Rightarrow> bridge" where
  "writeToClient data b =
     (case br_client b of
        None \<Rightarrow> b
      | Some c \<Rightarrow>
          if hears b c then deliver c data b
          else
            (let b1 = (if c \<notin> set (wo_closed (br_world b) @ wo_broken (br_world b)) then
                         setError (''client '' @ conn_addr c @ '' stopped accepting data; dropping it'') b
                       else b)
             in close_conn c b1))"

section \<open>The controller's output\<close>

definition observe :: "string \<Rightarrow> bridge \<Rightarrow> bridge" where
  "observe data b =
     (let (ob, notable) = observer_Write (br_now b) data (br_observer b)
      in fold (\<lambda>(r, m). recordReport r m) notable (b\<lparr>br_observer := ob\<rparr>))"

text \<open>One turn of the read loop of \<open>serveDevice\<close>.\<close>

definition device_output :: "string \<Rightarrow> bridge \<Rightarrow> bridge" where
  "device_output data b =
     (let b1 = b\<lparr>br_tx := br_tx b + of_nat (length data)\<rparr>
      in transcribed (CHR ''<'') data (observe data (writeToClient data b1)))"

section \<open>A client\<close>

definition DisconnectClient :: "bridge \<Rightarrow> bridge" where
  "DisconnectClient b = (case br_client b of None \<Rightarrow> b | Some c \<Rightarrow> close_conn c b)"

text \<open>\<open>serveClient\<close> up to \<open>readFromClient\<close>.\<close>

definition client_arrives :: "conn \<Rightarrow> bridge \<Rightarrow> bridge" where
  "client_arrives c b =
     (let attach =
        (\<lambda>b1. noted ''client'' (''connected: '' @ conn_addr c)
           (setState StateClientConnected
             (b1\<lparr>br_client := Some c, br_client_addr := conn_addr c,
                 br_connected_since := unix (br_now b1)\<rparr>)));
        fresh = (\<lambda>b1. b1\<lparr>br_sent := tail_Forget (br_sent b1)\<rparr>)
      in case br_client b of
           None \<Rightarrow> fresh (attach b)
         | Some prev \<Rightarrow>
             if \<not> cf_kick_old_client (br_config b) then
               close_conn c
                 (noted ''client''
                    (''refused '' @ conn_addr c @ ''; '' @ conn_addr prev @ '' still connected'')
                    (b\<lparr>br_rejected := br_rejected b + 1\<rparr>))
             else
               fresh (attach (close_conn prev
                 (noted ''client''
                    (''closed '' @ conn_addr prev @ '' to make room for '' @ conn_addr c) b))))"

definition count_newlines :: "string \<Rightarrow> nat" where
  "count_newlines s = length (filter (\<lambda>c. c = CHR 0x0A) s)"

text \<open>
  One turn of \<open>readFromClient\<close>, for data that was read without an error. The flag says whether
  the loop goes on.
\<close>

definition client_data :: "conn \<Rightarrow> string \<Rightarrow> bridge \<Rightarrow> bridge \<times> bool" where
  "client_data c data b =
     (if data = [] then (b, True)
      else
        (let b1 = b\<lparr>br_rx := br_rx b + of_nat (length data)\<rparr>
         in case br_port b1 of
              None \<Rightarrow> (setError ''client sent data while no serial port is open'' b1, False)
            | Some _ \<Rightarrow>
                (let b2 = b1\<lparr>br_lines := br_lines b1 + of_nat (count_newlines data),
                             br_sent := tail_Write data (br_sent b1)\<rparr>;
                     b3 = transcribed (CHR ''>'') data b2
                 in case port_Write (FromClient c) data b3 of
                      (b4, Some e) \<Rightarrow> (setErrorUnlessClosed e b4, False)
                    | (b4, None) \<Rightarrow> (b4, True))))"

definition record_job_note :: "string \<Rightarrow> bridge \<Rightarrow> bridge" where
  "record_job_note words b = (if words \<noteq> [] then noted ''job'' words b else b)"

definition end_job :: "string \<Rightarrow> bridge \<Rightarrow> bridge" where
  "end_job reason b =
     (let (jobs, words) = job_end reason (br_now b) (br_jobs b)
      in record_job_note words (b\<lparr>br_jobs := jobs\<rparr>))"

text \<open>\<open>serveClient\<close> from the return of \<open>readFromClient\<close> to the call of \<open>onClientGone\<close>.\<close>

definition client_leaves :: "conn \<Rightarrow> io_error option \<Rightarrow> bridge \<Rightarrow> bridge" where
  \<comment> \<open>with the error that ended the reading, if it was an error\<close>
  "client_leaves c err b0 =
     (let b = close_conn c (case err of None \<Rightarrow> b0 | Some e \<Rightarrow> setErrorUnlessClosed e b0)
      in if br_client b = Some c then
           (let b1 = b\<lparr>br_client := None, br_client_addr := [], br_connected_since := 0\<rparr>;
                b2 = setState (if br_port b1 \<noteq> None then StateListening else StateWaitingForDevice) b1;
                b3 = end_job ''ended with the client''
                       (noted ''client'' (''disconnected: '' @ conn_addr c) b2)
            in b3\<lparr>br_leaving := br_leaving b3 @ [c]\<rparr>)
         else b)"

section \<open>The serial port\<close>

definition beginProbe :: "bridge \<Rightarrow> bridge" where
  "beginProbe b = (if \<not> br_probe_closed b then b else b\<lparr>br_probe_closed := False\<rparr>)"

definition finishProbe :: "bridge \<Rightarrow> bridge" where
  "finishProbe b = (if br_probe_closed b then b else b\<lparr>br_probe_closed := True\<rparr>)"

definition closePort :: "bridge \<Rightarrow> bridge" where
  "closePort b = b\<lparr>br_port := None\<rparr>"

text \<open>\<open>openPort\<close> on an attempt that succeeds, followed by \<open>beginProbe\<close>.\<close>

definition port_opened :: "string \<Rightarrow> bridge \<Rightarrow> bridge" where
  "port_opened path b =
     (let b1 = b\<lparr>br_observer := observer_Reset (br_observer b)\<rparr>
      in if br_stopping b1 then b1
         else
           (let b2 = b1\<lparr>br_port := Some path, br_device_path := path,
                        br_port_opened_at := Some (br_now b1), br_last_error := []\<rparr>;
                b3 = noted ''device''
                       (''opened '' @ path @ '' at '' @ itoa (cf_baudrate (br_config b2)) @ '' baud'') b2;
                b4 = (if br_client b3 = None then setState StateListening b3 else b3)
            in beginProbe b4))"

text \<open>\<open>openPort\<close> on the first attempt of a call that fails.\<close>

definition port_missing :: "string \<Rightarrow> bridge \<Rightarrow> bridge" where
  "port_missing e b = finishProbe (setError e (setState StateWaitingForDevice b))"

text \<open>\<open>serveDevice\<close> after its read loop has ended, with the error that ended it if it matters.\<close>

definition port_lost :: "io_error option \<Rightarrow> bridge \<Rightarrow> bridge" where
  "port_lost err b =
     (let b1 = closePort (case err of None \<Rightarrow> b | Some e \<Rightarrow> setErrorUnlessClosed e b)
      in if br_stopping b1 then b1
         else DisconnectClient
                (noted ''device'' ''the serial port disappeared; the client was dropped with it'' b1))"

text \<open>The context is cancelled: the goroutine in \<open>Run\<close> that waits for it.\<close>

definition shut_down :: "bridge \<Rightarrow> bridge" where
  "shut_down b = DisconnectClient (closePort (b\<lparr>br_stopping := True\<rparr>))"

section \<open>The snapshot\<close>

definition controllerSilent :: "bridge \<Rightarrow> bool" where
  "controllerSilent b \<longleftrightarrow>
     (case br_port_opened_at b of
        None \<Rightarrow> False
      | Some opened \<Rightarrow>
          if mc_last_report_unix (br_machine b) = 0 then
            cf_silence_after (br_config b) < br_now b - opened
          else Silent (br_observer b) (br_now b) (cf_silence_after (br_config b)))"

record status =
  st_state :: bridge_state
  st_device :: string
  st_port :: int
  st_client :: string
  st_since :: int
  st_rx :: "64 word"
  st_tx :: "64 word"
  st_last_error :: string
  st_rejected :: "64 word"
  st_machine :: machine
  st_last_intervention :: string
  st_silent :: bool
  st_gibberish :: bool
  st_monitors :: nat
  st_job :: job

definition Status :: "bridge \<Rightarrow> status" where
  "Status b =
     \<lparr>st_state = br_state b, st_device = br_device_path b, st_port = cf_port (br_config b),
      st_client = br_client_addr b, st_since = br_connected_since b, st_rx = br_rx b,
      st_tx = br_tx b, st_last_error = br_last_error b, st_rejected = br_rejected b,
      st_machine = br_machine b, st_last_intervention = br_last_intervention b,
      st_silent = (br_device_path b \<noteq> [] \<and> controllerSilent b),
      st_gibberish = (br_device_path b \<noteq> [] \<and> Gibberish (br_observer b)),
      st_monitors = monitors_count (br_monitors b), st_job = job_current (br_jobs b)\<rparr>"

end
