(* ===== verification/Intervene.thy ===== *)
theory Intervene
  imports Bridge
begin

text \<open>
  \<open>backend/internal/proxy/intervene.go\<close>: carrying out the ladder of \<open>Decide\<close> against a machine
  that answers when it likes, and the opening questions. What the world does while one of
  these operations waits is a script: for every poll, what happened before each tick of the
  ticker and before the deadline. The theorems hold for every script.
\<close>

section \<open>What can happen while an operation waits\<close>

datatype happening =
    Heard string | Arrives conn | Sends conn string | Leaves conn "io_error option"
  | Elapsed duration | Aborted | PortFails "io_error option" | Stalls conn

definition client_sends :: "conn \<Rightarrow> string \<Rightarrow> bridge \<Rightarrow> bridge" where
  \<comment> \<open>one read of an attached client's goroutine, which leaves the loop if it cannot go on\<close>
  "client_sends c data b =
     (if br_client b = Some c \<and> c \<notin> set (wo_closed (br_world b)) then
        (case client_data c data b of
           (b1, True) \<Rightarrow> b1
         | (b1, False) \<Rightarrow> client_leaves c None b1)
      else b)"

fun happen :: "happening \<Rightarrow> bridge \<Rightarrow> bridge" where
  "happen (Heard data) b = (if br_port b = None then b else device_output data b)"
| "happen (Arrives c) b = client_arrives c b"
| "happen (Sends c data) b = client_sends c data b"
| "happen (Leaves c err) b = client_leaves c err b"
| "happen (Elapsed d) b = b\<lparr>br_world := (br_world b)\<lparr>wo_now := br_now b + d\<rparr>\<rparr>"
| "happen Aborted b = shut_down b"
| "happen (PortFails e) b = b\<lparr>br_world := (br_world b)\<lparr>wo_port_error := e\<rparr>\<rparr>"
| "happen (Stalls c) b = b\<lparr>br_world := (br_world b)\<lparr>wo_stalled := c # wo_stalled (br_world b)\<rparr>\<rparr>"

definition happens :: "happening list \<Rightarrow> bridge \<Rightarrow> bridge" where
  "happens hs b = fold happen hs b"

text \<open>Before each tick, and before the deadline.\<close>

type_synonym poll_script = "happening list list \<times> happening list"

definition aborted :: "bridge \<Rightarrow> bool" where
  "aborted b = br_stopping b"

definition interrupted :: "bridge \<Rightarrow> bool" where
  "interrupted b \<longleftrightarrow> br_client b \<noteq> None \<or> aborted b"

section \<open>Asking and waiting\<close>

fun poll_beam_loop :: "happening list list \<Rightarrow> happening list \<Rightarrow> bridge \<Rightarrow> bridge \<times> beam" where
  "poll_beam_loop [] final b =
     (case writeOwn statusReq b of
        (b1, Some e) \<Rightarrow> (b1, BeamUnknown)
      | (b1, None) \<Rightarrow> (let b2 = happens final b1 in (b2, mc_beam (br_machine b2))))"
| "poll_beam_loop (hs # ticks) final b =
     (case writeOwn statusReq b of
        (b1, Some e) \<Rightarrow> (b1, BeamUnknown)
      | (b1, None) \<Rightarrow>
          (let b2 = happens hs b1
           in if mc_beam (br_machine b2) \<noteq> BeamUnknown then (b2, mc_beam (br_machine b2))
              else if interrupted b2 then (b2, BeamUnknown)
              else poll_beam_loop ticks final b2))"

definition pollBeam :: "poll_script \<Rightarrow> bridge \<Rightarrow> bridge \<times> beam" where
  "pollBeam script b =
     poll_beam_loop (fst script) (snd script) (b\<lparr>br_observer := ForgetBeam (br_observer b)\<rparr>)"

fun wait_still_loop :: "happening list list \<Rightarrow> happening list \<Rightarrow> bridge \<Rightarrow> bridge \<times> bool" where
  "wait_still_loop [] final b =
     (case writeOwn statusReq b of
        (b1, Some e) \<Rightarrow> (b1, False)
      | (b1, None) \<Rightarrow> (happens final b1, False))"
| "wait_still_loop (hs # ticks) final b =
     (case writeOwn statusReq b of
        (b1, Some e) \<Rightarrow> (b1, False)
      | (b1, None) \<Rightarrow>
          (let b2 = happens hs b1
           in if AtRest (mc_state (br_machine b2)) then (b2, True)
              else if interrupted b2 then (b2, False)
              else wait_still_loop ticks final b2))"

definition waitUntilStill :: "poll_script \<Rightarrow> bridge \<Rightarrow> bridge \<times> bool" where
  "waitUntilStill script b = wait_still_loop (fst script) (snd script) b"

section \<open>Taking the machine over\<close>

definition oneLine :: "string \<Rightarrow> string" where
  "oneLine s =
     map (\<lambda>c. if c = CHR ''['' then CHR ''('' else if c = CHR '']'' then CHR '')''
              else if c = CHR 0x0D \<or> c = CHR 0x0A then CHR '' '' else c) s"

definition takeover_message :: "string \<Rightarrow> string" where
  "takeover_message why =
     ''[MSG:LaserBridgeOS took over: '' @ oneLine why @ '']'' @ [CHR 0x0D, CHR 0x0A]"

definition takeOverFromClient :: "string \<Rightarrow> bridge \<Rightarrow> bridge" where
  "takeOverFromClient why b0 =
     (let b = b0\<lparr>br_dropped_by_us := br_client b0\<rparr>
      in case br_client b of
           None \<Rightarrow> b
         | Some c \<Rightarrow>
             (let b1 = (if hears b c then deliver c (takeover_message why) b else b);
                  b2 = end_job ''stopped by the bridge'' b1;
                  b3 = noted ''intervention''
                         (''dropped '' @ conn_addr c @ '' because the bridge took the machine over: '' @ why) b2
              in close_conn c b3))"

section \<open>The ladder, carried out\<close>

text \<open>For one step: what happens while waiting for rest, and while asking afterwards.\<close>

type_synonym step_script = "poll_script \<times> poll_script"

definition step_byte :: "rung \<Rightarrow> byte" where
  "step_byte r =
     (case r of StepFeedHold \<Rightarrow> feedHold | StepSpindleStop \<Rightarrow> spindleStop | _ \<Rightarrow> softReset)"

definition situation_now :: "trigger \<Rightarrow> tried \<Rightarrow> bridge \<Rightarrow> situation" where
  "situation_now trig t b =
     \<lparr>si_policy = cf_on_disconnect (br_config b), si_trigger = trig,
      si_state = mc_state (br_machine b), si_beam = mc_beam (br_machine b),
      si_laser_mode = mc_laser_mode (br_machine b), si_tried = t\<rparr>"

definition record_step :: "decision \<Rightarrow> string \<Rightarrow> bridge \<Rightarrow> bridge" where
  "record_step d why b = noteIntervention (de_reason d @ '' ('' @ why @ '')'') b"

text \<open>
  The body of the second \<open>switch\<close> for a step that commands the machine. The flag says
  whether the command went out; otherwise the intervention returns.
\<close>

definition carry_out :: "decision \<Rightarrow> string \<Rightarrow> poll_script \<Rightarrow> bridge \<Rightarrow> bridge \<times> bool" where
  "carry_out d why wait b =
     (let waits = (de_step d = StepSoftReset \<and> de_wait_for_rest d);
          b1 = (if waits then fst (waitUntilStill wait b) else b)
      in if waits \<and> aborted b1 then (b1, False)
         else case writeOwn (step_byte (de_step d)) b1 of
                (b2, Some e) \<Rightarrow> (setError (error_text e) b2, False)
              | (b2, None) \<Rightarrow> (record_step d why b2, True))"

definition commanding :: "rung \<Rightarrow> bool" where
  "commanding r \<longleftrightarrow> r \<in> set [StepFeedHold, StepSpindleStop, StepSoftReset]"

fun intervene_loop ::
    "nat \<Rightarrow> step_script list \<Rightarrow> trigger \<Rightarrow> string \<Rightarrow> tried \<Rightarrow> bool \<Rightarrow> bridge \<Rightarrow> bridge" where
  "intervene_loop 0 scripts trig why t taken b = b"
| "intervene_loop (Suc n) scripts trig why t taken b =
     (if aborted b then b
      else
        (let d = Decide (situation_now trig t b);
             (wait, poll) = (case scripts of [] \<Rightarrow> (([], []), ([], [])) | s # _ \<Rightarrow> s)
         in if commanding (de_step d) then
              (let takes = (\<not> taken \<and> trig \<noteq> TriggerClientGone);
                   b1 = (if takes then takeOverFromClient why b else b);
                   (b2, sent) = carry_out d why wait b1
               in if \<not> sent then b2
                  else
                    (let b3 = fst (pollBeam poll b2)
                     in if br_client b3 \<noteq> None \<and> trig = TriggerClientGone then b3
                        else intervene_loop n (tl scripts) trig why
                               (spend_tried (de_step d) t) (taken \<or> takes) b3))
            else if de_step d = StepUnconfirmed then record_step d why b
            else b))"

definition intervene :: "step_script list \<Rightarrow> trigger \<Rightarrow> string \<Rightarrow> bridge \<Rightarrow> bridge" where
  "intervene scripts trig why b = intervene_loop 5 scripts trig why nothing_tried False b"

definition onClientGone :: "step_script list \<Rightarrow> conn \<Rightarrow> bridge \<Rightarrow> bridge" where
  "onClientGone scripts c b =
     (let counted = (\<lambda>x. x\<lparr>br_handled := br_handled x + 1\<rparr>)
      in if aborted b then counted b
         else if br_dropped_by_us b = Some c then counted (b\<lparr>br_dropped_by_us := None\<rparr>)
         else if br_port b = None then counted b
         else counted (intervene scripts TriggerClientGone ''the client disconnected'' b))"

section \<open>The opening questions\<close>

fun answers_loop :: "happening list list \<Rightarrow> bridge \<Rightarrow> bridge \<times> bool" where
  "answers_loop [] b = (b, False)"
| "answers_loop (hs # ticks) b =
     (let b1 = happens hs b
      in if interrupted b1 then (b1, False)
         else if Gibberish (br_observer b1) then (b1, False)
         else if 0 < mc_reports (br_machine b1) \<or> 0 < mc_resets (br_machine b1) then (b1, True)
         else answers_loop ticks b1)"

definition controller_identity :: "machine \<Rightarrow> string" where
  "controller_identity m =
     (if mc_firmware m \<noteq> [] then ''controller: '' @ mc_firmware m
      else ''controller did not identify itself'')
     @ (if mc_options m \<noteq> [] then '' ('' @ mc_options m @ '')'' else [])
     @ (case mc_laser_mode m of
          SettingOn \<Rightarrow> ''; laser mode ($32) is on''
        | SettingOff \<Rightarrow> ''; laser mode ($32) is OFF - a feed hold will not switch the output off''
        | SettingUnknown \<Rightarrow> ''; laser mode ($32) unknown'')"

definition noteController :: "bridge \<Rightarrow> bridge" where
  "noteController b = noted ''device'' (controller_identity (br_machine b)) b"

fun ask_questions :: "(string \<times> happening list) list \<Rightarrow> bridge \<Rightarrow> bridge \<times> bool" where
  "ask_questions [] b = (b, True)"
| "ask_questions ((q, hs) # rest) b =
     (if interrupted b then (b, False)
      else case port_Write Question q b of
             (b1, Some e) \<Rightarrow> (b1, False)
           | (b1, None) \<Rightarrow> ask_questions rest (happens hs (transcribed (CHR ''*'') q b1)))"

fun settings_loop :: "happening list list \<Rightarrow> bridge \<Rightarrow> bridge" where
  "settings_loop [] b = noteController b"
| "settings_loop (hs # ticks) b =
     (let b1 = happens hs b
      in if interrupted b1 then b1
         else if mc_laser_mode (br_machine b1) \<noteq> SettingUnknown then noteController b1
         else settings_loop ticks b1)"

record probe_script =
  pr_identify :: "happening list list"
  pr_between :: "happening list"
  pr_after :: "happening list"
  pr_settings :: "happening list list"

definition probeController :: "probe_script \<Rightarrow> bridge \<Rightarrow> bridge" where
  "probeController script b =
     finishProbe
       (if interrupted b then b
        else
          (case answers_loop (pr_identify script) b of
             (b1, False) \<Rightarrow> noteController b1
           | (b1, True) \<Rightarrow>
               (case ask_questions [(''$I'' @ [CHR 0x0A], pr_between script),
                                    (''$$'' @ [CHR 0x0A], pr_after script)] b1 of
                  (b2, False) \<Rightarrow> b2
                | (b2, True) \<Rightarrow> settings_loop (pr_settings script) b2)))"

section \<open>Frames\<close>

lemmas bookkeeping_defs =
  noted_def journal_event_def setState_def setError_def setErrorUnlessClosed_def close_conn_def
  deliver_def end_job_def record_job_note_def case_prod_beta

lemma takeOver_frame [simp]:
  "br_observer (takeOverFromClient why b) = br_observer b"
  "br_wire (takeOverFromClient why b) = br_wire b"
  "br_client (takeOverFromClient why b) = br_client b"
  "br_config (takeOverFromClient why b) = br_config b"
  "br_stopping (takeOverFromClient why b) = br_stopping b"
  "br_port (takeOverFromClient why b) = br_port b"
  "br_injected (takeOverFromClient why b) = br_injected b"
  "wo_now (br_world (takeOverFromClient why b)) = wo_now (br_world b)"
  "wo_port_error (br_world (takeOverFromClient why b)) = wo_port_error (br_world b)"
  by (simp_all add: takeOverFromClient_def bookkeeping_defs Let_def split: option.splits)

text \<open>Reading along changes what the bridge knows, and nothing it is connected to.\<close>

definition connections where
  "connections b =
     (br_config b, br_port b, br_client b, br_dropped_by_us b, br_stopping b, br_aim b,
      br_leaving b, br_probe_closed b, br_jobs b, br_rx b, br_lines b)"

lemma recordReport_frame:
  "br_world (recordReport r m b) = br_world b" "br_observer (recordReport r m b) = br_observer b"
  "connections (recordReport r m b) = connections b"
  by (simp_all add: recordReport_def journal_event_def connections_def Let_def case_prod_beta
      split: kind.splits)

lemma observe_frame:
  "br_world (observe data b) = br_world b"
  "br_observer (observe data b) = fst (observer_Write (br_now b) data (br_observer b))"
  "connections (observe data b) = connections b"
proof -
  have fold: "br_world (fold (\<lambda>(r, m). recordReport r m) ns x) = br_world x
      \<and> br_observer (fold (\<lambda>(r, m). recordReport r m) ns x) = br_observer x
      \<and> connections (fold (\<lambda>(r, m). recordReport r m) ns x) = connections x" for ns x
    by (induction ns arbitrary: x) (auto simp: recordReport_frame)
  show "br_world (observe data b) = br_world b"
    "br_observer (observe data b) = fst (observer_Write (br_now b) data (br_observer b))"
    by (simp_all add: observe_def case_prod_beta fold)
  show "connections (observe data b) = connections b"
    by (simp add: observe_def case_prod_beta fold) (simp add: connections_def)
qed

lemma writeToClient_frame:
  "br_observer (writeToClient data b) = br_observer b" "br_now (writeToClient data b) = br_now b"
  "br_wire (writeToClient data b) = br_wire b"
  "wo_port_error (br_world (writeToClient data b)) = wo_port_error (br_world b)"
  "connections (writeToClient data b) = connections b"
  by (simp_all add: writeToClient_def bookkeeping_defs connections_def Let_def split: option.splits)

lemma device_output_frame:
  "br_observer (device_output data b) = fst (observer_Write (br_now b) data (br_observer b))"
  "br_wire (device_output data b) = br_wire b" "br_now (device_output data b) = br_now b"
  "wo_port_error (br_world (device_output data b)) = wo_port_error (br_world b)"
  "br_world (device_output data b) = br_world (writeToClient data b)"
proof -
  let ?x = "writeToClient data (b\<lparr>br_tx := br_tx b + of_nat (length data)\<rparr>)"
  have out: "device_output data b = transcribed (CHR ''<'') data (observe data ?x)"
    by (simp add: device_output_def Let_def)
  have kept: "br_world (transcribed m d x) = br_world x" "br_observer (transcribed m d x) = br_observer x"
    for m d x by (simp_all add: transcribed_def Let_def)
  have tx: "br_world ?x = br_world (writeToClient data b)"
    by (simp add: writeToClient_def bookkeeping_defs hears_def Let_def split: option.splits)
  show "br_observer (device_output data b) = fst (observer_Write (br_now b) data (br_observer b))"
    by (simp add: out kept observe_frame writeToClient_frame)
  show "br_world (device_output data b) = br_world (writeToClient data b)"
    by (simp add: out kept observe_frame tx)
  then show "br_wire (device_output data b) = br_wire b" "br_now (device_output data b) = br_now b"
    "wo_port_error (br_world (device_output data b)) = wo_port_error (br_world b)"
    by (simp_all add: writeToClient_frame)
qed

lemma device_output_connections: "connections (device_output data b) = connections b"
proof -
  have "connections (transcribed m d x) = connections x" "connections (x\<lparr>br_tx := n\<rparr>) = connections x"
    for m d x n by (simp_all add: transcribed_def connections_def Let_def)
  then show ?thesis
    by (simp add: device_output_def Let_def observe_frame writeToClient_frame)
qed

end
