(* ===== verification/Operator.thy ===== *)
theory Operator
  imports Intervene
begin

text \<open>
  \<open>sendLines\<close> and \<open>Do\<close> of \<open>backend/internal/proxy/control.go\<close>: what an operator may ask for
  through the web interface.
\<close>

section \<open>Sending a line of our own\<close>

text \<open>
  The two halves of \<open>sendLines\<close>: the second pair of eyes on the rule, and everything after
  it. No lock is held from the one to the other.
\<close>

definition may_send :: "bridge \<Rightarrow> bool" where
  "may_send b \<longleftrightarrow> br_client b = None"

definition send_reserved :: "string list \<Rightarrow> bridge \<Rightarrow> bridge \<times> control_error option" where
  "send_reserved ls b =
     (case reserve ls (br_now b) (br_injected b) of
        (ch, False) \<Rightarrow> (b\<lparr>br_injected := ch\<rparr>, Some ErrStillWorking)
      | (ch, True) \<Rightarrow>
          (case port_Write Injected (payload ls) (b\<lparr>br_injected := ch\<rparr>) of
             (b1, Some e) \<Rightarrow>
               (b1\<lparr>br_injected := release_slots (length ls) (br_injected b1)\<rparr>,
                Some (ErrWrite (error_text e)))
           | (b1, None) \<Rightarrow> (transcribed (CHR ''*'') (payload ls) b1, None)))"

definition sendLines :: "string list \<Rightarrow> bridge \<Rightarrow> bridge \<times> control_error option" where
  "sendLines ls b = (if \<not> may_send b then (b, Some ErrClientInCharge) else send_reserved ls b)"

definition sendLine :: "string \<Rightarrow> bridge \<Rightarrow> bridge \<times> control_error option" where
  "sendLine line b = sendLines [line] b"

section \<open>Do\<close>

definition Aiming :: "bridge \<Rightarrow> bool" where
  "Aiming b = aim_live (br_aim b) (br_now b)"

definition commanded ::
    "command \<Rightarrow> string \<Rightarrow> string \<Rightarrow> bridge \<times> control_error option \<Rightarrow> bridge \<times> control_error option" where
  "commanded cmd holder words r =
     (case r of
        (b, Some e) \<Rightarrow> (b, Some e)
      | (b, None) \<Rightarrow>
          (noted ''command''
             (command_text cmd @ '' from '' @ (if holder = [] then ''the appliance'' else holder)
              @ '': '' @ words) b, None))"

definition own_command :: "byte \<Rightarrow> bridge \<Rightarrow> bridge \<times> control_error option" where
  "own_command c b =
     (case writeOwn c b of
        (b1, Some e) \<Rightarrow> (b1, Some (ErrWrite (error_text e)))
      | (b1, None) \<Rightarrow> (b1, None))"

definition send_composed ::
    "command \<Rightarrow> string \<Rightarrow> string \<Rightarrow> control_error + string \<Rightarrow> bridge \<Rightarrow> bridge \<times> control_error option" where
  "send_composed cmd holder tag line b =
     (case line of
        Inl e \<Rightarrow> (b, Some e)
      | Inr l \<Rightarrow> commanded cmd holder (l @ tag) (sendLine l b))"

definition stop_machine :: "bridge \<Rightarrow> bridge \<times> control_error option" where
  "stop_machine b =
     (let b1 = takeOverFromClient ''stopped from the web interface'' b;
          b2 = b1\<lparr>br_aim := aim_release (br_aim b1)\<rparr>
      in case own_command softReset b2 of
           (b3, Some e) \<Rightarrow> (b3, Some e)
         | (b3, None) \<Rightarrow> (noteIntervention ''soft reset, asked for from the web interface'' b3, None))"

definition aim_on :: "string \<Rightarrow> int \<Rightarrow> bridge \<Rightarrow> bridge \<times> control_error option" where
  "aim_on holder percent b =
     (if percent < 1 \<or> 100 < percent then
        (b, Some (ErrRefused ''aiming power must be between 1 and 100 percent''))
      else
        (case aim_hold holder percent (br_now b) (br_aim b) of
           (a, Inl e) \<Rightarrow> (b\<lparr>br_aim := a\<rparr>, Some e)
         | (a, Inr False) \<Rightarrow> (b\<lparr>br_aim := a\<rparr>, None)
         | (a, Inr True) \<Rightarrow>
             (let lines = aimLines (spindleFor (br_machine b) percent)
              in case sendLines lines (b\<lparr>br_aim := a\<rparr>) of
                   (b1, Some e) \<Rightarrow> (b1\<lparr>br_aim := aim_release (br_aim b1)\<rparr>, Some e)
                 | (b1, None) \<Rightarrow>
                     commanded CommandAim holder
                       (join lines ''; '' @ '' (aiming beam at '' @ itoa percent @ ''%)'') (b1, None))))"

definition aim_off :: "string \<Rightarrow> bridge \<Rightarrow> bridge \<times> control_error option" where
  "aim_off holder b =
     (case aim_releaseBy holder (br_aim b) of
        (a, Some e) \<Rightarrow> (b\<lparr>br_aim := a\<rparr>, Some e)
      | (a, None) \<Rightarrow> commanded CommandAimOff holder ''M5'' (sendLine ''M5'' (b\<lparr>br_aim := a\<rparr>)))"

definition Do :: "command_request \<Rightarrow> bridge \<Rightarrow> bridge \<times> control_error option" where
  "Do rq b =
     (let cmd = rq_command rq; holder = rq_holder rq
      in if br_port b = None then (b, Some ErrNoPort)
         else if cmd = CommandStop then stop_machine b
         else if br_client b \<noteq> None then (b, Some ErrClientInCharge)
         else
           (case cmd of
              CommandHold \<Rightarrow> commanded cmd holder ''feed hold'' (own_command feedHold b)
            | CommandResume \<Rightarrow> commanded cmd holder ''resume'' (own_command resume b)
            | CommandJogCancel \<Rightarrow> commanded cmd holder ''jog cancelled'' (own_command jogCancel b)
            | CommandHome \<Rightarrow> commanded cmd holder ''$H'' (sendLine ''$H'' b)
            | CommandUnlock \<Rightarrow> commanded cmd holder ''$X'' (sendLine ''$X'' b)
            | CommandJog \<Rightarrow>
                send_composed cmd holder [] (jogLine (rq_axis rq) (rq_distance rq) (rq_feed rq)) b
            | CommandGoTo \<Rightarrow> send_composed cmd holder [] (gotoLine rq) b
            | CommandZero \<Rightarrow> send_composed cmd holder [] (zeroLine (rq_axis rq)) b
            | CommandSend \<Rightarrow> send_composed cmd holder '' (typed)'' (typedLine (rq_line rq)) b
            | CommandAim \<Rightarrow> aim_on holder (rq_percent rq) b
            | CommandAimOff \<Rightarrow> aim_off holder b
            | CommandStop \<Rightarrow> (b, None)
            | CommandOther s \<Rightarrow> (b, Some (ErrUnknownCommand cmd))))"

end
