(* ===== verification/Supervise.thy ===== *)
theory Supervise
  imports Operator
begin

text \<open>
  \<open>backend/internal/proxy/supervise.go\<close>: the standing watch over the laser, one function for
  one turn of its loop. The loop's local variables are the record \<open>watcher\<close>.
\<close>

definition beamEvidenceReports :: int where "beamEvidenceReports = 30"

record watcher =
  wa_silence_reported :: bool
  wa_stale_reported :: bool
  wa_beam_on_since :: go_time
  wa_moved_at :: go_time
  wa_last_position :: position

definition new_watcher :: watcher where
  "new_watcher =
     \<lparr>wa_silence_reported = False, wa_stale_reported = False, wa_beam_on_since = None,
      wa_moved_at = None, wa_last_position = no_position\<rparr>"

text \<open>Go compares positions as it compares floats: minus zero equals zero, NaN nothing.\<close>

definition same_position :: "position \<Rightarrow> position \<Rightarrow> bool" where
  "same_position p q \<longleftrightarrow>
     f_eq (pos_x p) (pos_x q) \<and> f_eq (pos_y p) (pos_y q) \<and> f_eq (pos_z p) (pos_z q)"

definition since_longer :: "instant \<Rightarrow> go_time \<Rightarrow> duration \<Rightarrow> bool" where
  \<comment> \<open>\<open>now.Sub(t) > d\<close>; the zero time lies further back than any duration reaches\<close>
  "since_longer now t d \<longleftrightarrow> (case t of None \<Rightarrow> True | Some u \<Rightarrow> d < now - u)"

section \<open>Before the beam is looked at\<close>

definition watch_silence :: "watcher \<Rightarrow> bridge \<Rightarrow> watcher \<times> bridge" where
  "watch_silence w b =
     (let silent = controllerSilent b
      in if silent \<noteq> wa_silence_reported w then
           (w\<lparr>wa_silence_reported := silent\<rparr>,
            if silent then noted ''fault'' ''the controller stopped answering'' b else b)
         else (w, b))"

definition watch_job :: "machine \<Rightarrow> bridge \<Rightarrow> bridge" where
  "watch_job m b =
     (let (jobs, words) =
        job_observe \<lparr>sg_machine = m, sg_client = (br_client b \<noteq> None), sg_lines = br_lines b,
                     sg_bytes = br_rx b, sg_now = br_now b, sg_uptime = uptime b\<rparr> (br_jobs b)
      in record_job_note words (b\<lparr>br_jobs := jobs\<rparr>))"

definition watch_position :: "machine \<Rightarrow> instant \<Rightarrow> watcher \<Rightarrow> watcher" where
  "watch_position m now w =
     (if mc_has_position m
         \<and> (\<not> same_position (mc_position m) (wa_last_position w) \<or> wa_moved_at w = None) then
        w\<lparr>wa_last_position := mc_position m, wa_moved_at := Some now\<rparr>
      else w)"

definition watch_lease :: "bridge \<Rightarrow> bridge" where
  "watch_lease b =
     (let (a, over) = aim_expired (br_now b) (br_aim b); b1 = b\<lparr>br_aim := a\<rparr>
      in if over then
           noted ''aim'' ''the aiming beam was released: nobody renewed it''
             (fst (sendLine ''M5'' b1))
         else b1)"

section \<open>What the watch makes of the beam\<close>

datatype verdict = NothingToDo | StaleEvidence | Act trigger

definition judge :: "machine \<Rightarrow> instant \<Rightarrow> watcher \<Rightarrow> bridge \<Rightarrow> verdict" where
  \<comment> \<open>the \<open>switch\<close> of \<open>watch\<close>, with \<open>beamOnSince\<close> as set just before\<close>
  "judge m now w b =
     (let c = br_config b
      in if br_client b = None \<and> since_longer now (wa_beam_on_since w) (cf_beam_grace c) then
           Act TriggerBeamUnattended
         else if 0 < cf_stationary_beam c \<and> mc_has_position m
             \<and> since_longer now (wa_moved_at w) (cf_stationary_beam c)
             \<and> since_longer now (wa_beam_on_since w) (cf_stationary_beam c) then
           (if mc_beam_unix m = 0 \<or> beamEvidenceReports < mc_reports m - mc_beam_reports m then
              StaleEvidence
            else Act TriggerBeamStationary)
         else NothingToDo)"

definition stale_words :: string where
  "stale_words =
     ''the laser was reported on and the machine has not moved, but the controller has said nothing about its outputs since; not acting on that''"

text \<open>The sentence for the record.\<close>

definition act_words :: "trigger \<Rightarrow> machine \<Rightarrow> instant \<Rightarrow> bridge \<Rightarrow> string" where
  "act_words trig m now b =
     (if trig = TriggerBeamUnattended then ''the laser was on with nobody connected''
      else ''the laser was on and the machine had not moved for ''
        @ duration_string (cf_stationary_beam (br_config b)) @ '' (last reported on ''
        @ duration_string (duration_round (now - mc_beam_unix m * second) second) @ '' ago, S''
        @ fmt_shortest (mc_spindle m) @ '')'')"

text \<open>
  One turn of the loop. \<open>busy\<close> says that \<open>TryLock\<close> failed: the disconnect handler is at work.
\<close>

definition watch_tick ::
    "bool \<Rightarrow> step_script list \<Rightarrow> watcher \<Rightarrow> bridge \<Rightarrow> watcher \<times> bridge" where
  "watch_tick busy scripts w0 b0 =
     (if br_port b0 = None then (w0\<lparr>wa_beam_on_since := None, wa_moved_at := None\<rparr>, b0)
      else
        (let quiet = Quiet (br_observer b0) (br_now b0) (cf_idle_poll (br_config b0));
             (b1, failed) = (if quiet then (case writeOwn statusReq b0 of
                                (x, Some e) \<Rightarrow> (x, True) | (x, None) \<Rightarrow> (x, False))
                             else (b0, False))
         in if failed then (w0, b1)
            else
              (let (w2, b2) = watch_silence w0 b1;
                   m = br_machine b2; now = br_now b2;
                   b3 = watch_job m (b2\<lparr>br_injected := forgetStaleLines now (br_injected b2)\<rparr>);
                   w3 = watch_position m now w2;
                   b4 = watch_lease b3
               in if mc_beam m \<noteq> BeamOn then (w3\<lparr>wa_beam_on_since := None\<rparr>, b4)
                  else if aim_live (br_aim b4) now then (w3\<lparr>wa_beam_on_since := None\<rparr>, b4)
                  else
                    (let w4 = (if wa_beam_on_since w3 = None then w3\<lparr>wa_beam_on_since := Some now\<rparr>
                               else w3)
                     in if cf_on_disconnect (br_config b4) = DisconnectNone then (w4, b4)
                        else
                          (case judge m now w4 b4 of
                             NothingToDo \<Rightarrow> (w4, b4)
                           | StaleEvidence \<Rightarrow>
                               (w4\<lparr>wa_stale_reported := True\<rparr>,
                                if wa_stale_reported w4 then b4 else noted ''fault'' stale_words b4)
                           | Act trig \<Rightarrow>
                               (let w5 = (if trig = TriggerBeamStationary
                                          then w4\<lparr>wa_stale_reported := False\<rparr> else w4);
                                    why = act_words trig m now b4
                                in if busy then (w5, b4)
                                   else (w5\<lparr>wa_beam_on_since := None, wa_moved_at := None\<rparr>,
                                         intervene scripts trig why (noted ''fault'' why b4))))))))"

end
