(* ===== verification/Bridge_System.thy ===== *)
theory Bridge_System
  imports Supervise
begin

text \<open>
  The bridge as a system of concurrent activities: a step relation whose steps are the
  operations of the other theories, taken in any order, and the contract \<open>bridge_invariant\<close>.
  Whatever the primitive updates keep, every operation, every intervention under every script
  and every run of the system keeps; the contract is interpreted for the bounds of all the
  buffers, for what may go over the wire, and for the configuration.
\<close>

section \<open>Steps\<close>

type_synonym system = "watcher \<times> bridge"

inductive bridge_step :: "system \<Rightarrow> system \<Rightarrow> bool" where
  step_happen: "bridge_step (w, b) (w, happen h b)"
| step_opened: "br_port b = None \<Longrightarrow> \<not> br_stopping b \<Longrightarrow> bridge_step (w, b) (w, port_opened path b)"
| step_missing: "br_port b = None \<Longrightarrow> \<not> br_stopping b \<Longrightarrow> bridge_step (w, b) (w, port_missing e b)"
| step_lost: "bridge_step (w, b) (w, port_lost err b)"
| step_probe: "br_port b \<noteq> None \<Longrightarrow> bridge_step (w, b) (w, probeController ps b)"
| step_gone: "br_leaving b = c # rest \<Longrightarrow>
    bridge_step (w, b) (w, onClientGone scripts c (b\<lparr>br_leaving := rest\<rparr>))"
| step_watch: "bridge_step (w, b) (watch_tick busy scripts w b)"
| step_do: "bridge_step (w, b) (w, fst (Do rq b))"
| step_monitor: "bridge_step (w, b) (w, b\<lparr>br_monitors := monitors_add n (br_monitors b)\<rparr>)"
| step_monitor_gone: "bridge_step (w, b) (w, b\<lparr>br_monitors := monitors_remove n (br_monitors b)\<rparr>)"
| step_console: "bridge_step (w, b)
    (w, b\<lparr>br_console := snd (console_since after (br_now b) (br_console b))\<rparr>)"
| step_write: "bridge_step (w, b) (w, b\<lparr>br_journal := fst (write_turn (br_journal b))\<rparr>)"

inductive_cases bridge_stepE: "bridge_step s s'"

inductive reachable :: "bridge_config \<Rightarrow> system \<Rightarrow> bool" for c where
  reachable_start: "reachable c (new_watcher, New c now)"
| reachable_step: "reachable c s \<Longrightarrow> bridge_step s s' \<Longrightarrow> reachable c s'"

section \<open>Contract: an invariant of the bridge\<close>

text \<open>What an invariant of the contract may talk about.\<close>

definition bridge_core where
  "bridge_core b =
     (br_config b, br_observer b, br_journal b, br_sent b, br_monitors b, br_console b,
      br_injected b, br_jobs b, br_wire b)"

definition own_bytes :: "byte list" where
  "own_bytes = [feedHold, statusReq, softReset, resume, jogCancel, spindleStop]"

definition beam_evidence :: "machine \<Rightarrow> bool" where
  "beam_evidence m \<longleftrightarrow> mc_beam m = BeamOn \<and> mc_state m = StateHold"

text \<open>
  The first half covers what the world does to the bridge: the controller speaks, clients
  come, send and go. The second half adds what the bridge does of its own accord.
\<close>

locale world_invariant =
  fixes inv :: "bridge \<Rightarrow> bool"
  assumes core: "bridge_core b = bridge_core b' \<Longrightarrow> inv b \<Longrightarrow> inv b'"
    and keep_journal: "inv b \<Longrightarrow> inv (journal_event e b)"
    and keep_transcribed: "inv b \<Longrightarrow> inv (transcribed mark data b)"
    and keep_observe: "inv b \<Longrightarrow>
      inv (b\<lparr>br_observer := fst (observer_Write now data (br_observer b))\<rparr>)"
    and keep_answered: "inv b \<Longrightarrow> inv (b\<lparr>br_sent := fst (tail_Acknowledge (br_sent b))\<rparr>)"
    and keep_forgotten: "inv b \<Longrightarrow> inv (b\<lparr>br_sent := tail_Forget (br_sent b)\<rparr>)"
    and keep_tail: "inv b \<Longrightarrow> inv (b\<lparr>br_sent := tail_Write data (br_sent b)\<rparr>)"
    and keep_slots: "inv b \<Longrightarrow> length ch \<le> length (br_injected b) \<Longrightarrow> inv (b\<lparr>br_injected := ch\<rparr>)"
    and keep_job_end: "inv b \<Longrightarrow> inv (b\<lparr>br_jobs := fst (job_end why now (br_jobs b))\<rparr>)"
    and keep_client: "inv b \<Longrightarrow> br_client b = Some cl \<Longrightarrow> inv (fst (port_Write (FromClient cl) data b))"
begin

lemma keep_core: "inv b \<Longrightarrow> bridge_core b' = bridge_core b \<Longrightarrow> inv b'"
  using core by metis

lemma keep_noted: "inv b \<Longrightarrow> inv (noted kind words b)"
  by (simp add: noted_def keep_journal)

lemma keep_setState: "inv b \<Longrightarrow> inv (setState s b)"
  by (erule keep_core) (simp add: setState_def bridge_core_def)

lemma keep_setError: "inv b \<Longrightarrow> inv (setError e b)" "inv b \<Longrightarrow> inv (setErrorUnlessClosed x b)"
  by (erule keep_core, simp add: setError_def setErrorUnlessClosed_def bridge_core_def)+

lemma keep_close: "inv b \<Longrightarrow> inv (close_conn c b)"
  by (erule keep_core) (simp add: close_conn_def bridge_core_def)

lemma keep_deliver: "inv b \<Longrightarrow> inv (deliver c data b)"
  by (erule keep_core) (simp add: deliver_def bridge_core_def)

lemma keep_noteIntervention: "inv b \<Longrightarrow> inv (noteIntervention w b)"
proof -
  assume "inv b"
  then have "inv (b\<lparr>br_last_intervention := w\<rparr>)"
    by (rule keep_core) (simp add: bridge_core_def)
  then show ?thesis by (simp add: noteIntervention_def Let_def keep_journal)
qed

lemma keep_recordReport:
  assumes "inv b"
  shows "inv (recordReport r m b)"
proof -
  have ack: "inv (x\<lparr>br_injected := acknowledged (br_injected x)\<rparr>)" if "inv x" for x
    using that by (rule keep_slots) (simp add: acknowledged_def split: list.splits)
  have sent: "inv (x\<lparr>br_injected := acknowledged (br_injected x),
                     br_sent := fst (tail_Acknowledge (br_sent x))\<rparr>)" if "inv x" for x
    using keep_answered [OF ack [OF that]] by simp
  have fresh: "inv (x\<lparr>br_sent := tail_Forget (br_sent x),
                      br_injected := forgetInjected (br_injected x)\<rparr>)" if "inv x" for x
    using keep_slots [OF keep_forgotten [OF that], of "[]"] by (simp add: forgetInjected_def)
  show ?thesis
    using assms ack sent fresh
    by (auto simp: recordReport_def Let_def keep_journal case_prod_beta split: kind.splits)
qed

lemma keep_observed: "inv b \<Longrightarrow> inv (observe data b)"
proof -
  have "inv (fold (\<lambda>(r, m). recordReport r m) ns x)" if "inv x" for ns x
    using that by (induction ns arbitrary: x) (auto simp: keep_recordReport)
  then show "inv b \<Longrightarrow> inv (observe data b)"
    using keep_observe [of b "br_now b" data] by (simp add: observe_def case_prod_beta)
qed

lemma keep_writeToClient: "inv b \<Longrightarrow> inv (writeToClient data b)"
  by (auto simp: writeToClient_def Let_def keep_deliver keep_close keep_setError split: option.splits)

lemma keep_device_output: "inv b \<Longrightarrow> inv (device_output data b)"
proof -
  assume "inv b"
  then have "inv (b\<lparr>br_tx := br_tx b + of_nat (length data)\<rparr>)"
    by (rule keep_core) (simp add: bridge_core_def)
  then show ?thesis
    by (simp add: device_output_def Let_def keep_transcribed keep_observed keep_writeToClient)
qed

lemma keep_DisconnectClient: "inv b \<Longrightarrow> inv (DisconnectClient b)"
  by (auto simp: DisconnectClient_def keep_close split: option.splits)

lemma keep_attached:
  assumes "inv b"
  shows "inv (b\<lparr>br_client := x, br_client_addr := a, br_connected_since := s\<rparr>)"
    "inv (b\<lparr>br_rejected := n\<rparr>)" "inv (b\<lparr>br_leaving := l\<rparr>)" "inv (b\<lparr>br_handled := n\<rparr>)"
    "inv (b\<lparr>br_dropped_by_us := x\<rparr>)" "inv (b\<lparr>br_stopping := f\<rparr>)" "inv (b\<lparr>br_port := p\<rparr>)"
    "inv (b\<lparr>br_probe_closed := f\<rparr>)" "inv (b\<lparr>br_aim := aim\<rparr>)" "inv (b\<lparr>br_rx := n\<rparr>)"
    "inv (b\<lparr>br_lines := n\<rparr>)"
  using assms by (auto intro: keep_core simp: bridge_core_def)

lemma keep_client_arrives: "inv b \<Longrightarrow> inv (client_arrives c b)"
  unfolding client_arrives_def Let_def
  by (auto split: option.splits intro!: keep_close keep_noted keep_forgotten keep_setState keep_attached)

lemma keep_end_job: "inv b \<Longrightarrow> inv (end_job why b)"
  using keep_job_end [of b why "br_now b"]
  by (auto simp: end_job_def record_job_note_def case_prod_beta keep_noted)

lemma keep_client_leaves: "inv b \<Longrightarrow> inv (client_leaves c err b)"
  unfolding client_leaves_def Let_def
  by (auto split: option.splits intro!: keep_close keep_noted keep_end_job keep_setState keep_attached
      keep_setError)

lemma keep_client_data: "inv b \<Longrightarrow> br_client b = Some c \<Longrightarrow> inv (fst (client_data c data b))"
proof -
  assume inv: "inv b" and client: "br_client b = Some c"
  let ?b1 = "b\<lparr>br_rx := br_rx b + of_nat (length data)\<rparr>"
  let ?b2 = "?b1\<lparr>br_lines := br_lines ?b1 + of_nat (count_newlines data),
                  br_sent := tail_Write data (br_sent ?b1)\<rparr>"
  let ?b3 = "transcribed (CHR ''>'') data ?b2"
  have "inv ?b1" using inv by (rule keep_attached)
  then have "inv ?b2" using keep_tail [OF keep_attached(11), of ?b1] by simp
  then have "inv ?b3" by (rule keep_transcribed)
  moreover have "br_client ?b3 = Some c" using client by (simp add: transcribed_def Let_def)
  ultimately have "inv (fst (port_Write (FromClient c) data ?b3))" by (rule keep_client)
  with inv \<open>inv ?b1\<close> show ?thesis
    by (auto simp: client_data_def Let_def keep_setError split: option.splits prod.splits)
qed

lemma keep_client_sends: "inv b \<Longrightarrow> inv (client_sends c data b)"
  using keep_client_data [of b c data]
  by (auto simp: client_sends_def keep_client_leaves split: prod.splits bool.splits)

lemma keep_shut_down: "inv b \<Longrightarrow> inv (shut_down b)"
  by (simp add: shut_down_def closePort_def keep_DisconnectClient keep_attached)

lemma keep_happen: "inv b \<Longrightarrow> inv (happen h b)"
proof (cases h)
  case (Elapsed d)
  assume "inv b"
  with Elapsed show ?thesis by (auto intro: keep_core simp: bridge_core_def)
next
  case (PortFails e)
  assume "inv b"
  with PortFails show ?thesis by (auto intro: keep_core simp: bridge_core_def)
next
  case (Stalls c)
  assume "inv b"
  with Stalls show ?thesis by (auto intro: keep_core simp: bridge_core_def)
qed (simp_all add: keep_device_output keep_client_arrives keep_client_sends keep_client_leaves keep_shut_down)

lemma keep_happens: "inv b \<Longrightarrow> inv (happens hs b)"
  unfolding happens_def by (induction hs arbitrary: b) (auto simp: keep_happen)

lemma keep_takeOver: "inv b \<Longrightarrow> inv (takeOverFromClient why b)"
  unfolding takeOverFromClient_def Let_def
  by (auto split: option.splits intro!: keep_close keep_noted keep_end_job keep_deliver keep_attached)

lemma keep_record_step: "inv b \<Longrightarrow> inv (record_step d why b)"
  by (simp add: record_step_def keep_noteIntervention)

end

locale bridge_invariant = world_invariant +
  assumes keep_written: "inv b \<Longrightarrow> inv (b\<lparr>br_journal := fst (write_turn (br_journal b))\<rparr>)"
    and keep_watchers: "inv b \<Longrightarrow> inv (b\<lparr>br_monitors := (br_monitors b)\<lparr>mo_subs := subs\<rparr>\<rparr>)"
    and keep_console: "inv b \<Longrightarrow>
      inv (b\<lparr>br_console := snd (console_since after now (br_console b))\<rparr>)"
    and keep_forget_beam: "inv b \<Longrightarrow> inv (b\<lparr>br_observer := ForgetBeam (br_observer b)\<rparr>)"
    and keep_reset: "inv b \<Longrightarrow> inv (b\<lparr>br_observer := observer_Reset (br_observer b)\<rparr>)"
    and keep_reserved: "inv b \<Longrightarrow>
      inv (b\<lparr>br_injected := fst (reserve (ls :: string list) now (br_injected b))\<rparr>)"
    and keep_job: "inv b \<Longrightarrow> inv (b\<lparr>br_jobs := fst (job_observe g (br_jobs b))\<rparr>)"
    and keep_own: "inv b \<Longrightarrow> c \<in> set own_bytes \<Longrightarrow> (c = spindleStop \<Longrightarrow> beam_evidence (br_machine b)) \<Longrightarrow>
      inv (fst (port_Write Own [c] b))"
    and keep_injected: "inv b \<Longrightarrow> br_client b = None \<Longrightarrow> inv (fst (port_Write Injected (payload ls) b))"
    and keep_question: "inv b \<Longrightarrow> br_client b = None \<Longrightarrow> inv (fst (port_Write Question data b))"
begin

text \<open>Waiting and the ladder.\<close>

lemma keep_writeOwn:
  "inv b \<Longrightarrow> c \<in> set own_bytes \<Longrightarrow> (c = spindleStop \<Longrightarrow> beam_evidence (br_machine b)) \<Longrightarrow>
   inv (fst (writeOwn c b))"
  using keep_own [of b c] by (auto simp: writeOwn_def keep_transcribed split: prod.splits option.splits)

lemma keep_status: "inv b \<Longrightarrow> inv (fst (writeOwn statusReq b))"
  by (rule keep_writeOwn) (simp_all add: own_bytes_def realtime_defs)

lemma keep_poll_loop: "inv b \<Longrightarrow> inv (fst (poll_beam_loop ticks final b))"
proof (induction ticks final b rule: poll_beam_loop.induct)
  case (1 final b)
  then show ?case
    using keep_status [of b] by (auto simp: Let_def keep_happens split: prod.splits option.splits)
next
  case (2 hs ticks final b)
  obtain b1 e where w: "writeOwn statusReq b = (b1, e)" by fastforce
  have "inv b1" using keep_status [OF "2.prems"] w by simp
  with 2 w show ?case by (auto simp: Let_def keep_happens split: option.splits)
qed

lemma keep_pollBeam: "inv b \<Longrightarrow> inv (fst (pollBeam script b))"
  by (simp add: pollBeam_def keep_poll_loop keep_forget_beam)

lemma keep_wait_loop: "inv b \<Longrightarrow> inv (fst (wait_still_loop ticks final b))"
proof (induction ticks final b rule: wait_still_loop.induct)
  case (1 final b)
  then show ?case
    using keep_status [of b] by (auto simp: keep_happens split: prod.splits option.splits)
next
  case (2 hs ticks final b)
  obtain b1 e where w: "writeOwn statusReq b = (b1, e)" by fastforce
  have "inv b1" using keep_status [OF "2.prems"] w by simp
  with 2 w show ?case by (auto simp: Let_def keep_happens split: option.splits)
qed

lemma keep_carry_out:
  assumes "inv b" and "de_step d = StepSpindleStop \<Longrightarrow> beam_evidence (br_machine b)"
  shows "inv (fst (carry_out d why wait b))"
proof -
  let ?waits = "de_step d = StepSoftReset \<and> de_wait_for_rest d"
  let ?b1 = "if ?waits then fst (waitUntilStill wait b) else b"
  have b1: "inv ?b1" using assms(1) by (simp add: waitUntilStill_def keep_wait_loop)
  have "inv (fst (writeOwn (step_byte (de_step d)) ?b1))"
  proof (rule keep_writeOwn [OF b1])
    show "step_byte (de_step d) \<in> set own_bytes"
      by (simp add: step_byte_def own_bytes_def split: rung.splits)
    show "beam_evidence (br_machine ?b1)" if "step_byte (de_step d) = spindleStop"
      using that assms(2) by (auto simp: step_byte_def realtime_defs split: rung.splits)
  qed
  with b1 show ?thesis
    by (auto simp: carry_out_def Let_def keep_setError keep_record_step
        split: prod.splits option.splits)
qed

lemma keep_intervene_loop: "inv b \<Longrightarrow> inv (intervene_loop n scripts trig why t taken b)"
proof (induction n arbitrary: scripts t taken b)
  case 0
  then show ?case by simp
next
  case (Suc n)
  let ?d = "Decide (situation_now trig t b)"
  let ?takes = "\<not> taken \<and> trig \<noteq> TriggerClientGone"
  let ?b1 = "if ?takes then takeOverFromClient why b else b"
  obtain wait poll where sc: "(case scripts of [] \<Rightarrow> (([], []), ([], [])) | s # _ \<Rightarrow> s) = (wait, poll)"
    by (rule prod.exhaust)
  obtain b2 sent where co: "carry_out ?d why wait ?b1 = (b2, sent)" by fastforce
  have "beam_evidence (br_machine ?b1)" if "de_step ?d = StepSpindleStop"
    using Decide_spindle_stop [OF that] by (simp add: beam_evidence_def situation_now_def)
  then have b2: "inv b2"
    using keep_carry_out [of ?b1 ?d why wait] Suc.prems co by (simp add: keep_takeOver)
  then have b3: "inv (fst (pollBeam poll b2))" by (rule keep_pollBeam)
  show ?case
    using Suc.prems sc co b2 b3 Suc.IH [OF b3] by (simp add: Let_def keep_record_step)
qed

lemma keep_intervene: "inv b \<Longrightarrow> inv (intervene scripts trig why b)"
  by (simp add: intervene_def keep_intervene_loop)

lemma keep_onClientGone: "inv b \<Longrightarrow> inv (onClientGone scripts c b)"
  unfolding onClientGone_def Let_def by (auto intro!: keep_attached keep_intervene)

text \<open>The opening questions.\<close>

lemma keep_noteController: "inv b \<Longrightarrow> inv (noteController b)"
  by (simp add: noteController_def keep_noted)

lemma keep_answers: "inv b \<Longrightarrow> inv (fst (answers_loop ticks b))"
  by (induction ticks b rule: answers_loop.induct) (auto simp: Let_def keep_happens)

lemma keep_questions: "inv b \<Longrightarrow> inv (fst (ask_questions qs b))"
proof (induction qs b rule: ask_questions.induct)
  case (1 b)
  then show ?case by simp
next
  case (2 q hs rest b)
  show ?case
  proof (cases "interrupted b")
    case False
    obtain b1 e where w: "port_Write Question q b = (b1, e)" by fastforce
    have "inv b1"
      using keep_question [OF "2.prems", of q] False w by (simp add: interrupted_def)
    with 2 False w show ?thesis by (auto simp: keep_happens keep_transcribed split: option.splits)
  qed (use 2 in simp)
qed

lemma keep_settings: "inv b \<Longrightarrow> inv (settings_loop ticks b)"
  by (induction ticks b rule: settings_loop.induct)
    (auto simp: Let_def keep_happens keep_noteController)

lemma keep_finishProbe: "inv b \<Longrightarrow> inv (finishProbe b)"
  by (simp add: finishProbe_def keep_attached)

lemma keep_probe: "inv b \<Longrightarrow> inv (probeController ps b)"
proof -
  assume inv: "inv b"
  obtain b1 ok1 where a: "answers_loop (pr_identify ps) b = (b1, ok1)" by fastforce
  obtain b2 ok2 where q: "ask_questions [(''$I'' @ [CHR 0x0A], pr_between ps),
      (''$$'' @ [CHR 0x0A], pr_after ps)] b1 = (b2, ok2)" by fastforce
  have "inv b1" using keep_answers [OF inv] a by (metis fst_conv)
  moreover from this have "inv b2" using keep_questions q by (metis fst_conv)
  ultimately show ?thesis
    using inv a q
    by (auto simp: probeController_def intro!: keep_finishProbe keep_noteController keep_settings
        split: bool.splits)
qed

text \<open>The operator.\<close>

lemma keep_send_reserved:
  assumes "inv b" and "br_client b = None"
  shows "inv (fst (send_reserved ls b))"
proof -
  obtain ch ok where r: "reserve ls (br_now b) (br_injected b) = (ch, ok)" by fastforce
  let ?b = "b\<lparr>br_injected := ch\<rparr>"
  have b: "inv ?b" using keep_reserved [OF assms(1), of ls "br_now b"] r by simp
  then have "inv (fst (port_Write Injected (payload ls) ?b))"
    using assms(2) by (intro keep_injected) simp_all
  with b r show ?thesis
    by (auto simp: send_reserved_def release_slots_drop keep_transcribed intro!: keep_slots
        split: bool.splits prod.splits option.splits)
qed

lemma keep_sendLines: "inv b \<Longrightarrow> inv (fst (sendLines ls b))"
  by (simp add: sendLines_def may_send_def keep_send_reserved)

lemma keep_commanded: "inv (fst r) \<Longrightarrow> inv (fst (commanded cmd holder words r))"
  by (auto simp: commanded_def keep_noted split: prod.splits option.splits)

lemma keep_own_command:
  "inv b \<Longrightarrow> c \<in> set own_bytes \<Longrightarrow> c \<noteq> spindleStop \<Longrightarrow> inv (fst (own_command c b))"
  using keep_writeOwn [of b c] by (auto simp: own_command_def split: prod.splits option.splits)

lemma keep_composed: "inv b \<Longrightarrow> inv (fst (send_composed cmd holder tag l b))"
  by (auto simp: send_composed_def sendLine_def intro!: keep_commanded keep_sendLines split: sum.splits)

lemma keep_stop: "inv b \<Longrightarrow> inv (fst (stop_machine b))"
proof -
  assume inv: "inv b"
  let ?b = "takeOverFromClient ''stopped from the web interface'' b"
  have "inv (fst (own_command softReset (?b\<lparr>br_aim := aim_release (br_aim ?b)\<rparr>)))"
    by (intro keep_own_command keep_attached keep_takeOver inv)
      (simp_all add: own_bytes_def realtime_defs)
  then show ?thesis
    by (auto simp: stop_machine_def Let_def keep_noteIntervention split: prod.splits option.splits)
qed

lemma keep_aim_on: "inv b \<Longrightarrow> inv (fst (aim_on holder percent b))"
proof -
  assume inv: "inv b"
  obtain a r where h: "aim_hold holder percent (br_now b) (br_aim b) = (a, r)" by fastforce
  let ?lines = "aimLines (spindleFor (br_machine b) percent)"
  obtain b1 e where s: "sendLines ?lines (b\<lparr>br_aim := a\<rparr>) = (b1, e)" by fastforce
  have "inv b1" using keep_sendLines [OF keep_attached(9) [OF inv, of a], of ?lines] s by simp
  then show ?thesis
    using inv h s
    by (auto simp: aim_on_def Let_def intro!: keep_attached keep_commanded
        split: sum.splits bool.splits option.splits)
qed

lemma keep_aim_off: "inv b \<Longrightarrow> inv (fst (aim_off holder b))"
  by (auto simp: aim_off_def sendLine_def intro!: keep_commanded keep_sendLines keep_attached
      split: prod.splits option.splits)

lemma keep_Do: "inv b \<Longrightarrow> inv (fst (Do rq b))"
  unfolding Do_def Let_def
  by (auto intro!: keep_stop keep_aim_on keep_aim_off keep_composed keep_commanded keep_own_command
      keep_sendLines simp: sendLine_def own_bytes_def realtime_defs split: command.splits)

text \<open>The watch, the port, and every run of the system.\<close>

lemma keep_watch_silence: "inv b \<Longrightarrow> inv (snd (watch_silence w b))"
  by (auto simp: watch_silence_def Let_def keep_noted)

lemma keep_watch_job: "inv b \<Longrightarrow> inv (watch_job m b)"
  using keep_job [of b] by (auto simp: watch_job_def record_job_note_def case_prod_beta keep_noted)

lemma keep_watch_lease: "inv b \<Longrightarrow> inv (watch_lease b)"
  by (auto simp: watch_lease_def sendLine_def case_prod_beta Let_def
      intro!: keep_noted keep_sendLines keep_attached)

lemma keep_stale: "inv b \<Longrightarrow> inv (b\<lparr>br_injected := forgetStaleLines now (br_injected b)\<rparr>)"
  by (erule keep_slots) (rule forgetStaleLines_length)

lemma keep_watch_tick: "inv b \<Longrightarrow> inv (snd (watch_tick busy scripts w b))"
proof -
  assume inv: "inv b"
  let ?quiet = "Quiet (br_observer b) (br_now b) (cf_idle_poll (br_config b))"
  obtain b1 failed where polled: "(if ?quiet then (case writeOwn statusReq b of
      (x, Some e) \<Rightarrow> (x, True) | (x, None) \<Rightarrow> (x, False)) else (b, False)) = (b1, failed)"
    by fastforce
  have b1: "inv b1"
    using polled inv keep_status [OF inv] by (auto split: if_splits prod.splits option.splits)
  obtain w2 b2 where s: "watch_silence w b1 = (w2, b2)" by fastforce
  have "inv b2" using keep_watch_silence [OF b1, of w] s by simp
  then have b4: "inv (watch_lease (watch_job (br_machine b2)
      (b2\<lparr>br_injected := forgetStaleLines (br_now b2) (br_injected b2)\<rparr>)))"
    by (intro keep_watch_lease keep_watch_job keep_stale)
  show ?thesis
    using inv b1 b4 polled s
    by (auto simp: watch_tick_def Let_def intro!: keep_noted keep_intervene split: verdict.splits)
qed

lemma keep_port_opened: "inv b \<Longrightarrow> inv (port_opened path b)"
proof -
  assume "inv b"
  then have "inv (b\<lparr>br_observer := observer_Reset (br_observer b)\<rparr>)" by (rule keep_reset)
  moreover from this have "inv (b\<lparr>br_observer := observer_Reset (br_observer b), br_port := p,
      br_device_path := path, br_port_opened_at := t, br_last_error := []\<rparr>)" for p t
    by (rule keep_core) (simp add: bridge_core_def)
  ultimately show ?thesis
    by (auto simp: port_opened_def Let_def beginProbe_def
        intro!: keep_attached keep_setState keep_noted)
qed

lemma keep_port_missing: "inv b \<Longrightarrow> inv (port_missing e b)"
  by (simp add: port_missing_def keep_finishProbe keep_setError keep_setState)

lemma keep_port_lost: "inv b \<Longrightarrow> inv (port_lost err b)"
  unfolding port_lost_def closePort_def Let_def
  by (auto intro!: keep_DisconnectClient keep_noted keep_attached keep_setError split: option.splits)

theorem keep_step: "bridge_step s s' \<Longrightarrow> inv (snd s) \<Longrightarrow> inv (snd s')"
proof (induction rule: bridge_step.induct)
  case (step_monitor w b n)
  then show ?case using keep_watchers by (simp add: monitors_add_def)
next
  case (step_monitor_gone w b n)
  then show ?case using keep_watchers by (simp add: monitors_remove_def)
qed (simp_all add: keep_happen keep_port_opened keep_port_missing keep_port_lost keep_probe
    keep_onClientGone keep_attached keep_watch_tick keep_Do keep_console keep_written)

theorem keep_reachable: "reachable c s \<Longrightarrow> (\<And>now. inv (New c now)) \<Longrightarrow> inv (snd s)"
  by (induction rule: reachable.induct) (auto intro: keep_step)

end

section \<open>Every buffer is bounded\<close>

definition queue_small :: "journal \<Rightarrow> bool" where
  "queue_small j \<longleftrightarrow> (case jr_writes j of None \<Rightarrow> True | Some q \<Rightarrow> length q \<le> journalQueue)"

definition tail_bounded :: "line_tail \<Rightarrow> bool" where
  "tail_bounded l \<longleftrightarrow>
     tail_small l \<and> length (lt_pending l) \<le> maxPending \<and> length (lt_partial l) \<le> maxContextLine"

definition bounded :: "bridge \<Rightarrow> bool" where
  "bounded b \<longleftrightarrow>
     length (br_injected b) \<le> outstandingLines \<and> ring_ok (br_journal b)
     \<and> queue_small (br_journal b) \<and> tail_bounded (br_sent b) \<and> monitors_small (br_monitors b)
     \<and> console_small (br_console b) \<and> length (ob_line (br_observer b)) \<le> maxLine
     \<and> job_ok (br_jobs b)"

lemma queue_small_Add: "queue_small j \<Longrightarrow> queue_small (journal_Add now up e j)"
  by (auto simp: queue_small_def journal_Add_def Let_def ring_push_only split: option.splits)

lemma ring_ok_Add: "ring_ok j \<Longrightarrow> ring_ok (journal_Add now up e j)"
  by (simp add: journal_Add_ring ring_ok_push)

lemma ring_ok_turn: "ring_ok j \<Longrightarrow> ring_ok (fst (write_turn j))"
  by (simp add: ring_ok_def write_turn_def split: option.splits)

lemma queue_small_turn: "queue_small (fst (write_turn j))"
  by (simp add: queue_small_def write_turn_def split: option.splits)

lemma console_small_send:
  "console_small c \<Longrightarrow> console_small (se_console (monitors_send fails now mark data m c))"
proof -
  have "console_small (fold (\<lambda>(k, w). console_add k w now) ls c)" if "console_small c" for ls c
    using that by (induction ls arbitrary: c) (auto simp: console_add_spoken add_spoken_small)
  then show "console_small c \<Longrightarrow> ?thesis"
    by (simp add: monitors_send_def Let_def case_prod_beta)
qed

lemma tail_bounded_byte: "tail_bounded l \<Longrightarrow> tail_bounded (tail_byte b l)"
proof -
  assume l: "tail_bounded l"
  let ?t = "trim_space (lt_partial l)"
  have "tail_small (tail_keep ?t l)" using l tail.good_push by (simp add: tail_bounded_def)
  moreover have "length (lt_pending (tail_expect ?t (tail_keep ?t l))) \<le> maxPending"
    using l by (auto simp: tail_bounded_def tail_expect_def Let_def)
  ultimately show ?thesis
    using l by (simp add: tail_bounded_def tail_byte_def Let_def tail_small_def)
qed

lemma tail_bounded_Write: "tail_bounded l \<Longrightarrow> tail_bounded (tail_Write data l)"
  by (induction data arbitrary: l) (simp_all add: tail_bounded_byte)

lemma tail_bounded_Acknowledge: "tail_bounded l \<Longrightarrow> tail_bounded (fst (tail_Acknowledge l))"
  by (simp add: tail_bounded_def tail_small_def Acknowledge_simps) linarith

lemma bounded_simps:
  "bounded b \<Longrightarrow> bounded (journal_event e b)"
  "bounded b \<Longrightarrow> bounded (transcribed mark data b)"
  by (simp_all add: bounded_def journal_event_def transcribed_def Let_def ring_ok_Add queue_small_Add
      monitors_send_small console_small_send)

interpretation bounds: bridge_invariant bounded
proof
  fix b b' :: bridge
  show "bounded b'" if "bridge_core b = bridge_core b'" "bounded b"
    using that by (simp add: bridge_core_def bounded_def)
next
  fix b :: bridge and c :: byte and cl data
  have wire: "bounded (fst (port_Write who w b))" if "bounded b" for who w
    using that by (simp add: bounded_def port_Write_def split: option.splits)
  show "bounded (fst (port_Write Own [c] b))" if "bounded b" using wire [OF that] .
  show "bounded (fst (port_Write (FromClient cl) data b))" if "bounded b" using wire [OF that] .
  show "bounded (fst (port_Write Injected (payload ls) b))" if "bounded b" for ls using wire [OF that] .
  show "bounded (fst (port_Write Question data b))" if "bounded b" using wire [OF that] .
next
  fix b :: bridge and ls :: "string list" and now
  show "bounded (b\<lparr>br_injected := fst (reserve ls now (br_injected b))\<rparr>)" if "bounded b"
    using that reserve_length [of "br_injected b" ls now] by (simp add: bounded_def)
next
  fix b :: bridge and now :: instant and data :: string
  show "bounded (b\<lparr>br_observer := fst (observer_Write now data (br_observer b))\<rparr>)" if "bounded b"
    using that observe_bytes_bound [of "br_observer b" now data]
    by (simp add: bounded_def observer_Write_def case_prod_beta)
next
  fix b :: bridge and now :: instant and why :: string and g
  show "bounded (b\<lparr>br_jobs := fst (job_end why now (br_jobs b))\<rparr>)" if "bounded b"
    using that by (simp add: bounded_def job_end_def job_ok_end)
  show "bounded (b\<lparr>br_jobs := fst (job_observe g (br_jobs b))\<rparr>)" if "bounded b"
    using that by (simp add: bounded_def job_ok_observe)
next
  fix b :: bridge and subs after now data ch
  show "bounded (b\<lparr>br_journal := fst (write_turn (br_journal b))\<rparr>)" if "bounded b"
    using that by (simp add: bounded_def ring_ok_turn queue_small_turn)
  show "bounded (b\<lparr>br_monitors := (br_monitors b)\<lparr>mo_subs := subs\<rparr>\<rparr>)" if "bounded b"
    using that by (simp add: bounded_def monitors_small_def)
  show "bounded (b\<lparr>br_console := snd (console_since after now (br_console b))\<rparr>)" if "bounded b"
    using that by (simp add: bounded_def console_small_def console_since_def)
  show "bounded (b\<lparr>br_observer := ForgetBeam (br_observer b)\<rparr>)" if "bounded b"
    using that by (simp add: bounded_def ForgetBeam_def)
  show "bounded (b\<lparr>br_observer := observer_Reset (br_observer b)\<rparr>)" if "bounded b"
    using that by (simp add: bounded_def observer_Reset_def)
  show "bounded (b\<lparr>br_sent := fst (tail_Acknowledge (br_sent b))\<rparr>)" if "bounded b"
    using that by (simp add: bounded_def tail_bounded_Acknowledge)
  show "bounded (b\<lparr>br_sent := tail_Forget (br_sent b)\<rparr>)" if "bounded b"
    using that by (simp add: bounded_def tail_bounded_def tail_small_def tail_Forget_def)
  show "bounded (b\<lparr>br_sent := tail_Write data (br_sent b)\<rparr>)" if "bounded b"
    using that by (simp add: bounded_def tail_bounded_Write)
  show "bounded (b\<lparr>br_injected := ch\<rparr>)" if "bounded b" "length ch \<le> length (br_injected b)"
    using that by (simp add: bounded_def)
qed (auto intro: bounded_simps)

lemma bounded_New: "bounded (New c now)"
  by (simp add: bounded_def New_def queue_small_def NewJournal_def tail_bounded_def tail_small_def
      newLineTail_def monitors_small_def newMonitors_def console_small_def newConsole_def
      NewObserver_def ring_ok_def journalDepth_def)

section \<open>What may go over the wire\<close>

definition entry_ok :: "wire_entry \<Rightarrow> bool" where
  "entry_ok e \<longleftrightarrow>
     (case we_origin e of
        FromClient c \<Rightarrow> we_client e = Some c
      | Own \<Rightarrow> (\<exists>c \<in> set own_bytes. we_bytes e = [c] \<and> (c = spindleStop \<longrightarrow> beam_evidence (we_reading e)))
      | Injected \<Rightarrow> we_client e = None
      | Question \<Rightarrow> we_client e = None)"

definition wire_ok :: "bridge \<Rightarrow> bool" where
  "wire_ok b \<longleftrightarrow> (\<forall>e \<in> set (br_wire b). entry_ok e)"

lemma wire_ok_Write:
  assumes "wire_ok b" and "entry_ok \<lparr>we_origin = who, we_bytes = data, we_client = br_client b,
      we_reading = br_machine b\<rparr>"
  shows "wire_ok (fst (port_Write who data b))"
  using assms by (auto simp: wire_ok_def port_Write_def split: option.splits)

interpretation wire: bridge_invariant wire_ok
proof
  fix b b' :: bridge
  show "wire_ok b'" if "bridge_core b = bridge_core b'" "wire_ok b"
    using that by (simp add: bridge_core_def wire_ok_def)
next
  fix b :: bridge and c cl data ls
  show "wire_ok (fst (port_Write Own [c] b))"
    if "wire_ok b" "c \<in> set own_bytes" "c = spindleStop \<Longrightarrow> beam_evidence (br_machine b)"
    using that by (intro wire_ok_Write) (simp_all add: entry_ok_def)
  show "wire_ok (fst (port_Write (FromClient cl) data b))" if "wire_ok b" "br_client b = Some cl"
    using that by (intro wire_ok_Write) (simp_all add: entry_ok_def)
  show "wire_ok (fst (port_Write Injected (payload ls) b))" if "wire_ok b" "br_client b = None"
    using that by (intro wire_ok_Write) (simp_all add: entry_ok_def)
  show "wire_ok (fst (port_Write Question data b))" if "wire_ok b" "br_client b = None"
    using that by (intro wire_ok_Write) (simp_all add: entry_ok_def)
qed (simp_all add: wire_ok_def journal_event_def transcribed_def Let_def)

lemma wire_ok_New: "wire_ok (New c now)"
  by (simp add: wire_ok_def New_def)

section \<open>The configuration never changes\<close>

interpretation configured: bridge_invariant "\<lambda>b. br_config b = c" for c
  by standard (simp_all add: bridge_core_def journal_event_def transcribed_def Let_def port_Write_def
      split: option.splits)

section \<open>An intervention climbs the ladder\<close>

text \<open>What the bridge commanded by itself; a status request is no command.\<close>

definition own_commands :: "bridge \<Rightarrow> byte list" where
  "own_commands b =
     filter (\<lambda>c. c \<noteq> statusReq)
       (concat (map we_bytes (filter (\<lambda>e. we_origin e = Own) (br_wire b))))"

interpretation quiet_world: world_invariant "\<lambda>b. own_commands b = cs" for cs
  by standard (simp_all add: own_commands_def bridge_core_def journal_event_def transcribed_def
      Let_def port_Write_def split: option.splits)

lemma own_commands_happens [simp]: "own_commands (happens hs b) = own_commands b"
  using quiet_world.keep_happens by blast

lemma own_commands_takeOver [simp]: "own_commands (takeOverFromClient why b) = own_commands b"
  using quiet_world.keep_takeOver by blast

lemma own_commands_record [simp]: "own_commands (record_step d why b) = own_commands b"
  using quiet_world.keep_record_step by blast

lemma own_commands_setError [simp]: "own_commands (setError e b) = own_commands b"
  using quiet_world.keep_setError by blast

lemma own_commands_writeOwn:
  "own_commands (fst (writeOwn c b)) =
     own_commands b @ (if snd (writeOwn c b) = None \<and> c \<noteq> statusReq then [c] else [])"
  by (simp add: own_commands_def writeOwn_def port_Write_def transcribed_def Let_def
      split: option.splits)

lemma own_commands_status: "writeOwn statusReq b = (b1, e) \<Longrightarrow> own_commands b1 = own_commands b"
  using own_commands_writeOwn [of statusReq b] by simp

lemma own_commands_poll_loop [simp]:
  "own_commands (fst (poll_beam_loop ticks final b)) = own_commands b"
  by (induction ticks final b rule: poll_beam_loop.induct)
    (auto simp: Let_def own_commands_status split: prod.splits option.splits)

lemma own_commands_pollBeam [simp]: "own_commands (fst (pollBeam script b)) = own_commands b"
  by (simp add: pollBeam_def) (simp add: own_commands_def)

lemma own_commands_wait [simp]: "own_commands (fst (waitUntilStill script b)) = own_commands b"
proof -
  have "own_commands (fst (wait_still_loop ticks final b)) = own_commands b" for ticks final b
    by (induction ticks final b rule: wait_still_loop.induct)
      (auto simp: Let_def own_commands_status split: prod.splits option.splits)
  then show ?thesis by (simp add: waitUntilStill_def)
qed

lemma step_byte_not_status: "step_byte r \<noteq> statusReq"
  by (simp add: step_byte_def realtime_defs split: rung.splits)

lemma own_commands_carry_out:
  "own_commands (fst (carry_out d why wait b)) =
     own_commands b @ (if snd (carry_out d why wait b) then [step_byte (de_step d)] else [])"
proof -
  let ?waits = "de_step d = StepSoftReset \<and> de_wait_for_rest d"
  let ?b1 = "if ?waits then fst (waitUntilStill wait b) else b"
  obtain b2 e where w: "writeOwn (step_byte (de_step d)) ?b1 = (b2, e)" by fastforce
  have "own_commands b2 = own_commands b @ (if e = None then [step_byte (de_step d)] else [])"
    using own_commands_writeOwn [of "step_byte (de_step d)" ?b1] w
    by (simp add: step_byte_not_status)
  with w show ?thesis by (auto simp: carry_out_def Let_def split: option.splits)
qed

lemma commanding_iff: "commanding r \<longleftrightarrow> r \<in> commands"
  by (auto simp: commanding_def commands_def)

definition account_of :: "bridge \<Rightarrow> account" where
  "account_of b =
     \<lparr>ac_state = mc_state (br_machine b), ac_beam = mc_beam (br_machine b),
      ac_laser_mode = mc_laser_mode (br_machine b)\<rparr>"

lemma situation_now_of:
  "situation_now trig t b =
     situation_of (cf_on_disconnect (br_config b)) trig t (account_of b)"
  by (simp add: situation_now_def situation_of_def account_of_def)

lemma config_pollBeam [simp]: "br_config (fst (pollBeam script b)) = br_config b"
  using configured.keep_pollBeam by blast

lemma config_carry_out:
  assumes "de_step d = StepSpindleStop \<Longrightarrow> beam_evidence (br_machine b)"
  shows "br_config (fst (carry_out d why wait b)) = br_config b"
  using configured.keep_carry_out [OF refl] assms by blast

text \<open>
  Every intervention, under every script, sends the commands of a climb of the ladder, one
  byte per rung and in that order.
\<close>

lemma intervene_loop_climbs:
  "\<exists>as rs. prefix rs (ladder (cf_on_disconnect (br_config b)) trig t as) \<and> set rs \<subseteq> commands
     \<and> own_commands (intervene_loop n scripts trig why t taken b) =
       own_commands b @ map step_byte rs"
proof (induction n arbitrary: scripts t taken b)
  case 0
  show ?case by (rule exI [of _ "[]"], rule exI [of _ "[]"]) simp
next
  case (Suc n)
  let ?policy = "cf_on_disconnect (br_config b)"
  let ?d = "Decide (situation_now trig t b)"
  let ?r = "de_step ?d"
  let ?b1 = "if \<not> taken \<and> trig \<noteq> TriggerClientGone then takeOverFromClient why b else b"
  obtain wait poll where sc: "(case scripts of [] \<Rightarrow> (([], []), ([], [])) | s # _ \<Rightarrow> s) = (wait, poll)"
    by (rule prod.exhaust)
  obtain b2 sent where co: "carry_out ?d why wait ?b1 = (b2, sent)" by fastforce
  have r: "recommend ?policy trig t (account_of b) = ?r"
    by (simp add: recommend_def situation_now_of)
  have stay: ?case if "own_commands (intervene_loop (Suc n) scripts trig why t taken b) = own_commands b"
    using that by (intro exI [of _ "[]"]) simp
  show ?case
  proof (cases "\<not> aborted b \<and> commanding ?r \<and> sent")
    case True
    have cmd: "?r \<in> commands" using True by (simp add: commanding_iff)
    have b2: "own_commands b2 = own_commands b @ [step_byte ?r]"
      using own_commands_carry_out [of ?d why wait ?b1] co True by simp
    let ?b3 = "fst (pollBeam poll b2)"
    have "beam_evidence (br_machine ?b1)" if "?r = StepSpindleStop"
      using Decide_spindle_stop [OF that] by (simp add: beam_evidence_def situation_now_def)
    then have config: "br_config ?b3 = br_config b"
      using config_carry_out [of ?d ?b1 why wait] co by simp
    show ?thesis
    proof (cases "br_client ?b3 \<noteq> None \<and> trig = TriggerClientGone")
      case True2: True
      then have "own_commands (intervene_loop (Suc n) scripts trig why t taken b) =
          own_commands b @ map step_byte [?r]"
        using True sc co b2 by (simp add: Let_def)
      moreover have "prefix [?r] (ladder ?policy trig t [account_of b])"
        using r cmd by (simp add: Let_def)
      ultimately show ?thesis using cmd by (metis empty_set insert_subset list.simps(15) empty_subsetI)
    next
      case False
      let ?taken = "taken \<or> \<not> taken \<and> trig \<noteq> TriggerClientGone"
      obtain as rs where IH: "prefix rs (ladder ?policy trig (spend_tried ?r t) as)"
        "set rs \<subseteq> commands"
        "own_commands (intervene_loop n (tl scripts) trig why (spend_tried ?r t) ?taken ?b3) =
         own_commands ?b3 @ map step_byte rs"
        using Suc.IH [of ?b3 "spend_tried ?r t" "tl scripts" ?taken] config by auto
      have "own_commands (intervene_loop (Suc n) scripts trig why t taken b) =
          own_commands b @ map step_byte (?r # rs)"
      proof -
        have "intervene_loop (Suc n) scripts trig why t taken b =
            intervene_loop n (tl scripts) trig why (spend_tried ?r t) ?taken ?b3"
          using True False sc co by (auto simp: Let_def)
        then show ?thesis using IH(3) b2 by simp
      qed
      moreover have "prefix (?r # rs) (ladder ?policy trig t (account_of b # as))"
        using r cmd IH(1) by (simp add: Let_def)
      ultimately show ?thesis using cmd IH(2) by (metis insert_subset list.simps(15))
    qed
  next
    case False
    have "own_commands b2 = own_commands b" if "\<not> sent"
      using own_commands_carry_out [of ?d why wait ?b1] co that by simp
    with False sc co show ?thesis by (intro stay) (auto simp: Let_def)
  qed
qed

section \<open>Commands of its own, and nothing else\<close>

lemma own_commands_queued [simp]:
  "own_commands (fst (sendLines ls b)) = own_commands b"
  by (simp add: sendLines_def send_reserved_def own_commands_def port_Write_def transcribed_def
      Let_def split: prod.splits bool.splits option.splits)

lemma own_commands_noted [simp]:
  "own_commands (noted k x b) = own_commands b" "own_commands (b\<lparr>br_jobs := j\<rparr>) = own_commands b"
  "own_commands (b\<lparr>br_aim := a\<rparr>) = own_commands b"
  "own_commands (b\<lparr>br_injected := ch\<rparr>) = own_commands b"
  "own_commands (b\<lparr>br_handled := n\<rparr>) = own_commands b"
  "own_commands (b\<lparr>br_dropped_by_us := d\<rparr>) = own_commands b"
  by (simp_all add: own_commands_def noted_def journal_event_def)

lemma own_commands_watch_parts [simp]:
  "own_commands (snd (watch_silence w b)) = own_commands b"
  "own_commands (watch_job m b) = own_commands b"
  "own_commands (watch_lease b) = own_commands b"
  by (simp_all add: watch_silence_def watch_job_def watch_lease_def record_job_note_def sendLine_def
      Let_def case_prod_beta)

lemma config_watch_parts [simp]:
  "br_config (snd (watch_silence w b)) = br_config b" "br_config (watch_job m b) = br_config b"
  "br_config (watch_lease b) = br_config b"
  using configured.keep_watch_silence configured.keep_watch_job configured.keep_watch_lease by blast+

lemma config_writeOwn [simp]: "br_config (fst (writeOwn c b)) = br_config b"
  by (simp add: writeOwn_def port_Write_def transcribed_def Let_def split: option.splits)

lemma intervene_none:
  "cf_on_disconnect (br_config b) = DisconnectNone \<Longrightarrow> intervene scripts trig why b = b"
  using Decide_none [of "situation_now trig nothing_tried b"]
  by (simp add: intervene_def eval_nat_numeral situation_now_def commanding_def case_prod_beta)

lemma writeOwn_ok:
  assumes "wo_port_error (br_world b) = None"
  shows "snd (writeOwn c b) = None"
    and "br_wire (fst (writeOwn c b)) = br_wire b @
      [\<lparr>we_origin = Own, we_bytes = [c], we_client = br_client b, we_reading = br_machine b\<rparr>]"
  using assms by (simp_all add: writeOwn_def port_Write_def transcribed_def Let_def)

text \<open>A first step that commands and does not wait goes out, whatever comes after it.\<close>

lemma intervene_loop_acts:
  assumes "\<not> aborted b" and "commanding (de_step (Decide (situation_now trig nothing_tried b)))"
    and "\<not> de_wait_for_rest (Decide (situation_now trig nothing_tried b))"
    and "wo_port_error (br_world b) = None"
  shows "\<exists>cs. own_commands (intervene_loop (Suc n) scripts trig why nothing_tried False b) =
    own_commands b @ step_byte (de_step (Decide (situation_now trig nothing_tried b))) # cs"
proof -
  let ?d = "Decide (situation_now trig nothing_tried b)"
  let ?takes = "trig \<noteq> TriggerClientGone"
  let ?b1 = "if ?takes then takeOverFromClient why b else b"
  obtain wait poll where sc: "(case scripts of [] \<Rightarrow> (([], []), ([], [])) | s # _ \<Rightarrow> s) = (wait, poll)"
    by (rule prod.exhaust)
  obtain b2 sent where co: "carry_out ?d why wait ?b1 = (b2, sent)" by fastforce
  have "wo_port_error (br_world ?b1) = None" using assms(4) by simp
  then obtain b' where "writeOwn (step_byte (de_step ?d)) ?b1 = (b', None)"
    using writeOwn_ok(1) by (metis prod.collapse)
  then have sent: "sent" using co assms(3) by (simp add: carry_out_def Let_def)
  then have b2: "own_commands b2 = own_commands b @ [step_byte (de_step ?d)]"
    using own_commands_carry_out [of ?d why wait ?b1] co by (simp split: if_splits)
  have "intervene_loop (Suc n) scripts trig why nothing_tried False b = (let b3 = fst (pollBeam poll b2)
      in if br_client b3 \<noteq> None \<and> trig = TriggerClientGone then b3
         else intervene_loop n (tl scripts) trig why (spend_tried (de_step ?d) nothing_tried) ?takes b3)"
    using assms(1,2) sc co sent by (simp add: Let_def)
  then show ?thesis
    using intervene_loop_climbs [of "fst (pollBeam poll b2)" trig "spend_tried (de_step ?d) nothing_tried"
        n "tl scripts" why ?takes] b2
    by (auto simp: Let_def)
qed

lemma intervene_acts:
  assumes "\<not> aborted b" and "commanding (de_step (Decide (situation_now trig nothing_tried b)))"
    and "\<not> de_wait_for_rest (Decide (situation_now trig nothing_tried b))"
    and "wo_port_error (br_world b) = None"
  shows "own_commands (intervene scripts trig why b) \<noteq> own_commands b"
proof -
  have "(5::nat) = Suc 4" by simp
  then show ?thesis
    using intervene_loop_acts [OF assms, of 4 scripts why] unfolding intervene_def by force
qed

end
