(* ===== verification/Status_Socket.thy ===== *)
theory Status_Socket
  imports Bridge_System
begin

text \<open>
  \<open>backend/internal/proxy/statussocket.go\<close>: what the daemon answers to one line on its Unix
  socket. The decoder of \<open>encoding/json\<close> and \<open>strconv.Quote\<close> are arguments, as is the answer of
  the kernel to the question who is at the other end (\<open>peerUID\<close>; \<open>None\<close> where it has none).
\<close>

section \<open>Errors in words\<close>

fun control_error_text :: "(string \<Rightarrow> string) \<Rightarrow> control_error \<Rightarrow> string" where
  "control_error_text quote ErrClientInCharge =
     ''a client is connected; the appliance does not steer a machine somebody else is steering''"
| "control_error_text quote ErrNoPort = ''no serial port is open''"
| "control_error_text quote (ErrUnknownCommand cmd) =
     ''unknown command: '' @ quote (command_text cmd)"
| "control_error_text quote ErrSomebodyElseIsAiming = ''somebody else is holding the aiming beam''"
| "control_error_text quote ErrStillWorking =
     ''the controller has not answered the last commands yet''"
| "control_error_text quote (ErrWrite e) = e"
| "control_error_text quote (ErrRefused e) = e"

section \<open>One answer\<close>

datatype socket_reply =
    ReplyStatus status
  | ReplyJournal "event list"
  | ReplyConsole console_view
  | ReplyCommand string
  | ReplyUnknown

definition bridge_Console :: "64 word \<Rightarrow> bridge \<Rightarrow> bridge \<times> console_view" where
  "bridge_Console after b =
     (case console_since after (br_now b) (br_console b) of
        (view, co) \<Rightarrow> (b\<lparr>br_console := co\<rparr>, view))"

definition answer_command ::
    "(string \<Rightarrow> string) \<Rightarrow> (string \<Rightarrow> string + command_request) \<Rightarrow> nat option \<Rightarrow> string \<Rightarrow> bridge \<Rightarrow>
     bridge \<times> socket_reply" where
  "answer_command quote decode uid line b =
     (if uid \<noteq> Some 0 then (b, ReplyCommand ''steering is only accepted from root'')
      else
        (case decode (trim_space (trim_prefix (trim_space line) ''command'')) of
           Inl e \<Rightarrow> (b, ReplyCommand (''invalid command: '' @ e))
         | Inr rq \<Rightarrow>
             (case Do rq b of
                (b1, None) \<Rightarrow> (b1, ReplyCommand [])
              | (b1, Some e) \<Rightarrow> (b1, ReplyCommand (control_error_text quote e)))))"

definition request_word :: "string \<Rightarrow> string" where
  "request_word line = (case string_fields line of [] \<Rightarrow> [] | w # _ \<Rightarrow> w)"

definition request_number :: "(string \<Rightarrow> int) \<Rightarrow> string \<Rightarrow> int" where
  "request_number read line = (case string_fields line of _ # n # _ \<Rightarrow> read n | _ \<Rightarrow> 0)"

definition socket_answer ::
    "(string \<Rightarrow> string) \<Rightarrow> (string \<Rightarrow> string + command_request) \<Rightarrow> nat option \<Rightarrow> string \<Rightarrow> bridge \<Rightarrow>
     bridge \<times> socket_reply" where
  "socket_answer quote decode uid line b =
     (let w = request_word line
      in if w = [] \<or> w = ''status'' then (b, ReplyStatus (Status b))
         else if w = ''journal'' then
           (b, ReplyJournal (Recent (request_number (\<lambda>s. fst (atoi s)) line) (br_journal b)))
         else if w = ''console'' then
           (case bridge_Console (word_of_int (request_number (\<lambda>s. fst (parse_uint s)) line)) b of
              (b1, view) \<Rightarrow> (b1, ReplyConsole view))
         else if w = ''command'' then answer_command quote decode uid line b
         else (b, ReplyUnknown))"

section \<open>Facts\<close>

text \<open>An answer is a step of the system, so every invariant of the bridge survives it.\<close>

lemma bridge_Console_step: "bridge_step (w, b) (w, fst (bridge_Console after b))"
  using step_console [of w b after] by (simp add: bridge_Console_def case_prod_beta)

lemma answer_command_fst:
  "fst (answer_command quote decode uid line b) = b
   \<or> (\<exists>rq. fst (answer_command quote decode uid line b) = fst (Do rq b))"
proof (cases "decode (trim_space (trim_prefix (trim_space line) ''command''))")
  case (Inl e)
  then show ?thesis by (simp add: answer_command_def)
next
  case (Inr rq)
  obtain b1 r where "Do rq b = (b1, r)" by (cases "Do rq b")
  with Inr have "fst (answer_command quote decode uid line b) = (if uid \<noteq> Some 0 then b else fst (Do rq b))"
    by (cases r) (simp_all add: answer_command_def)
  then show ?thesis by (auto split: if_splits)
qed

lemma answer_command_reachable:
  "reachable c (w, b) \<Longrightarrow> reachable c (w, fst (answer_command quote decode uid line b))"
  using answer_command_fst [of quote decode uid line b] reachable_step [OF _ step_do, of c w b]
  by metis

lemma socket_answer_fst:
  "fst (socket_answer quote decode uid line b) =
     (let w = request_word line
      in if w = ''console'' then
           fst (bridge_Console (word_of_int (request_number (\<lambda>s. fst (parse_uint s)) line)) b)
         else if w = ''command'' then fst (answer_command quote decode uid line b)
         else b)"
  by (cases "request_word line = ''console''"; cases "request_word line = ''command''")
    (simp_all add: socket_answer_def Let_def split: prod.split)

lemma socket_answer_reachable:
  assumes "reachable c (w, b)"
  shows "reachable c (w, fst (socket_answer quote decode uid line b))"
proof -
  have "reachable c (w, fst (bridge_Console after b))" for after
    by (rule reachable_step [OF assms bridge_Console_step])
  moreover have "reachable c (w, fst (answer_command quote decode uid line b))"
    by (rule answer_command_reachable [OF assms])
  ultimately show ?thesis using assms unfolding socket_answer_fst Let_def by presburger
qed

lemma answer_refused:
  "uid \<noteq> Some 0 \<Longrightarrow>
   answer_command quote decode uid line b = (b, ReplyCommand ''steering is only accepted from root'')"
  by (simp add: answer_command_def)

lemma socket_answer_command:
  "request_word line = ''command'' \<Longrightarrow>
   socket_answer quote decode uid line b = answer_command quote decode uid line b"
  by (simp add: socket_answer_def)

lemma socket_answer_not_root:
  assumes "uid \<noteq> Some 0"
  shows "fst (socket_answer quote decode uid line b) \<in>
      {b, b\<lparr>br_console := (br_console b)\<lparr>co_until := Some (br_now b + consoleLease)\<rparr>\<rparr>}"
proof -
  have "fst (bridge_Console after b) =
      b\<lparr>br_console := (br_console b)\<lparr>co_until := Some (br_now b + consoleLease)\<rparr>\<rparr>" for after
    by (simp add: bridge_Console_def console_since_def)
  with assms show ?thesis by (simp add: socket_answer_fst answer_refused Let_def)
qed

text \<open>
  C37: steering is for root alone. Whatever a peer writes that the kernel does not name as root,
  all it changes is how long the transcript is kept being recorded, and if it asked to steer
  the machine it is refused.
\<close>

theorem steering_is_for_root:
  assumes "uid \<noteq> Some 0"
  shows "fst (socket_answer quote decode uid line b) \<in>
      {b, b\<lparr>br_console := (br_console b)\<lparr>co_until := Some (br_now b + consoleLease)\<rparr>\<rparr>}
    \<and> (request_word line = ''command'' \<longrightarrow>
        socket_answer quote decode uid line b = (b, ReplyCommand ''steering is only accepted from root''))"
  using socket_answer_not_root [OF assms] assms by (simp add: socket_answer_command answer_refused)

definition idle_bridge :: bridge where
  "idle_bridge = New
     \<lparr>cf_device = [], cf_baudrate = 115200, cf_port = 23, cf_kick_old_client = False,
      cf_device_retry = 0, cf_on_disconnect = ''hold'', cf_hold_settle = 0, cf_probe_identify = 0,
      cf_beam_confirm = 0, cf_silence_after = 0, cf_client_write_timeout = 0, cf_journal_path = [],
      cf_monitor_port = 0, cf_beam_grace = 0, cf_stationary_beam = 0, cf_idle_poll = 0\<rparr> 0"

theorem steering_is_for_root_witness:
  "socket_answer id (\<lambda>_. Inl ''not json'') (Some 1000) ''command {}'' idle_bridge =
     (idle_bridge, ReplyCommand ''steering is only accepted from root'')"
proof -
  have "request_word ''command {}'' = ''command''" by code_simp
  with steering_is_for_root [of "Some 1000" id "\<lambda>_. Inl ''not json''" "''command {}''" idle_bridge]
  show ?thesis by simp
qed

text \<open>
  A number too large for 64 bits is read as the largest one that fits, and the console then
  reports a gap that never was.
\<close>

lemma socket_reads_the_largest_number:
  "request_number (\<lambda>s. fst (parse_uint s)) ''console 99999999999999999999'' = 2 ^ 64 - 1"
  by code_simp

end
