(* ===== verification/GoNet.thy ===== *)
theory GoNet
  imports GoLib
begin

text \<open>
  What \<open>net.ParseIP\<close>, \<open>net.ParseCIDR\<close> and \<open>filepath.Clean\<close> accept: the parsers of
  \<open>net/netip\<close> as far as the code looks at them, which is whether they succeed and, for the
  prefix length, whether an address has 32 or 128 bits.
\<close>

section \<open>Addresses\<close>

definition dec_digit :: "byte \<Rightarrow> bool" where
  "dec_digit c \<longleftrightarrow> digit_of c \<noteq> None"

definition hex_byte :: "byte \<Rightarrow> bool" where
  "hex_byte c \<longleftrightarrow>
     dec_digit c \<or> c \<in> set ''abcdef'' \<or> c \<in> set ''ABCDEF''"

text \<open>\<open>parseIPv4Fields\<close>: the value of the octet so far, how many are complete, its digits.\<close>

fun v4_fields :: "int \<Rightarrow> nat \<Rightarrow> nat \<Rightarrow> string \<Rightarrow> bool" where
  "v4_fields val pos len [] \<longleftrightarrow> pos = 3"
| "v4_fields val pos len (c # s) \<longleftrightarrow>
     (case digit_of c of
        Some d \<Rightarrow> \<not> (len = 1 \<and> val = 0) \<and> val * 10 + d \<le> 255 \<and> v4_fields (val * 10 + d) pos (len + 1) s
      | None \<Rightarrow> c = CHR ''.'' \<and> len \<noteq> 0 \<and> s \<noteq> [] \<and> pos \<noteq> 3 \<and> v4_fields 0 (pos + 1) 0 s)"

definition v6_complete :: "nat \<Rightarrow> bool \<Rightarrow> bool" where
  "v6_complete i ellipsis \<longleftrightarrow> (if i < 16 then ellipsis else \<not> ellipsis)"

text \<open>The loop of \<open>parseIPv6\<close>: bytes written so far, whether a \<open>::\<close> was seen, what is left.\<close>

function v6_groups :: "nat \<Rightarrow> bool \<Rightarrow> string \<Rightarrow> bool" where
  "v6_groups i ellipsis s \<longleftrightarrow>
     (if 16 \<le> i then s = [] \<and> v6_complete i ellipsis
      else
        (let g = takeWhile hex_byte s; rest = dropWhile hex_byte s
         in if g = [] \<or> 4 < length g then False
            else
              (case rest of
                 [] \<Rightarrow> v6_complete (i + 2) ellipsis
               | c # r \<Rightarrow>
                   if c = CHR ''.'' then
                     (ellipsis \<or> i = 12) \<and> i + 4 \<le> 16 \<and> v4_fields 0 0 0 s \<and> v6_complete (i + 4) ellipsis
                   else if c \<noteq> CHR '':'' then False
                   else
                     (case r of
                        [] \<Rightarrow> False
                      | d # r' \<Rightarrow>
                          if d = CHR '':'' then
                            \<not> ellipsis \<and> (if r' = [] then v6_complete (i + 2) True
                                           else v6_groups (i + 2) True r')
                          else v6_groups (i + 2) ellipsis r))))"
  by pat_completeness auto
termination
  by (relation "measure (\<lambda>(i, e, s). 16 - i)") auto

declare v6_groups.simps [simp del]

definition v6_ok :: "string \<Rightarrow> bool" where
  "v6_ok s \<longleftrightarrow>
     (case s of
        a # b # r \<Rightarrow>
          if a = CHR '':'' \<and> b = CHR '':'' then r = [] \<or> v6_groups 0 True r
          else v6_groups 0 False s
      | _ \<Rightarrow> v6_groups 0 False s)"

text \<open>\<open>ParseAddr\<close>, an address with a zone refused: the bits of an address, or no address.\<close>

definition addr_bits :: "string \<Rightarrow> int option" where
  "addr_bits s =
     (case find (\<lambda>c. c \<in> set ''.:%'') s of
        None \<Rightarrow> None
      | Some c \<Rightarrow>
          if c = CHR ''.'' then (if v4_fields 0 0 0 s then Some 32 else None)
          else if c = CHR '':'' then (if CHR ''%'' \<notin> set s \<and> v6_ok s then Some 128 else None)
          else None)"

definition parse_ip :: "string \<Rightarrow> bool" where
  "parse_ip s \<longleftrightarrow> addr_bits s \<noteq> None"

definition parse_cidr :: "string \<Rightarrow> bool" where
  "parse_cidr s =
     (case cut_string s (CHR ''/'') of
        (addr, bits_text, found) \<Rightarrow>
          found \<and> (case addr_bits addr of
                     None \<Rightarrow> False
                   | Some bits \<Rightarrow> list_all dec_digit bits_text \<and> snd (parse_uint bits_text) = None
                       \<and> fst (parse_uint bits_text) \<le> bits))"

section \<open>Rooted paths\<close>

text \<open>\<open>filepath.Clean\<close> for a path that starts at the root.\<close>

definition clean_element :: "string \<Rightarrow> string list \<Rightarrow> string list" where
  "clean_element e dirs =
     (if e = [] \<or> e = ''.'' then dirs
      else if e = ''..'' then (case dirs of [] \<Rightarrow> [] | _ # up \<Rightarrow> up)
      else e # dirs)"

definition clean_rooted :: "string \<Rightarrow> string" where
  "clean_rooted p =
     CHR ''/'' # join (rev (fold clean_element (split_string (tl p) (CHR ''/'')) [])) ''/''"

definition is_abs :: "string \<Rightarrow> bool" where
  "is_abs p \<longleftrightarrow> has_prefix p ''/''"

section \<open>Facts\<close>

definition addr_byte :: "byte \<Rightarrow> bool" where
  "addr_byte c \<longleftrightarrow> hex_byte c \<or> c = CHR ''.'' \<or> c = CHR '':''"

lemma v4_fields_bytes: "v4_fields val pos len s \<Longrightarrow> list_all addr_byte s"
proof (induction val pos len s rule: v4_fields.induct)
  case (2 val pos len c s)
  then show ?case
    by (cases "digit_of c") (auto simp: addr_byte_def hex_byte_def dec_digit_def)
qed simp

lemma hex_group_bytes: "list_all addr_byte (takeWhile hex_byte s)"
  by (auto simp: list_all_iff addr_byte_def dest: set_takeWhileD)

lemma v6_groups_bytes: "v6_groups i e s \<Longrightarrow> list_all addr_byte s"
proof (induction i e s rule: v6_groups.induct)
  case (1 i e s)
  let ?g = "takeWhile hex_byte s"
  let ?rest = "dropWhile hex_byte s"
  have s: "s = ?g @ ?rest" by simp
  have colon: "addr_byte (CHR '':'')" by (simp add: addr_byte_def)
  show ?case
  proof (cases "16 \<le> i")
    case True
    with "1.prems" show ?thesis by (simp add: v6_groups.simps)
  next
    case i: False
    show ?thesis
    proof (cases ?rest)
      case Nil
      then show ?thesis using hex_group_bytes [of s] s by (metis append_Nil2)
    next
      case (Cons c r)
      have prems: "?g \<noteq> []" "length ?g \<le> 4"
        using "1.prems" i by (simp_all add: v6_groups.simps [of i] Let_def split: if_splits)
      show ?thesis
      proof (cases "c = CHR ''.''")
        case True
        with "1.prems" i Cons have "v4_fields 0 0 0 s"
          by (simp add: v6_groups.simps [of i] Let_def split: if_splits)
        then show ?thesis by (rule v4_fields_bytes)
      next
        case dot: False
        with "1.prems" i Cons prems have c: "c = CHR '':''"
          by (simp add: v6_groups.simps [of i] Let_def split: if_splits)
        with "1.prems" i Cons prems obtain d r' where r: "r = d # r'"
          by (cases r) (simp_all add: v6_groups.simps [of i] Let_def)
        have "list_all addr_byte r"
        proof (cases "d = CHR '':''")
          case True
          then have "r' = [] \<or> v6_groups (i + 2) True r'"
            using "1.prems" i Cons prems c r by (simp add: v6_groups.simps [of i] Let_def split: if_splits)
          moreover have "list_all addr_byte r'" if "v6_groups (i + 2) True r'" "r' \<noteq> []"
            using "1.IH"(1) [OF i refl refl _ Cons] prems dot c r True that
            by simp
          ultimately show ?thesis using r True colon by (cases "r' = []") auto
        next
          case False
          then have "v6_groups (i + 2) e r"
            using "1.prems" i Cons prems c r by (simp add: v6_groups.simps [of i] Let_def)
          then show ?thesis
            using "1.IH"(2) [OF i refl refl _ Cons] prems dot c r False by simp
        qed
        then have "list_all addr_byte ?rest" using Cons c colon by simp
        then show ?thesis using hex_group_bytes [of s] s by (metis list_all_append)
      qed
    qed
  qed
qed

lemma v6_ok_bytes: "v6_ok s \<Longrightarrow> list_all addr_byte s"
proof -
  assume "v6_ok s"
  then have "v6_groups 0 False s \<or> (\<exists>r. s = ''::'' @ r \<and> (r = [] \<or> v6_groups 0 True r))"
    by (auto simp: v6_ok_def split: list.splits if_splits)
  then show ?thesis
  proof (elim disjE exE conjE)
    fix r
    assume "s = ''::'' @ r" and "v6_groups 0 True r"
    then show ?thesis using v6_groups_bytes [of 0 True r] by (simp add: addr_byte_def)
  qed (simp_all add: v6_groups_bytes addr_byte_def)
qed

lemma parse_ip_bytes: "parse_ip s \<Longrightarrow> list_all addr_byte s"
  using v6_ok_bytes v4_fields_bytes
  by (auto simp: parse_ip_def addr_bits_def split: option.splits if_splits)

text \<open>An address is not empty and has neither a comma nor space in it.\<close>

lemma solid_dec_digit: "dec_digit c \<Longrightarrow> solid c \<and> c \<noteq> CHR '',''"
proof -
  assume "dec_digit c"
  then have "48 \<le> (of_char c :: int) \<and> (of_char c :: int) \<le> 57"
    by (simp add: dec_digit_def digit_of_def Let_def split: if_splits)
  then show ?thesis by (auto simp: solid_def space1_def)
qed

lemma solid_addr_letters: "list_all (\<lambda>c. solid c \<and> c \<noteq> CHR '','') ''abcdefABCDEF.:''"
  by (simp add: solid_def space1_def)

lemma solid_addr_byte: "addr_byte c \<Longrightarrow> solid c \<and> c \<noteq> CHR '',''"
proof (cases "dec_digit c")
  case False
  assume "addr_byte c"
  with False have "c \<in> set ''abcdef'' \<union> set ''ABCDEF'' \<union> set ''.:''"
    unfolding addr_byte_def hex_byte_def by force
  then have "c \<in> set ''abcdefABCDEF.:''" by (simp only: set_append [symmetric]) simp
  with solid_addr_letters show ?thesis unfolding list_all_iff by blast
qed (rule solid_dec_digit)

lemma parse_ip_plain:
  assumes "parse_ip s"
  shows "s \<noteq> []" and "list_all solid s" and "CHR '','' \<notin> set s"
proof -
  have bytes: "solid c \<and> c \<noteq> CHR '',''" if "c \<in> set s" for c
    using that parse_ip_bytes [OF assms] solid_addr_byte unfolding list_all_iff by blast
  then show "list_all solid s" "CHR '','' \<notin> set s" unfolding list_all_iff by blast+
  show "s \<noteq> []" using assms by (auto simp: parse_ip_def addr_bits_def)
qed

end
