(* ===== verification/Config.thy ===== *)
theory Config
  imports GoNet "HOL-Library.List_Lexorder" "HOL-Library.Char_ord"
begin

text \<open>
  \<open>backend/internal/config/config.go\<close>: the appliance's configuration, the rules it has to
  satisfy, and what is rescued from one that does not.
\<close>

section \<open>The configuration\<close>

record system_config =
  sys_hostname :: string
  sys_setup_complete :: bool
  sys_usb_autosuspend :: int

record grbl_config =
  grbl_backend :: string
  grbl_device :: string
  grbl_baudrate :: int
  grbl_port :: int
  grbl_max_connections :: int
  grbl_reconnect :: bool
  grbl_kick_old_user :: bool
  grbl_on_disconnect :: string
  grbl_monitor_port :: int
  grbl_stationary_beam :: int

record camera_config =
  cam_device :: string
  cam_format :: string
  cam_resolution :: string
  cam_fps :: int
  cam_port :: int
  cam_quality :: int

record ssh_config =
  ssh_enabled :: bool
  ssh_password :: bool

record network_config =
  net_mode :: string
  net_address :: string
  net_gateway :: string
  net_dns :: "string list"

record wifi_config =
  wifi_enabled :: bool
  wifi_ssid :: string
  wifi_psk :: string
  wifi_country :: string
  wifi_hidden :: bool

record config =
  cg_system :: system_config
  cg_grbl :: grbl_config
  cg_camera :: camera_config
  cg_ssh :: ssh_config
  cg_network :: network_config
  cg_wifi :: wifi_config

definition USBAutosuspendOff :: int where "USBAutosuspendOff = - 1"
definition MaxUSBAutosuspend :: int where "MaxUSBAutosuspend = 3600"

definition BackendSer2net :: string where "BackendSer2net = ''ser2net''"
definition BackendLaserbridged :: string where "BackendLaserbridged = ''laserbridged''"

definition OnDisconnectNone :: string where "OnDisconnectNone = ''none''"
definition OnDisconnectHold :: string where "OnDisconnectHold = ''hold''"
definition OnDisconnectReset :: string where "OnDisconnectReset = ''reset''"

definition Default :: config where
  "Default =
     \<lparr>cg_system =
        \<lparr>sys_hostname = ''laserbridge'', sys_setup_complete = False,
         sys_usb_autosuspend = USBAutosuspendOff\<rparr>,
      cg_grbl =
        \<lparr>grbl_backend = BackendSer2net, grbl_device = ''/dev/ttyUSB0'', grbl_baudrate = 115200,
         grbl_port = 23, grbl_max_connections = 1, grbl_reconnect = True,
         grbl_kick_old_user = True, grbl_on_disconnect = OnDisconnectReset,
         grbl_monitor_port = 0, grbl_stationary_beam = 20\<rparr>,
      cg_camera =
        \<lparr>cam_device = ''/dev/video0'', cam_format = ''MJPEG'', cam_resolution = ''1280x720'',
         cam_fps = 30, cam_port = 8080, cam_quality = 80\<rparr>,
      cg_ssh = \<lparr>ssh_enabled = True, ssh_password = True\<rparr>,
      cg_network = \<lparr>net_mode = ''dhcp'', net_address = [], net_gateway = [], net_dns = []\<rparr>,
      cg_wifi =
        \<lparr>wifi_enabled = False, wifi_ssid = [], wifi_psk = [], wifi_country = ''DE'',
         wifi_hidden = False\<rparr>\<rparr>"

section \<open>The rules\<close>

definition ascii_letter :: "byte \<Rightarrow> bool" where
  "ascii_letter c \<longleftrightarrow>
     (let n = of_char c :: nat in (65 \<le> n \<and> n \<le> 90) \<or> (97 \<le> n \<and> n \<le> 122))"

definition ascii_alnum :: "byte \<Rightarrow> bool" where
  "ascii_alnum c \<longleftrightarrow> ascii_letter c \<or> dec_digit c"

text \<open>
  The regular expressions, as what they say: one to 63 letters, digits and hyphens with no
  hyphen at either end; two numbers of two to five digits, the first not a zero; two capitals.
\<close>

definition hostname_matches :: "string \<Rightarrow> bool" where
  "hostname_matches s \<longleftrightarrow>
     s \<noteq> [] \<and> length s \<le> 63 \<and> list_all (\<lambda>c. ascii_alnum c \<or> c = CHR ''-'') s
     \<and> ascii_alnum (hd s) \<and> ascii_alnum (last s)"

definition resolution_number :: "string \<Rightarrow> bool" where
  "resolution_number s \<longleftrightarrow>
     2 \<le> length s \<and> length s \<le> 5 \<and> list_all dec_digit s \<and> hd s \<noteq> CHR ''0''"

definition resolution_matches :: "string \<Rightarrow> bool" where
  "resolution_matches s \<longleftrightarrow>
     (case split_string s (CHR ''x'') of
        [w, h] \<Rightarrow> resolution_number w \<and> resolution_number h
      | _ \<Rightarrow> False)"

definition country_matches :: "string \<Rightarrow> bool" where
  "country_matches s \<longleftrightarrow>
     length s = 2 \<and> list_all (\<lambda>c. let n = of_char c :: nat in 65 \<le> n \<and> n \<le> 90) s"

definition validatePort :: "string \<Rightarrow> int \<Rightarrow> string option" where
  "validatePort name port =
     (if port < 1 \<or> 65535 < port then Some (name @ '' must be between 1 and 65535'') else None)"

definition control_bytes :: string where
  "control_bytes = [CHR 0x00, CHR 0x0A, CHR 0x0D]"

definition validDevice :: "string \<Rightarrow> string list \<Rightarrow> bool" where
  "validDevice path starts \<longleftrightarrow>
     is_abs path \<and> clean_rooted path = path \<and> \<not> contains_any path control_bytes
     \<and> list_ex (\<lambda>p. has_prefix path p \<and> length p < length path) starts"

definition valid_baud :: "int list" where
  "valid_baud = [9600, 19200, 38400, 57600, 115200, 230400, 250000, 500000, 1000000]"

definition complain :: "bool \<Rightarrow> string \<Rightarrow> string list" where
  "complain wrong text = (if wrong then [text] else [])"

definition complaint :: "string option \<Rightarrow> string list" where
  "complaint e = (case e of None \<Rightarrow> [] | Some text \<Rightarrow> [text])"

definition resolution_too_large :: "string \<Rightarrow> bool" where
  "resolution_too_large s =
     (case split_string s (CHR ''x'') of
        w # h # _ \<Rightarrow> 8192 < fst (atoi w) \<or> 8192 < fst (atoi h)
      | _ \<Rightarrow> False)"

text \<open>The loop over the claimed ports: who has taken which, and the complaints.\<close>

fun claim_ports :: "(int \<times> string) list \<Rightarrow> (string \<times> int) list \<Rightarrow> string list" where
  "claim_ports taken [] = []"
| "claim_ports taken ((name, port) # claims) =
     (if port = 0 then claim_ports taken claims
      else
        (case map_of taken port of
           Some owner \<Rightarrow>
             (name @ '' uses port '' @ itoa port @ '', which belongs to '' @ owner)
               # claim_ports taken claims
         | None \<Rightarrow> claim_ports ((port, name) # taken) claims))"

definition taken_ports :: "(int \<times> string) list" where
  "taken_ports = [(22, ''SSH''), (80, ''the web interface'')]"

definition port_claims :: "config \<Rightarrow> (string \<times> int) list" where
  "port_claims c =
     [(''grbl.port'', grbl_port (cg_grbl c)), (''camera.port'', cam_port (cg_camera c)),
      (''grbl.monitor_port'', grbl_monitor_port (cg_grbl c))]"

definition system_problems :: "system_config \<Rightarrow> string list" where
  "system_problems s =
     complain (\<not> hostname_matches (sys_hostname s)) ''system.hostname must be a single RFC 1123 label''
     @ complain (sys_usb_autosuspend s < USBAutosuspendOff \<or> MaxUSBAutosuspend < sys_usb_autosuspend s)
         (''system.usb_autosuspend must be '' @ itoa USBAutosuspendOff
          @ '' to switch it off, or 0 to '' @ itoa MaxUSBAutosuspend @ '' seconds'')"

definition grbl_problems :: "grbl_config \<Rightarrow> string list" where
  "grbl_problems g =
     complain (grbl_backend g \<noteq> BackendSer2net \<and> grbl_backend g \<noteq> BackendLaserbridged)
       ''grbl.backend must be ser2net or laserbridged''
     @ complain (\<not> validDevice (grbl_device g) [''/dev/ttyUSB'', ''/dev/ttyACM'', ''/dev/serial/by-id/''])
         ''grbl.device must be a supported absolute device path''
     @ complain (grbl_baudrate g \<notin> set valid_baud) ''grbl.baudrate is unsupported''
     @ complaint (validatePort ''grbl.port'' (grbl_port g))
     @ complain (grbl_max_connections g < 1 \<or> 16 < grbl_max_connections g)
         ''grbl.max_connections must be between 1 and 16''
     @ complain (grbl_on_disconnect g \<notin> set [OnDisconnectNone, OnDisconnectHold, OnDisconnectReset])
         ''grbl.on_disconnect must be none, hold or reset''
     @ complain (grbl_stationary_beam g \<noteq> 0
           \<and> (grbl_stationary_beam g < 2 \<or> 600 < grbl_stationary_beam g))
         ''grbl.stationary_beam_seconds must be 0 to disable, or between 2 and 600''
     @ (if grbl_monitor_port g \<noteq> 0
        then complaint (validatePort ''grbl.monitor_port'' (grbl_monitor_port g)) else [])"

definition camera_problems :: "camera_config \<Rightarrow> string list" where
  "camera_problems k =
     complain (\<not> validDevice (cam_device k) [''/dev/video'', ''/dev/v4l/by-id/''])
       ''camera.device must be a supported absolute device path''
     @ complain (cam_format k \<noteq> ''MJPEG'' \<and> cam_format k \<noteq> ''YUYV'')
         ''camera.format must be MJPEG or YUYV''
     @ (if \<not> resolution_matches (cam_resolution k)
        then [''camera.resolution must look like 1280x720'']
        else complain (resolution_too_large (cam_resolution k)) ''camera.resolution is too large'')
     @ complain (cam_fps k < 1 \<or> 120 < cam_fps k) ''camera.fps must be between 1 and 120''
     @ complaint (validatePort ''camera.port'' (cam_port k))
     @ complain (cam_quality k < 1 \<or> 100 < cam_quality k) ''camera.quality must be between 1 and 100''"

definition network_problems :: "network_config \<Rightarrow> string list" where
  "network_problems n =
     complain (net_mode n \<noteq> ''dhcp'' \<and> net_mode n \<noteq> ''static'') ''network.mode must be dhcp or static''
     @ (if net_mode n = ''static''
        then complain (\<not> parse_cidr (net_address n)) ''network.address must be CIDR notation''
             @ complain (\<not> parse_ip (net_gateway n)) ''network.gateway must be an IP address''
        else [])
     @ concat (map (\<lambda>s. complain (\<not> parse_ip s) ''network.dns contains an invalid IP address'') (net_dns n))"

definition wifi_problems :: "wifi_config \<Rightarrow> string list" where
  "wifi_problems w =
     complain (32 < length (wifi_ssid w) \<or> contains_any (wifi_ssid w) control_bytes)
       ''wifi.ssid must be at most 32 bytes without control characters''
     @ complain (wifi_enabled w \<and> wifi_ssid w = []) ''wifi.ssid is required when Wi-Fi is enabled''
     @ complain (wifi_enabled w \<and> (length (wifi_psk w) < 8 \<or> 63 < length (wifi_psk w)
           \<or> contains_any (wifi_psk w) control_bytes))
         ''wifi.psk must contain 8 to 63 characters''
     @ complain (\<not> country_matches (wifi_country w))
         ''wifi.country must be a two-letter uppercase country code''"

definition problems :: "config \<Rightarrow> string list" where
  "problems c =
     system_problems (cg_system c) @ grbl_problems (cg_grbl c) @ camera_problems (cg_camera c)
     @ claim_ports taken_ports (port_claims c)
     @ network_problems (cg_network c) @ wifi_problems (cg_wifi c)"

definition Validate :: "config \<Rightarrow> string option" where
  "Validate c = (if problems c = [] then None else Some (join (sort (problems c)) ''; ''))"

section \<open>Salvage\<close>

definition Salvage :: "config \<Rightarrow> config" where
  "Salvage broken =
     (let safe0 = (if hostname_matches (sys_hostname (cg_system broken))
                   then Default\<lparr>cg_system :=
                          (cg_system Default)\<lparr>sys_hostname := sys_hostname (cg_system broken)\<rparr>\<rparr>
                   else Default);
          usable = (Validate (safe0\<lparr>cg_wifi := cg_wifi broken\<rparr>) = None);
          safe1 = (if usable then safe0\<lparr>cg_wifi := cg_wifi broken\<rparr> else safe0);
          safe2 = (if Validate (safe1\<lparr>cg_network := cg_network broken\<rparr>) = None
                   then safe1\<lparr>cg_network := cg_network broken\<rparr> else safe1);
          safe3 = (if sys_setup_complete (cg_system broken)
                        \<and> (usable \<or> \<not> wifi_enabled (cg_wifi broken))
                   then safe2\<lparr>cg_system := (cg_system safe2)\<lparr>sys_setup_complete := True\<rparr>\<rparr>
                   else safe2)
      in if Validate safe3 \<noteq> None then Default else safe3)"

section \<open>Facts\<close>

lemma complain_iff [simp]: "complain wrong text = [] \<longleftrightarrow> \<not> wrong"
  by (simp add: complain_def)

lemma complaint_iff [simp]: "complaint e = [] \<longleftrightarrow> e = None"
  by (simp add: complaint_def split: option.splits)

lemma validatePort_iff [simp]: "validatePort name port = None \<longleftrightarrow> 1 \<le> port \<and> port \<le> 65535"
  by (auto simp: validatePort_def)

lemma Validate_iff: "Validate c = None \<longleftrightarrow> problems c = []"
  by (simp add: Validate_def)

lemma problems_iff:
  "problems c = [] \<longleftrightarrow>
     system_problems (cg_system c) = [] \<and> grbl_problems (cg_grbl c) = []
     \<and> camera_problems (cg_camera c) = [] \<and> claim_ports taken_ports (port_claims c) = []
     \<and> network_problems (cg_network c) = [] \<and> wifi_problems (cg_wifi c) = []"
  by (simp add: problems_def)

lemma Default_valid: "Validate Default = None"
  by code_simp

end
