(* ===== verification/Api_Guards.thy ===== *)
theory Api_Guards
  imports Status_Socket Config
begin

text \<open>
  The handlers of the web backend that stand between a browser and the bridge:
  \<open>backend/internal/api/busy.go\<close>, which refuses to interrupt a machine at work, and
  \<open>backend/internal/api/control.go\<close>, which passes an operator's command on. The configuration
  that was loaded, what the daemon answered, the decoded body of a request and SHA-256 are
  arguments.
\<close>

section \<open>Is the machine at work?\<close>

definition formatPosition :: "position \<Rightarrow> string" where
  "formatPosition p = ''X '' @ fmt_shortest (pos_x p) @ '' Y '' @ fmt_shortest (pos_y p)"

definition describe :: "machine_state \<Rightarrow> string" where
  "describe s =
     (if s = StateRun then ''the machine is cutting''
      else if s = StateJog then ''the machine is jogging''
      else if s = StateHome then ''the machine is homing''
      else if s = StateHold then ''the machine is holding a job''
      else if s = StateDoor then ''the machine is paused with the door open''
      else ''the machine reports '' @ s)"

text \<open>
  \<open>None\<close> for the backend is a configuration that could not be loaded, \<open>None\<close> for the status a
  daemon that did not answer.
\<close>

definition machineBusy :: "string option \<Rightarrow> status option \<Rightarrow> bool \<times> string" where
  "machineBusy backend answer =
     (if backend \<noteq> Some BackendLaserbridged then (False, [])
      else
        (case answer of
           None \<Rightarrow> (False, [])
         | Some st \<Rightarrow>
             (let m = st_machine st; j = st_job st;
                  spot = (if mc_has_position m then formatPosition (mc_position m) else [])
              in if Moving (mc_state m) then
                   (True, describe (mc_state m) @ (if spot \<noteq> [] then '' at '' @ spot else []))
                 else if jb_running j then
                   (True, ''a job is running''
                      @ (if 0 < jb_lines j
                         then '' ('' @ itoa (uint (jb_lines j)) @ '' lines so far)'' else [])
                      @ (if spot \<noteq> [] then '', the machine standing at '' @ spot else []))
                 else (False, []))))"

record refusal =
  rf_status :: int
  rf_error :: string
  rf_busy :: bool
  rf_reason :: string

definition refuseWhileBusy ::
    "string \<Rightarrow> string \<Rightarrow> string option \<Rightarrow> status option \<Rightarrow> refusal option" where
  "refuseWhileBusy force what backend answer =
     (if force = ''true'' then None
      else
        (case machineBusy backend answer of
           (False, _) \<Rightarrow> None
         | (True, reason) \<Rightarrow>
             Some \<lparr>rf_status = 409,
                   rf_error = what @ '' while '' @ reason
                     @ ''. Repeat with force=true if that is what you want.'',
                   rf_busy = True, rf_reason = reason\<rparr>))"

section \<open>Steering\<close>

definition hex_digit :: "nat \<Rightarrow> byte" where
  "hex_digit n = (if n < 10 then char_of (48 + n) else char_of (87 + n))"

definition hex_string :: "string \<Rightarrow> string" where
  "hex_string s =
     concat (map (\<lambda>c. [hex_digit (of_char c div 16), hex_digit (of_char c mod 16)]) s)"

definition holderOf :: "(string \<Rightarrow> string) \<Rightarrow> string option \<Rightarrow> string" where
  "holderOf sha256 cookie =
     (case cookie of
        None \<Rightarrow> []
      | Some v \<Rightarrow> if v = [] then [] else ''session '' @ hex_string (take 4 (sha256 v)))"

definition refusal_code :: "string \<Rightarrow> int" where
  "refusal_code e =
     (if contains_string e ''client is connected'' then 409
      else if contains_string e ''no serial port'' then 503
      else if contains_string e ''unknown command'' then 404
      else if contains_string e ''only accepted from root'' then 403
      else if contains_string e ''somebody else is holding'' then 409
      else if contains_string e ''has not answered the last'' then 429
      else 422)"

text \<open>
  \<open>grblControl\<close>: the configuration, the decoded body, and the daemon, which takes the request
  and answers with an error of its own or the \<open>Error\<close> of a \<open>CommandAnswer\<close>. The result is the
  status code with the error that goes with it.
\<close>

definition grblControl ::
    "string + string \<Rightarrow> string + command_request \<Rightarrow> command \<Rightarrow> string \<Rightarrow>
     (command_request \<Rightarrow> string + string) \<Rightarrow> int \<times> string" where
  "grblControl backend body cmd holder daemon =
     (case backend of
        Inl e \<Rightarrow> (500, e)
      | Inr be \<Rightarrow>
          if be \<noteq> BackendLaserbridged then
            (409, ''steering needs the laserbridged backend; ser2net cannot tell what it is carrying'')
          else
            (case body of
               Inl e \<Rightarrow> (400, ''invalid JSON: '' @ e)
             | Inr rq \<Rightarrow>
                 (case daemon (rq\<lparr>rq_command := cmd, rq_holder := holder\<rparr>) of
                    Inl e \<Rightarrow> (503, ''the bridge did not answer: '' @ e)
                  | Inr answer \<Rightarrow> if answer \<noteq> [] then (refusal_code answer, answer) else (200, []))))"

section \<open>Facts\<close>

lemma busy_iff:
  "fst (machineBusy backend answer) \<longleftrightarrow>
     backend = Some BackendLaserbridged
     \<and> (\<exists>st. answer = Some st \<and> (Moving (mc_state (st_machine st)) \<or> jb_running (st_job st)))"
  by (simp add: machineBusy_def Let_def split: option.splits)

lemma refuses_iff:
  "refuseWhileBusy force what backend answer \<noteq> None \<longleftrightarrow>
     force \<noteq> ''true'' \<and> fst (machineBusy backend answer)"
  by (cases "machineBusy backend answer"; cases "fst (machineBusy backend answer)")
    (simp_all add: refuseWhileBusy_def)

text \<open>The code of the reply tells the refusals of the bridge apart.\<close>

lemma refusal_codes:
  "refusal_code (control_error_text quote ErrClientInCharge) = 409"
  "refusal_code (control_error_text quote ErrNoPort) = 503"
  "refusal_code (control_error_text quote ErrSomebodyElseIsAiming) = 409"
  "refusal_code (control_error_text quote ErrStillWorking) = 429"
  by code_simp+

text \<open>
  The code is found by looking for words in the error, and an error may quote what was sent:
  an unknown command that contains the words of another refusal is answered with its code.
\<close>

lemma a_command_may_choose_its_code:
  "refusal_code (control_error_text (\<lambda>s. CHR 0x22 # s @ [CHR 0x22])
     (ErrUnknownCommand (CommandOther ''no serial port''))) = 503"
  by code_simp

text \<open>
  A restart, an update or a reboot is refused exactly on positive evidence that it would
  interrupt something - the daemon answers, and the machine is moving or a job is open - and
  never when it is forced. A job that has begun keeps the door shut through every pause shorter
  than fifteen seconds, even while the machine stands still.
\<close>

theorem work_is_not_interrupted:
  assumes "\<not> jb_running (jt_job t)" and "\<not> still g" and "sg_client g" and "short_pauses gs"
    and "br_jobs b = fst (job_watch (g # gs) t)"
  shows "(refuseWhileBusy force what backend answer \<noteq> None \<longleftrightarrow>
      force \<noteq> ''true'' \<and> backend = Some BackendLaserbridged
      \<and> (\<exists>st. answer = Some st \<and> (Moving (mc_state (st_machine st)) \<or> jb_running (st_job st))))
    \<and> refuseWhileBusy [] what (Some BackendLaserbridged) (Some (Status b)) \<noteq> None"
proof
  show "refuseWhileBusy force what backend answer \<noteq> None \<longleftrightarrow>
      force \<noteq> ''true'' \<and> backend = Some BackendLaserbridged
      \<and> (\<exists>st. answer = Some st \<and> (Moving (mc_state (st_machine st)) \<or> jb_running (st_job st)))"
    by (simp only: refuses_iff busy_iff)
  have "jb_running (st_job (Status b))"
    using job_kept [OF assms(1-4)] assms(5) by (simp add: Status_def job_current_def)
  then show "refuseWhileBusy [] what (Some BackendLaserbridged) (Some (Status b)) \<noteq> None"
    unfolding refuses_iff busy_iff by simp
qed

definition piercing :: bridge where
  "piercing = idle_bridge
     \<lparr>br_jobs := fst (job_watch [sight StateRun 0, sight StateIdle 1] newJobTracker)\<rparr>"

theorem work_is_not_interrupted_witness:
  "refuseWhileBusy [] ''not rebooting'' (Some BackendLaserbridged) (Some (Status piercing)) \<noteq> None"
proof -
  have "\<not> jb_running (jt_job newJobTracker)" "\<not> still (sight StateRun 0)" "sg_client (sight StateRun 0)"
    by (simp_all add: still_def sight_def newJobTracker_def blank_job_def)
  moreover have "short_pauses [sight StateIdle 1]"
    by (auto simp: short_pauses_def sight_def jobQuiet_def)
  moreover have "br_jobs piercing = fst (job_watch [sight StateRun 0, sight StateIdle 1] newJobTracker)"
    by (simp add: piercing_def)
  ultimately show ?thesis using work_is_not_interrupted by blast
qed

end
