(* ===== verification/Attempts.thy ===== *)
theory Attempts
  imports Prelude GoTime "HOL-Library.Word"
begin

unbundle bit_operations_syntax

text \<open>
  \<open>backend/internal/api/attempts.go\<close>: what stands between the network and the password. The
  lockout is computed on a 64 bit word with the shift of the code, overflow included. A check
  of a password is two steps - asking \<open>wait\<close> and recording the outcome - which requests made
  in parallel may interleave.
\<close>

section \<open>The guard\<close>

record attempt_guard =
  ag_failures :: nat
  ag_until :: go_time

definition no_attempts :: attempt_guard where
  "no_attempts = \<lparr>ag_failures = 0, ag_until = None\<rparr>"

definition freeAttempts :: nat where "freeAttempts = 5"
definition firstLockout :: duration where "firstLockout = 15 * second"
definition maxLockout :: duration where "maxLockout = 300 * second"

definition guard_wait :: "instant \<Rightarrow> attempt_guard \<Rightarrow> duration" where
  \<comment> \<open>the zero time lies so far back that the difference is negative\<close>
  "guard_wait now g =
     (case ag_until g of
        None \<Rightarrow> 0
      | Some t \<Rightarrow> (let remaining = t - now in if remaining \<le> 0 then 0 else remaining))"

definition shifted_lockout :: "nat \<Rightarrow> duration" where
  \<comment> \<open>\<open>firstLockout << n\<close> on \<open>int64\<close>\<close>
  "shifted_lockout n = sint (push_bit n (of_int firstLockout :: 64 word))"

definition lockout_after :: "nat \<Rightarrow> duration" where
  "lockout_after failures =
     (let lockout = shifted_lockout (failures - freeAttempts - 1)
      in if maxLockout < lockout \<or> lockout \<le> 0 then maxLockout else lockout)"

definition guard_record :: "bool \<Rightarrow> instant \<Rightarrow> attempt_guard \<Rightarrow> attempt_guard" where
  "guard_record correct now g =
     (if correct then \<lparr>ag_failures = 0, ag_until = None\<rparr>
      else
        (let g1 = g\<lparr>ag_failures := ag_failures g + 1\<rparr>
         in if ag_failures g1 \<le> freeAttempts then g1
            else g1\<lparr>ag_until := Some (now + lockout_after (ag_failures g1))\<rparr>))"

definition refusal_seconds :: "duration \<Rightarrow> int" where
  "refusal_seconds wait =
     (let seconds = duration_round wait second div second in if seconds < 1 then 1 else seconds)"

text \<open>\<open>refuseTooManyAttempts\<close>: the seconds of the \<open>Retry-After\<close> header, or no refusal.\<close>

definition refuseTooManyAttempts :: "instant \<Rightarrow> attempt_guard \<Rightarrow> int option" where
  "refuseTooManyAttempts now g =
     (let wait = guard_wait now g in if wait \<le> 0 then None else Some (refusal_seconds wait))"

section \<open>The lockout, in closed form\<close>

lemma shifted_small: "n < 5 \<Longrightarrow> shifted_lockout n = 15 * second * 2 ^ n"
proof -
  assume "n < 5"
  then consider "n = 0" | "n = 1" | "n = 2" | "n = 3" | "n = 4" by linarith
  then show ?thesis by cases (simp_all add: shifted_lockout_def firstLockout_def)
qed

definition lockout_capped :: "nat \<Rightarrow> bool" where
  "lockout_capped n \<longleftrightarrow> maxLockout < shifted_lockout n \<or> shifted_lockout n \<le> 0"

lemma capped_upto_63: "list_all lockout_capped [5..<64]"
  by code_simp

lemma capped_beyond: "64 \<le> n \<Longrightarrow> lockout_capped n"
proof -
  assume "64 \<le> n"
  then have "push_bit n (of_int firstLockout :: 64 word) = 0"
    by (intro bit_eqI) (simp add: bit_push_bit_iff)
  then show ?thesis by (simp add: lockout_capped_def shifted_lockout_def)
qed

lemma capped_from_5: "5 \<le> n \<Longrightarrow> lockout_capped n"
proof (cases "n < 64")
  case True
  assume "5 \<le> n"
  with True have "n \<in> set [5..<64]" unfolding set_upt by simp
  with capped_upto_63 show ?thesis unfolding list_all_iff by blast
qed (simp add: capped_beyond)

lemma lockout_closed_form:
  "lockout_after (Suc (freeAttempts + n)) = (if n < 5 then 15 * second * 2 ^ n else maxLockout)"
proof (cases "n < 5")
  case True
  then consider "n = 0" | "n = 1" | "n = 2" | "n = 3" | "n = 4" by linarith
  then show ?thesis
    by cases (simp_all add: lockout_after_def shifted_small maxLockout_def Let_def)
next
  case False
  with capped_from_5 [of n] show ?thesis
    by (auto simp: lockout_after_def lockout_capped_def Let_def)
qed

lemma lockout_range: "freeAttempts < f \<Longrightarrow> 15 * second \<le> lockout_after f \<and> lockout_after f \<le> maxLockout"
proof -
  assume "freeAttempts < f"
  then obtain n where f: "f = Suc (freeAttempts + n)" by (auto dest: less_imp_Suc_add)
  have "1 \<le> (2::int) ^ n" "n < 5 \<Longrightarrow> (2::int) ^ n \<le> 2 ^ 4"
    using power_increasing [of n 4 "2::int"] by simp_all
  then show ?thesis
    unfolding f lockout_closed_form by (cases "n < 5") (simp_all add: maxLockout_def)
qed

section \<open>One guess after another\<close>

text \<open>
  A guesser who sends one wrong password after another, each as soon as the guard lets it in:
  \<open>guesses\<close> says that every one of the given times was allowed.
\<close>

fun guesses :: "instant list \<Rightarrow> attempt_guard \<Rightarrow> bool" where
  "guesses [] g \<longleftrightarrow> True"
| "guesses (t # ts) g \<longleftrightarrow> guard_wait t g = 0 \<and> guesses ts (guard_record False t g)"

lemma guard_wait_record:
  "freeAttempts \<le> ag_failures g \<Longrightarrow>
   guard_wait t' (guard_record False t g) = 0 \<longleftrightarrow> t + lockout_after (Suc (ag_failures g)) \<le> t'"
  by (auto simp: guard_wait_def guard_record_def Let_def)

lemma failures_record [simp]: "ag_failures (guard_record False t g) = Suc (ag_failures g)"
  by (simp add: guard_record_def Let_def)

lemma guesses_slow:
  "guesses (t # ts) g \<Longrightarrow> freeAttempts + 5 \<le> ag_failures g \<Longrightarrow>
   t + int (length ts) * maxLockout \<le> last (t # ts)"
proof (induction ts arbitrary: t g)
  case Nil
  then show ?case by simp
next
  case (Cons u us)
  let ?g = "guard_record False t g"
  have u: "guesses (u # us) ?g" and wait: "guard_wait u ?g = 0" using Cons.prems(1) by auto
  obtain n where n: "ag_failures g = freeAttempts + 5 + n"
    using Cons.prems(2) by (metis le_iff_add)
  have "lockout_after (Suc (ag_failures g)) = maxLockout"
    using lockout_closed_form [of "5 + n"] by (simp add: n add.assoc)
  with wait Cons.prems(2) have "t + maxLockout \<le> u" by (simp add: guard_wait_record)
  with Cons.IH [OF u] Cons.prems(2) show ?case by (simp add: algebra_simps)
qed

section \<open>Guesses in parallel\<close>

text \<open>
  What the two endpoints do: \<open>Ask\<close> is the call of \<open>wait\<close>, after which the request goes on to
  verify its password, and \<open>Outcome\<close> is the call of \<open>record\<close>. No lock is held from one to the
  other.
\<close>

datatype attempt = Ask nat instant | Outcome nat instant bool

record endpoint =
  ep_guard :: attempt_guard
  ep_admitted :: "nat list"
  ep_verified :: nat

definition endpoint_step :: "attempt \<Rightarrow> endpoint \<Rightarrow> endpoint" where
  "endpoint_step a e =
     (case a of
        Ask who now \<Rightarrow>
          (if 0 < guard_wait now (ep_guard e) then e else e\<lparr>ep_admitted := who # ep_admitted e\<rparr>)
      | Outcome who now correct \<Rightarrow>
          (if who \<in> set (ep_admitted e) then
             e\<lparr>ep_guard := guard_record correct now (ep_guard e),
               ep_admitted := removeAll who (ep_admitted e), ep_verified := ep_verified e + 1\<rparr>
           else e))"

definition endpoint_run :: "attempt list \<Rightarrow> endpoint \<Rightarrow> endpoint" where
  "endpoint_run as e = fold endpoint_step as e"

definition fresh_endpoint :: endpoint where
  "fresh_endpoint = \<lparr>ep_guard = no_attempts, ep_admitted = [], ep_verified = 0\<rparr>"

lemma asks_admitted:
  "guard_wait t (ep_guard e) = 0 \<Longrightarrow>
   endpoint_run (map (\<lambda>i. Ask i t) is) e = e\<lparr>ep_admitted := rev is @ ep_admitted e\<rparr>"
  by (induction "is" arbitrary: e) (simp_all add: endpoint_run_def endpoint_step_def)

lemma outcomes_verified:
  "distinct is \<Longrightarrow> set is \<subseteq> set (ep_admitted e) \<Longrightarrow>
   ep_verified (endpoint_run (map (\<lambda>i. Outcome i t False) is) e) = ep_verified e + length is"
proof (induction "is" arbitrary: e)
  case Nil
  then show ?case by (simp add: endpoint_run_def)
next
  case (Cons i js)
  let ?e = "endpoint_step (Outcome i t False) e"
  have "set js \<subseteq> set (ep_admitted ?e)" and "ep_verified ?e = ep_verified e + 1"
    using Cons.prems by (auto simp: endpoint_step_def)
  with Cons show ?case by (simp add: endpoint_run_def)
qed

section \<open>What the guard promises\<close>

text \<open>
  After the five free attempts the lockout doubles from fifteen seconds and stays at five
  minutes from the sixth doubling on, for every number of failures: the shift never overflows
  into a short one.
\<close>

theorem lockout_doubles_to_five_minutes:
  "lockout_after (Suc (freeAttempts + n)) = (if n < 5 then 15 * second * 2 ^ n else 300 * second)"
  using lockout_closed_form [of n] by (simp add: maxLockout_def)

text \<open>
  Somebody who guesses one password after the other gets at most one guess per five
  minutes once ten guesses have failed.
\<close>

theorem guessing_is_slow:
  assumes "guesses (t # ts) g" and "freeAttempts + 5 \<le> ag_failures g"
  shows "t + int (length ts) * (300 * second) \<le> last (t # ts)"
  using guesses_slow [OF assms] by (simp add: maxLockout_def)

theorem guessing_is_slow_witness:
  "(0::int) + int (length [400 * second]) * (300 * second) \<le> last [0, 400 * second]"
proof -
  have "guesses [0, 400 * second] \<lparr>ag_failures = 10, ag_until = None\<rparr>"
    using lockout_closed_form [of 5]
    by (simp add: guard_wait_def guard_record_def freeAttempts_def maxLockout_def)
  from guessing_is_slow [OF this] show ?thesis by (simp add: freeAttempts_def)
qed

text \<open>
  Nothing slows down guesses that are made in parallel: any number of requests that asked
  before the first one failed have their password verified.
\<close>

theorem parallel_guesses_are_all_verified:
  "ep_verified (endpoint_run (map (\<lambda>i. Ask i t) [0..<n] @ map (\<lambda>i. Outcome i t False) [0..<n]) fresh_endpoint) = n"
proof -
  let ?e = "endpoint_run (map (\<lambda>i. Ask i t) [0..<n]) fresh_endpoint"
  have "?e = fresh_endpoint\<lparr>ep_admitted := rev [0..<n]\<rparr>"
    using asks_admitted [of t fresh_endpoint "[0..<n]"]
    by (simp add: fresh_endpoint_def no_attempts_def guard_wait_def)
  then show ?thesis
    using outcomes_verified [of "[0..<n]" ?e t]
    by (simp add: endpoint_run_def fresh_endpoint_def)
qed

end
