(* ===== verification/GoQuote.thy ===== *)
theory GoQuote
  imports GoLib
begin

text \<open>
  \<open>strconv.Quote\<close>, \<open>strconv.Unquote\<close> and the part of \<open>unicode/utf8\<close> under them, on bytes. The
  table of printable runes outside Latin-1 is an argument: quoting and reading back agree for
  every such table.
\<close>

section \<open>Package utf8\<close>

definition runeError :: nat where "runeError = 65533"

abbreviation code_of :: "byte \<Rightarrow> nat" where "code_of \<equiv> of_char"

definition tail_byte_of :: "byte \<Rightarrow> bool" where
  "tail_byte_of b \<longleftrightarrow> 128 \<le> code_of b \<and> code_of b < 192"

text \<open>\<open>DecodeRuneInString\<close>: the rune and its width; one byte that starts no rune is \<open>RuneError\<close>.\<close>

definition decode_rune :: "byte \<Rightarrow> string \<Rightarrow> nat \<times> nat" where
  "decode_rune a t =
     (let n = code_of a
      in if n < 128 then (n, 1)
         else if n < 194 \<or> 244 < n then (runeError, 1)
         else if n < 224 then
           (case t of
              b # _ \<Rightarrow> if tail_byte_of b then ((n - 192) * 64 + (code_of b - 128), 2) else (runeError, 1)
            | _ \<Rightarrow> (runeError, 1))
         else if n < 240 then
           (case t of
              b # c # _ \<Rightarrow>
                if tail_byte_of b \<and> tail_byte_of c
                   \<and> (n = 224 \<longrightarrow> 160 \<le> code_of b) \<and> (n = 237 \<longrightarrow> code_of b < 160)
                then ((n - 224) * 4096 + (code_of b - 128) * 64 + (code_of c - 128), 3)
                else (runeError, 1)
            | _ \<Rightarrow> (runeError, 1))
         else
           (case t of
              b # c # d # _ \<Rightarrow>
                if tail_byte_of b \<and> tail_byte_of c \<and> tail_byte_of d
                   \<and> (n = 240 \<longrightarrow> 144 \<le> code_of b) \<and> (n = 244 \<longrightarrow> code_of b < 144)
                then ((n - 240) * 262144 + (code_of b - 128) * 4096 + (code_of c - 128) * 64
                      + (code_of d - 128), 4)
                else (runeError, 1)
            | _ \<Rightarrow> (runeError, 1)))"

definition valid_rune :: "nat \<Rightarrow> bool" where
  "valid_rune r \<longleftrightarrow> r < 55296 \<or> (57344 \<le> r \<and> r \<le> 1114111)"

definition append_rune :: "nat \<Rightarrow> string" where
  \<comment> \<open>\<open>AppendRune\<close>: what is not a rune is written as \<open>RuneError\<close>\<close>
  "append_rune r0 =
     (let r = (if valid_rune r0 then r0 else runeError)
      in if r < 128 then [char_of r]
         else if r < 2048 then [char_of (192 + r div 64), char_of (128 + r mod 64)]
         else if r < 65536 then
           [char_of (224 + r div 4096), char_of (128 + r div 64 mod 64), char_of (128 + r mod 64)]
         else
           [char_of (240 + r div 262144), char_of (128 + r div 4096 mod 64),
            char_of (128 + r div 64 mod 64), char_of (128 + r mod 64)])"

lemma low_digit: "y < 64 \<Longrightarrow> (x * 64 + y) div 64 = (x :: nat) \<and> (x * 64 + y) mod 64 = y"
  by simp

lemma three_byte_digits:
  assumes "y < 64" and "z < (64 :: nat)"
  shows "(x * 4096 + y * 64 + z) div 4096 = x"
    and "(x * 4096 + y * 64 + z) div 64 mod 64 = y" and "(x * 4096 + y * 64 + z) mod 64 = z"
proof -
  have r: "x * 4096 + y * 64 + z = (x * 64 + y) * 64 + z" by simp
  have d: "(x * 4096 + y * 64 + z) div 64 = x * 64 + y"
    and m: "(x * 4096 + y * 64 + z) mod 64 = z"
    unfolding r using low_digit [OF assms(2)] by blast+
  have "(x * 4096 + y * 64 + z) div 4096 = (x * 4096 + y * 64 + z) div 64 div 64"
    by (simp add: div_mult2_eq [symmetric])
  then show "(x * 4096 + y * 64 + z) div 4096 = x" using low_digit [OF assms(1)] d by simp
  show "(x * 4096 + y * 64 + z) div 64 mod 64 = y" using low_digit [OF assms(1)] d by simp
  show "(x * 4096 + y * 64 + z) mod 64 = z" by (rule m)
qed

lemma four_byte_digits:
  assumes "y < 64" and "z < 64" and "u < (64 :: nat)"
  shows "(x * 262144 + y * 4096 + z * 64 + u) div 262144 = x"
    and "(x * 262144 + y * 4096 + z * 64 + u) div 4096 mod 64 = y"
    and "(x * 262144 + y * 4096 + z * 64 + u) div 64 mod 64 = z"
    and "(x * 262144 + y * 4096 + z * 64 + u) mod 64 = u"
proof -
  let ?r = "x * 262144 + y * 4096 + z * 64 + u"
  have r: "?r = (x * 4096 + y * 64 + z) * 64 + u" by simp
  have d: "?r div 64 = x * 4096 + y * 64 + z" and m: "?r mod 64 = u"
    unfolding r using low_digit [OF assms(3)] by blast+
  have "?r div 262144 = ?r div 64 div 4096" "?r div 4096 = ?r div 64 div 64"
    by (simp_all add: div_mult2_eq [symmetric])
  then show "?r div 262144 = x" "?r div 4096 mod 64 = y"
    using three_byte_digits [OF assms(1,2), of x] d by simp_all
  show "?r div 64 mod 64 = z" using three_byte_digits [OF assms(1,2), of x] d by simp
  show "?r mod 64 = u" by (rule m)
qed

lemma tail_byte_bounds: "tail_byte_of b \<Longrightarrow> code_of b - 128 < 64 \<and> 128 + (code_of b - 128) = code_of b"
  by (auto simp: tail_byte_of_def)

text \<open>A rune that was decoded is written as the bytes it was decoded from.\<close>

lemma decode_append_rune:
  assumes "decode_rune a t = (r, w)" and "\<not> (w = 1 \<and> r = runeError)"
  shows "append_rune r = take w (a # t)" and "valid_rune r" and "0 < w" and "w \<le> Suc (length t)"
    and "r < 128 \<longleftrightarrow> code_of a < 128" and "r < 128 \<Longrightarrow> r = code_of a"
proof -
  let ?n = "code_of a"
  have "append_rune r = take w (a # t) \<and> valid_rune r \<and> 0 < w \<and> w \<le> Suc (length t)
    \<and> (r < 128 \<longleftrightarrow> ?n < 128) \<and> (r < 128 \<longrightarrow> r = ?n)"
  proof -
    consider "?n < 128"
      | b s where "t = b # s" "194 \<le> ?n" "?n < 224" "tail_byte_of b"
          "r = (?n - 192) * 64 + (code_of b - 128)" "w = 2"
      | b c s where "t = b # c # s" "224 \<le> ?n" "?n < 240" "tail_byte_of b" "tail_byte_of c"
          "?n = 224 \<longrightarrow> 160 \<le> code_of b" "?n = 237 \<longrightarrow> code_of b < 160"
          "r = (?n - 224) * 4096 + (code_of b - 128) * 64 + (code_of c - 128)" "w = 3"
      | b c d s where "t = b # c # d # s" "240 \<le> ?n" "?n \<le> 244"
          "tail_byte_of b" "tail_byte_of c" "tail_byte_of d"
          "?n = 240 \<longrightarrow> 144 \<le> code_of b" "?n = 244 \<longrightarrow> code_of b < 144"
          "r = (?n - 240) * 262144 + (code_of b - 128) * 4096 + (code_of c - 128) * 64 + (code_of d - 128)"
          "w = 4"
      using assms by (auto simp: decode_rune_def Let_def split: if_splits list.splits)
    then show ?thesis
    proof cases
      case 1
      with assms have "r = ?n" "w = 1" by (simp_all add: decode_rune_def)
      with 1 show ?thesis by (auto simp: append_rune_def valid_rune_def)
    next
      case (2 b s)
      define x where "x = ?n - 192"
      define y where "y = code_of b - 128"
      have xy: "y < 64" "128 + y = code_of b" "192 + x = ?n" "2 \<le> x" "x < 32"
        using 2 tail_byte_bounds [OF 2(4)] by (simp_all add: x_def y_def)
      with 2 show ?thesis
        by (auto simp: append_rune_def valid_rune_def x_def [symmetric] y_def [symmetric])
    next
      case (3 b c s)
      define x where "x = ?n - 224"
      define y where "y = code_of b - 128"
      define z where "z = code_of c - 128"
      have xyz: "y < 64" "128 + y = code_of b" "z < 64" "128 + z = code_of c" "224 + x = ?n" "x < 16"
        "x = 0 \<longrightarrow> 32 \<le> y" "x = 13 \<longrightarrow> y < 32"
        using 3 tail_byte_bounds [OF 3(4)] tail_byte_bounds [OF 3(5)] by (auto simp: x_def y_def z_def)
      have r: "r = x * 4096 + y * 64 + z" using 3(8) by (simp add: x_def y_def z_def)
      have low: "2048 \<le> r" "r < 65536" using xyz by (auto simp: r)
      consider "x \<le> 12" | "x = 13" | "14 \<le> x" by linarith
      then have "r < 55296 \<or> 57344 \<le> r" by cases (use xyz r in linarith)+
      with low have bounds: "2048 \<le> r" "r < 65536" "valid_rune r" by (auto simp: valid_rune_def)
      show ?thesis
        using xyz bounds three_byte_digits [OF xyz(1,3), of x] 3(1,9)
        by (simp add: append_rune_def r)
    next
      case (4 b c d s)
      define x where "x = ?n - 240"
      define y where "y = code_of b - 128"
      define z where "z = code_of c - 128"
      define u where "u = code_of d - 128"
      have xyz: "y < 64" "128 + y = code_of b" "z < 64" "128 + z = code_of c" "u < 64"
        "128 + u = code_of d" "240 + x = ?n" "x \<le> 4" "x = 0 \<longrightarrow> 16 \<le> y" "x = 4 \<longrightarrow> y < 16"
        using 4 tail_byte_bounds [OF 4(4)] tail_byte_bounds [OF 4(5)] tail_byte_bounds [OF 4(6)]
        by (auto simp: x_def y_def z_def u_def)
      have r: "r = x * 262144 + y * 4096 + z * 64 + u"
        using 4(9) by (simp add: x_def y_def z_def u_def)
      have bounds: "65536 \<le> r" "r \<le> 1114111" "valid_rune r"
        using xyz by (auto simp: r valid_rune_def)
      show ?thesis
        using xyz bounds four_byte_digits [OF xyz(1,3,5), of x] 4(1,10)
        by (simp add: append_rune_def r)
    qed
  qed
  then show "append_rune r = take w (a # t)" "valid_rune r" "0 < w" "w \<le> Suc (length t)"
    "r < 128 \<longleftrightarrow> ?n < 128" "r < 128 \<Longrightarrow> r = ?n"
    by blast+
qed

section \<open>Quoting\<close>

definition hex_char :: "nat \<Rightarrow> byte" where
  "hex_char n = (if n < 10 then char_of (48 + n) else char_of (87 + n))"

definition is_print :: "(nat \<Rightarrow> bool) \<Rightarrow> nat \<Rightarrow> bool" where
  "is_print table r =
     (if r \<le> 255 then (32 \<le> r \<and> r < 127) \<or> (161 \<le> r \<and> r \<noteq> 173) else table r)"

definition hex_digits :: "nat \<Rightarrow> nat \<Rightarrow> string" where
  \<comment> \<open>the lowest \<open>k\<close> hexadecimal digits\<close>
  "hex_digits k r = map (\<lambda>i. hex_char (r div 16 ^ i mod 16)) (rev [0..<k])"

definition escaped_rune :: "(nat \<Rightarrow> bool) \<Rightarrow> nat \<Rightarrow> string" where
  \<comment> \<open>\<open>appendEscapedRune\<close> with the double quote and neither of its flags\<close>
  "escaped_rune table r =
     (if r = 34 \<or> r = 92 then [CHR 0x5C, char_of r]
      else if is_print table r then append_rune r
      else if r = 7 then [CHR 0x5C, CHR ''a'']
      else if r = 8 then [CHR 0x5C, CHR ''b'']
      else if r = 12 then [CHR 0x5C, CHR ''f'']
      else if r = 10 then [CHR 0x5C, CHR ''n'']
      else if r = 13 then [CHR 0x5C, CHR ''r'']
      else if r = 9 then [CHR 0x5C, CHR ''t'']
      else if r = 11 then [CHR 0x5C, CHR ''v'']
      else if r < 32 \<or> r = 127 then CHR 0x5C # CHR ''x'' # hex_digits 2 r
      else
        (let v = (if valid_rune r then r else runeError)
         in if v < 65536 then CHR 0x5C # CHR ''u'' # hex_digits 4 v
            else CHR 0x5C # CHR ''U'' # hex_digits 8 v))"

fun quoted :: "(nat \<Rightarrow> bool) \<Rightarrow> string \<Rightarrow> string" where
  "quoted table [] = []"
| "quoted table (a # t) =
     (case decode_rune a t of
        (r, w) \<Rightarrow>
          (if w = 1 \<and> r = runeError then CHR 0x5C # CHR ''x'' # hex_digits 2 (code_of a)
           else escaped_rune table r)
          @ quoted table (drop (w - 1) t))"

definition quote_string :: "(nat \<Rightarrow> bool) \<Rightarrow> string \<Rightarrow> string" where
  "quote_string table s = CHR 0x22 # quoted table s @ [CHR 0x22]"

section \<open>Reading a quoted string\<close>

definition unhex :: "byte \<Rightarrow> nat option" where
  "unhex c =
     (let n = code_of c
      in if 48 \<le> n \<and> n \<le> 57 then Some (n - 48)
         else if 97 \<le> n \<and> n \<le> 102 then Some (n - 87)
         else if 65 \<le> n \<and> n \<le> 70 then Some (n - 55)
         else None)"

fun read_hex :: "nat \<Rightarrow> nat \<Rightarrow> string \<Rightarrow> (nat \<times> string) option" where
  "read_hex 0 v s = Some (v, s)"
| "read_hex (Suc k) v [] = None"
| "read_hex (Suc k) v (c # s) =
     (case unhex c of None \<Rightarrow> None | Some x \<Rightarrow> read_hex k (v * 16 + x) s)"

definition octal :: "byte \<Rightarrow> nat option" where
  "octal c = (let n = code_of c in if 48 \<le> n \<and> n \<le> 55 then Some (n - 48) else None)"

text \<open>
  \<open>UnquoteChar\<close> after a backslash, for a string in double quotes: the bytes it stands for and
  what is left of the input.
\<close>

definition unquote_escape :: "byte \<Rightarrow> string \<Rightarrow> (string \<times> string) option" where
  "unquote_escape c s =
     (if c = CHR ''a'' then Some ([CHR 0x07], s)
      else if c = CHR ''b'' then Some ([CHR 0x08], s)
      else if c = CHR ''f'' then Some ([CHR 0x0C], s)
      else if c = CHR ''n'' then Some ([CHR 0x0A], s)
      else if c = CHR ''r'' then Some ([CHR 0x0D], s)
      else if c = CHR ''t'' then Some ([CHR 0x09], s)
      else if c = CHR ''v'' then Some ([CHR 0x0B], s)
      else if c = CHR ''x'' then
        map_option (\<lambda>(v, rest). ([char_of v], rest)) (read_hex 2 0 s)
      else if c = CHR ''u'' \<or> c = CHR ''U'' then
        (case read_hex (if c = CHR ''u'' then 4 else 8) 0 s of
           None \<Rightarrow> None
         | Some (v, rest) \<Rightarrow> if valid_rune v then Some (append_rune v, rest) else None)
      else
        (case octal c of
           Some v \<Rightarrow>
             (case s of
                d # e # rest \<Rightarrow>
                  (case (octal d, octal e) of
                     (Some x, Some y) \<Rightarrow>
                       if 255 < v * 64 + x * 8 + y then None
                       else Some ([char_of (v * 64 + x * 8 + y)], rest)
                   | _ \<Rightarrow> None)
              | _ \<Rightarrow> None)
         | None \<Rightarrow> if c = CHR 0x5C \<or> c = CHR 0x22 then Some ([c], s) else None))"

definition unquote_char :: "byte \<Rightarrow> string \<Rightarrow> (string \<times> string) option" where
  "unquote_char a t =
     (if code_of a \<ge> 128 then
        (case decode_rune a t of (r, w) \<Rightarrow> Some (append_rune r, drop (w - 1) t))
      else if a = CHR 0x0A then None
      else if a \<noteq> CHR 0x5C then Some ([a], t)
      else (case t of [] \<Rightarrow> None | c # s \<Rightarrow> unquote_escape c s))"

lemma read_hex_shrinks: "read_hex k v s = Some (x, rest) \<Longrightarrow> length rest \<le> length s"
  by (induction k v s rule: read_hex.induct) (auto split: option.splits)

lemma unquote_char_shrinks: "unquote_char a t = Some (bs, rest) \<Longrightarrow> length rest \<le> length t"
  unfolding unquote_char_def unquote_escape_def
  by (auto split: if_splits list.splits option.splits prod.splits dest!: read_hex_shrinks)

text \<open>The loop of \<open>unquote\<close> after the opening quote: the bytes so far, and what is left.\<close>

function unquote_loop :: "string \<Rightarrow> string \<Rightarrow> string option" where
  "unquote_loop acc [] = None"
| "unquote_loop acc (a # t) =
     (if a = CHR 0x22 then (if t = [] then Some acc else None)
      else (case unquote_char a t of
              None \<Rightarrow> None
            | Some (bs, rest) \<Rightarrow> unquote_loop (acc @ bs) rest))"
  by pat_completeness auto
termination
  by (relation "measure (\<lambda>(acc, s). length s)") (auto dest: unquote_char_shrinks)

text \<open>
  \<open>Unquote\<close> for a string that starts with a double quote, the only kind it is asked for. The
  shortcut for strings without a backslash returns what the loop returns.
\<close>

definition unquote :: "string \<Rightarrow> string option" where
  "unquote s = (case s of [] \<Rightarrow> None | q # t \<Rightarrow> if q = CHR 0x22 then unquote_loop [] t else None)"

section \<open>Reading back what was quoted\<close>

lemma unhex_hex_char [simp]: "d < 16 \<Longrightarrow> unhex (hex_char d) = Some d"
  by (auto simp: unhex_def hex_char_def)

lemma hex_digits_Suc: "hex_digits (Suc k) r = hex_char (r div 16 ^ k mod 16) # hex_digits k r"
  by (simp add: hex_digits_def)

lemma length_hex_digits [simp]: "length (hex_digits k r) = k"
  by (simp add: hex_digits_def)

lemma read_hex_digits: "read_hex k v (hex_digits k r @ rest) = Some (v * 16 ^ k + r mod 16 ^ k, rest)"
proof (induction k arbitrary: v)
  case 0
  then show ?case by (simp add: hex_digits_def)
next
  case (Suc k)
  have "(v * 16 + r div 16 ^ k mod 16) * 16 ^ k + r mod 16 ^ k = v * 16 ^ Suc k + r mod 16 ^ Suc k"
    using mod_mult2_eq [of r "16 ^ k" 16] by (simp add: algebra_simps)
  then show ?case by (simp add: hex_digits_Suc Suc.IH)
qed

lemma read_hex_exact: "r < 16 ^ k \<Longrightarrow> read_hex k 0 (hex_digits k r @ rest) = Some (r, rest)"
  by (simp add: read_hex_digits)

lemma decode_rune_local:
  assumes "decode_rune a t = (r, w)" and "\<not> (w = 1 \<and> r = runeError)"
  shows "decode_rune a (take (w - 1) t @ u) = (r, w)"
  using assms by (auto simp: decode_rune_def Let_def split: if_splits list.splits)

lemma decode_rune_width_1: "decode_rune a t = (r, w) \<Longrightarrow> w = 1 \<Longrightarrow> r = runeError \<or> r = code_of a \<and> r < 128"
  by (auto simp: decode_rune_def Let_def split: if_splits list.splits)

lemma unquote_loop_step:
  "a \<noteq> CHR 0x22 \<Longrightarrow> unquote_char a s = Some (bs, rest) \<Longrightarrow>
   unquote_loop acc (a # s) = unquote_loop (acc @ bs) rest"
  by simp

lemma unquote_loop_escape:
  "unquote_escape c s = Some (bs, rest) \<Longrightarrow>
   unquote_loop acc (CHR 0x5C # c # s) = unquote_loop (acc @ bs) rest"
  by (rule unquote_loop_step) (simp_all add: unquote_char_def)

definition quoted_chunk :: "(nat \<Rightarrow> bool) \<Rightarrow> byte \<Rightarrow> nat \<Rightarrow> nat \<Rightarrow> string" where
  "quoted_chunk table a r w =
     (if w = 1 \<and> r = runeError then CHR 0x5C # CHR ''x'' # hex_digits 2 (code_of a)
      else escaped_rune table r)"

lemma escape_x: "n < 256 \<Longrightarrow> unquote_escape (CHR ''x'') (hex_digits 2 n @ rest) = Some ([char_of n], rest)"
  by (simp add: unquote_escape_def read_hex_exact)

lemma escape_u:
  "v < 65536 \<Longrightarrow> valid_rune v \<Longrightarrow>
   unquote_escape (CHR ''u'') (hex_digits 4 v @ rest) = Some (append_rune v, rest)"
  by (simp add: unquote_escape_def read_hex_exact)

lemma escape_U:
  assumes "valid_rune v"
  shows "unquote_escape (CHR ''U'') (hex_digits 8 v @ rest) = Some (append_rune v, rest)"
proof -
  have "v < 16 ^ 8" using assms by (auto simp: valid_rune_def)
  with assms show ?thesis by (simp add: unquote_escape_def read_hex_exact)
qed

lemma printable_Latin: "is_print table r \<Longrightarrow> r < 128 \<Longrightarrow> 32 \<le> r \<and> r < 127"
  by (simp add: is_print_def split: if_splits)

lemma quote_chars: "char_of (34 :: nat) = CHR 0x22" "char_of (92 :: nat) = CHR 0x5C"
  "char_of (7 :: nat) = CHR 0x07" "char_of (8 :: nat) = CHR 0x08" "char_of (9 :: nat) = CHR 0x09"
  "char_of (10 :: nat) = CHR 0x0A" "char_of (11 :: nat) = CHR 0x0B" "char_of (12 :: nat) = CHR 0x0C"
  "char_of (13 :: nat) = CHR 0x0D"
  by code_simp+

lemma unquote_escaped:
  assumes dec: "decode_rune a t = (r, w)" and ok: "\<not> (w = 1 \<and> r = runeError)"
  shows "unquote_loop acc (escaped_rune table r @ rest) = unquote_loop (acc @ take w (a # t)) rest"
proof -
  note rune = decode_append_rune [OF dec ok]
  show ?thesis
  proof (cases "r < 128")
    case True
    then have r: "r = code_of a" "append_rune r = [a]" using rune(6) by (simp_all add: append_rune_def valid_rune_def)
    then have byte: "take w (a # t) = [a]" using rune(1) by simp
    have ne: "a = char_of r" using r by simp
    show ?thesis
    proof (cases "is_print table r \<and> r \<noteq> 34 \<and> r \<noteq> 92")
      case True
      then have "32 \<le> code_of a" using printable_Latin \<open>r < 128\<close> r by blast
      then have "unquote_char a rest = Some ([a], rest)"
        using True \<open>r < 128\<close> r by (auto simp: unquote_char_def)
      moreover have "a \<noteq> CHR 0x22" using True r by auto
      ultimately show ?thesis
        using True r byte by (simp add: escaped_rune_def)
    next
      case False
      have e: "unquote_escape c s = Some ([a], rest) \<Longrightarrow>
          unquote_loop acc (CHR 0x5C # c # s) = unquote_loop (acc @ take w (a # t)) rest" for c s
        unfolding byte by (rule unquote_loop_escape)
      have "r < 32 \<or> r = 127 \<or> r = 34 \<or> r = 92"
        using False True by (auto simp: is_print_def split: if_splits)
      then consider "r \<in> {34, 92}" | "r \<in> {7, 8, 9, 10, 11, 12, 13}"
        | "r < 32 \<or> r = 127" "r \<notin> {7, 8, 9, 10, 11, 12, 13}"
        by auto
      then show ?thesis
      proof cases
        case 1
        then have "unquote_escape (char_of r) rest = Some ([a], rest)"
          unfolding ne by (auto simp: quote_chars unquote_escape_def octal_def)
        then show ?thesis using 1 e by (auto simp: escaped_rune_def simp del: unquote_loop.simps)
      next
        case 2
        then have "\<exists>c. escaped_rune table r = [CHR 0x5C, c] \<and> unquote_escape c rest = Some ([char_of r], rest)"
          by (elim insertE emptyE)
            (simp_all add: escaped_rune_def is_print_def unquote_escape_def quote_chars)
        then obtain c where "escaped_rune table r = [CHR 0x5C, c]" "unquote_escape c rest = Some ([a], rest)"
          unfolding ne [symmetric] by blast
        then show ?thesis using e by (simp del: unquote_loop.simps)
      next
        case 3
        moreover have "unquote_escape (CHR ''x'') (hex_digits 2 r @ rest) = Some ([a], rest)"
          using escape_x [of r rest] \<open>r < 128\<close> unfolding ne by simp
        ultimately show ?thesis
          using e by (auto simp: escaped_rune_def is_print_def simp del: unquote_loop.simps)
      qed
    qed
  next
    case False
    have bytes: "append_rune r = take w (a # t)" by (rule rune(1))
    show ?thesis
    proof (cases "is_print table r")
      case True
      have a: "128 \<le> code_of a" using rune(5) False by simp
      have "take w (a # t) @ rest = a # take (w - 1) t @ rest" using rune(3) by (cases w) simp_all
      moreover have "unquote_char a (take (w - 1) t @ rest) = Some (take w (a # t), rest)"
        using a decode_rune_local [OF dec ok, of rest] rune(3,4) bytes
        by (cases w) (simp_all add: unquote_char_def)
      moreover have "a \<noteq> CHR 0x22" using a by auto
      ultimately show ?thesis
        using True False bytes by (simp add: escaped_rune_def)
    next
      case np: False
      have "valid_rune r" by (rule rune(2))
      with np False bytes escape_u [of r rest] escape_U [of r rest] show ?thesis
        by (auto simp: escaped_rune_def intro!: unquote_loop_escape simp del: unquote_loop.simps)
    qed
  qed
qed

lemma unquote_chunk:
  assumes "decode_rune a t = (r, w)"
  shows "unquote_loop acc (quoted_chunk table a r w @ rest) = unquote_loop (acc @ take w (a # t)) rest"
proof (cases "w = 1 \<and> r = runeError")
  case True
  then show ?thesis
    using escape_x [of "code_of a" rest]
    by (auto simp: quoted_chunk_def intro!: unquote_loop_escape simp del: unquote_loop.simps)
next
  case False
  then show ?thesis using unquote_escaped [OF assms False] by (auto simp: quoted_chunk_def)
qed

lemma quoted_chunks:
  "decode_rune a t = (r, w) \<Longrightarrow>
   quoted table (a # t) = quoted_chunk table a r w @ quoted table (drop (w - 1) t)"
  by (simp add: quoted_chunk_def)

lemma decode_rune_width: "decode_rune a t = (r, w) \<Longrightarrow> 0 < w \<and> w \<le> Suc (length t)"
  by (auto simp: decode_rune_def Let_def split: if_splits list.splits)

lemma take_drop_rune: "0 < w \<Longrightarrow> take w (a # t) @ drop (w - 1) t = a # t"
  by (cases w) simp_all

lemma unquote_quoted: "unquote_loop acc (quoted table s @ [CHR 0x22]) = Some (acc @ s)"
proof (induction table s arbitrary: acc rule: quoted.induct)
  case (1 table)
  then show ?case by simp
next
  case (2 table a t)
  obtain r w where dec: "decode_rune a t = (r, w)" by (cases "decode_rune a t")
  have "unquote_loop acc (quoted table (a # t) @ [CHR 0x22])
      = unquote_loop (acc @ take w (a # t)) (quoted table (drop (w - 1) t) @ [CHR 0x22])"
    using unquote_chunk [OF dec] by (simp only: quoted_chunks [OF dec] append_assoc)
  also have "\<dots> = Some ((acc @ take w (a # t)) @ drop (w - 1) t)"
    by (rule 2) (use dec in auto)
  also have "\<dots> = Some (acc @ a # t)"
    using take_drop_rune decode_rune_width [OF dec] by (metis append_assoc)
  finally show ?case .
qed

lemma unquote_quote_string: "unquote (quote_string table s) = Some s"
  by (simp add: unquote_def quote_string_def unquote_quoted)

section \<open>What a quoted string looks like\<close>

lemma hex_char_byte: "d < 16 \<Longrightarrow> 48 \<le> code_of (hex_char d) \<and> code_of (hex_char d) < 128"
  by (simp add: hex_char_def)

lemma hex_digits_bytes: "c \<in> set (hex_digits k r) \<Longrightarrow> 48 \<le> code_of c \<and> code_of c < 128"
  by (auto simp: hex_digits_def intro!: hex_char_byte)

lemma decode_rune_bytes:
  "decode_rune a t = (r, w) \<Longrightarrow> 1 < w \<Longrightarrow> c \<in> set (take w (a # t)) \<Longrightarrow> 128 \<le> code_of c"
  by (auto simp: decode_rune_def Let_def tail_byte_of_def split: if_splits list.splits)

definition visible :: "byte \<Rightarrow> bool" where
  "visible c \<longleftrightarrow> 32 \<le> code_of c"

lemma quoted_chunk_visible:
  assumes "decode_rune a t = (r, w)" and "c \<in> set (quoted_chunk table a r w)"
  shows "visible c"
proof (cases "w = 1 \<and> r = runeError")
  case True
  with assms(2) show ?thesis
    by (auto simp: quoted_chunk_def visible_def dest: hex_digits_bytes)
next
  case False
  note rune = decode_append_rune [OF assms(1) False]
  have printed: "visible c" if "c \<in> set (append_rune r)" "is_print table r"
  proof (cases "r < 128")
    case True
    with that have "c = char_of r" "32 \<le> r"
      using printable_Latin by (auto simp: append_rune_def valid_rune_def)
    with True show ?thesis by (simp add: visible_def)
  next
    case False
    then have "1 < w" using rune(3,5) decode_rune_width_1 [OF assms(1)] \<open>\<not> (w = 1 \<and> r = runeError)\<close>
      by (cases "w = 1") auto
    with that rune(1) have "128 \<le> code_of c"
      using decode_rune_bytes [OF assms(1)] by simp
    then show ?thesis by (simp add: visible_def)
  qed
  have "c \<in> set (escaped_rune table r)" using assms(2) False by (auto simp: quoted_chunk_def)
  then show ?thesis
    using printed
    by (auto simp: escaped_rune_def visible_def Let_def dest: hex_digits_bytes split: if_splits)
qed

lemma quoted_visible: "c \<in> set (quoted table s) \<Longrightarrow> visible c"
proof (induction table s rule: quoted.induct)
  case (2 table a t)
  obtain r w where dec: "decode_rune a t = (r, w)" by (cases "decode_rune a t")
  with 2 show ?case
    using quoted_chunks [OF dec] quoted_chunk_visible [OF dec] by auto
qed simp

lemma quoted_chunk_length: "decode_rune a t = (r, w) \<Longrightarrow> length (quoted_chunk table a r w) \<le> 4 * w"
proof -
  assume dec: "decode_rune a t = (r, w)"
  show ?thesis
  proof (cases "w = 1 \<and> r = runeError")
    case False
    note rune = decode_append_rune [OF dec False]
    have len: "length (append_rune r) = w" using rune(1,4) by simp
    have w: "65536 \<le> r \<longrightarrow> 4 \<le> w" "128 \<le> r \<longrightarrow> 2 \<le> w"
      unfolding len [symmetric] using rune(2) by (auto simp: append_rune_def)
    have print: "32 \<le> r \<Longrightarrow> r < 127 \<Longrightarrow> is_print table r" by (simp add: is_print_def)
    have "0 < w" by (rule rune(3))
    with len w rune(2) print False show ?thesis
      by (auto simp: quoted_chunk_def escaped_rune_def)
  qed (simp add: quoted_chunk_def)
qed

lemma quoted_length: "length (quoted table s) \<le> 4 * length s"
proof (induction table s rule: quoted.induct)
  case (2 table a t)
  obtain r w where dec: "decode_rune a t = (r, w)" by (cases "decode_rune a t")
  then have IH: "length (quoted table (drop (w - 1) t)) \<le> 4 * length (drop (w - 1) t)"
    using 2 by auto
  show ?case
    using IH quoted_chunk_length [OF dec, of table] conjunct1 [OF decode_rune_width [OF dec]]
      conjunct2 [OF decode_rune_width [OF dec]]
    unfolding quoted_chunks [OF dec] by simp
qed simp

end
