(* ===== verification/Config_Yaml.thy ===== *)
theory Config_Yaml
  imports Config GoQuote
begin

text \<open>
  \<open>backend/internal/config/yaml.go\<close>: the YAML subset on the appliance's disk, read and written.
  The \<open>switch\<close> of \<open>setValue\<close> is a table from keys to setters. What a note says is kept as data
  (the line and the key it is about) in place of the English sentence around it.
\<close>

section \<open>Values\<close>

fun before_comment :: "string \<Rightarrow> string" where
  "before_comment (a # b # s) =
     (if a = CHR '' '' \<and> b = CHR ''#'' then [] else a # before_comment (b # s))"
| "before_comment s = s"

definition string_value :: "string \<Rightarrow> string option" where
  "string_value raw =
     (if has_prefix raw [CHR 0x22] then unquote raw else Some (trim_space (before_comment raw)))"

definition int_value :: "string \<Rightarrow> int option" where
  "int_value raw = (case atoi raw of (n, None) \<Rightarrow> Some n | _ \<Rightarrow> None)"

definition bool_value :: "string \<Rightarrow> bool option" where
  \<comment> \<open>\<open>strconv.ParseBool\<close>\<close>
  "bool_value raw =
     (if raw \<in> set [''1'', ''t'', ''T'', ''TRUE'', ''true'', ''True''] then Some True
      else if raw \<in> set [''0'', ''f'', ''F'', ''FALSE'', ''false'', ''False''] then Some False
      else None)"

type_synonym setter = "string \<Rightarrow> config \<Rightarrow> config option"

definition set_string :: "(string \<Rightarrow> config \<Rightarrow> config) \<Rightarrow> setter" where
  "set_string f raw c = map_option (\<lambda>v. f v c) (string_value raw)"

definition set_int :: "(int \<Rightarrow> config \<Rightarrow> config) \<Rightarrow> setter" where
  "set_int f raw c = map_option (\<lambda>v. f v c) (int_value raw)"

definition set_bool :: "(bool \<Rightarrow> config \<Rightarrow> config) \<Rightarrow> setter" where
  "set_bool f raw c = map_option (\<lambda>v. f v c) (bool_value raw)"

definition in_system :: "(system_config \<Rightarrow> system_config) \<Rightarrow> config \<Rightarrow> config" where
  "in_system f c = c\<lparr>cg_system := f (cg_system c)\<rparr>"
definition in_grbl :: "(grbl_config \<Rightarrow> grbl_config) \<Rightarrow> config \<Rightarrow> config" where
  "in_grbl f c = c\<lparr>cg_grbl := f (cg_grbl c)\<rparr>"
definition in_camera :: "(camera_config \<Rightarrow> camera_config) \<Rightarrow> config \<Rightarrow> config" where
  "in_camera f c = c\<lparr>cg_camera := f (cg_camera c)\<rparr>"
definition in_ssh :: "(ssh_config \<Rightarrow> ssh_config) \<Rightarrow> config \<Rightarrow> config" where
  "in_ssh f c = c\<lparr>cg_ssh := f (cg_ssh c)\<rparr>"
definition in_network :: "(network_config \<Rightarrow> network_config) \<Rightarrow> config \<Rightarrow> config" where
  "in_network f c = c\<lparr>cg_network := f (cg_network c)\<rparr>"
definition in_wifi :: "(wifi_config \<Rightarrow> wifi_config) \<Rightarrow> config \<Rightarrow> config" where
  "in_wifi f c = c\<lparr>cg_wifi := f (cg_wifi c)\<rparr>"

lemmas in_defs = in_system_def in_grbl_def in_camera_def in_ssh_def in_network_def in_wifi_def

definition add_dns :: "string \<Rightarrow> network_config \<Rightarrow> network_config" where
  "add_dns v n =
     (if v = [] then n
      else n\<lparr>net_dns := net_dns n @ map trim_space (split_string v (CHR '',''))\<rparr>)"

definition setters :: "(string \<times> setter) list" where
  "setters =
     [(''system.hostname'', set_string (\<lambda>v. in_system (\<lambda>s. s\<lparr>sys_hostname := v\<rparr>))),
      (''system.setup_complete'', set_bool (\<lambda>v. in_system (\<lambda>s. s\<lparr>sys_setup_complete := v\<rparr>))),
      (''system.usb_autosuspend'', set_int (\<lambda>v. in_system (\<lambda>s. s\<lparr>sys_usb_autosuspend := v\<rparr>))),
      (''grbl.backend'', set_string (\<lambda>v. in_grbl (\<lambda>g. g\<lparr>grbl_backend := v\<rparr>))),
      (''grbl.device'', set_string (\<lambda>v. in_grbl (\<lambda>g. g\<lparr>grbl_device := v\<rparr>))),
      (''grbl.baudrate'', set_int (\<lambda>v. in_grbl (\<lambda>g. g\<lparr>grbl_baudrate := v\<rparr>))),
      (''grbl.port'', set_int (\<lambda>v. in_grbl (\<lambda>g. g\<lparr>grbl_port := v\<rparr>))),
      (''grbl.max_connections'', set_int (\<lambda>v. in_grbl (\<lambda>g. g\<lparr>grbl_max_connections := v\<rparr>))),
      (''grbl.reconnect'', set_bool (\<lambda>v. in_grbl (\<lambda>g. g\<lparr>grbl_reconnect := v\<rparr>))),
      (''grbl.kick_old_user'', set_bool (\<lambda>v. in_grbl (\<lambda>g. g\<lparr>grbl_kick_old_user := v\<rparr>))),
      (''grbl.on_disconnect'', set_string (\<lambda>v. in_grbl (\<lambda>g. g\<lparr>grbl_on_disconnect := v\<rparr>))),
      (''grbl.monitor_port'', set_int (\<lambda>v. in_grbl (\<lambda>g. g\<lparr>grbl_monitor_port := v\<rparr>))),
      (''grbl.stationary_beam_seconds'', set_int (\<lambda>v. in_grbl (\<lambda>g. g\<lparr>grbl_stationary_beam := v\<rparr>))),
      (''camera.device'', set_string (\<lambda>v. in_camera (\<lambda>k. k\<lparr>cam_device := v\<rparr>))),
      (''camera.format'', set_string (\<lambda>v. in_camera (\<lambda>k. k\<lparr>cam_format := v\<rparr>))),
      (''camera.resolution'', set_string (\<lambda>v. in_camera (\<lambda>k. k\<lparr>cam_resolution := v\<rparr>))),
      (''camera.fps'', set_int (\<lambda>v. in_camera (\<lambda>k. k\<lparr>cam_fps := v\<rparr>))),
      (''camera.port'', set_int (\<lambda>v. in_camera (\<lambda>k. k\<lparr>cam_port := v\<rparr>))),
      (''camera.quality'', set_int (\<lambda>v. in_camera (\<lambda>k. k\<lparr>cam_quality := v\<rparr>))),
      (''ssh.enabled'', set_bool (\<lambda>v. in_ssh (\<lambda>s. s\<lparr>ssh_enabled := v\<rparr>))),
      (''ssh.password_authentication'', set_bool (\<lambda>v. in_ssh (\<lambda>s. s\<lparr>ssh_password := v\<rparr>))),
      (''network.mode'', set_string (\<lambda>v. in_network (\<lambda>n. n\<lparr>net_mode := v\<rparr>))),
      (''network.address'', set_string (\<lambda>v. in_network (\<lambda>n. n\<lparr>net_address := v\<rparr>))),
      (''network.gateway'', set_string (\<lambda>v. in_network (\<lambda>n. n\<lparr>net_gateway := v\<rparr>))),
      (''network.dns'', set_string (\<lambda>v. in_network (add_dns v))),
      (''wifi.enabled'', set_bool (\<lambda>v. in_wifi (\<lambda>w. w\<lparr>wifi_enabled := v\<rparr>))),
      (''wifi.ssid'', set_string (\<lambda>v. in_wifi (\<lambda>w. w\<lparr>wifi_ssid := v\<rparr>))),
      (''wifi.psk'', set_string (\<lambda>v. in_wifi (\<lambda>w. w\<lparr>wifi_psk := v\<rparr>))),
      (''wifi.country'', set_string (\<lambda>v. in_wifi (\<lambda>w. w\<lparr>wifi_country := v\<rparr>))),
      (''wifi.hidden'', set_bool (\<lambda>v. in_wifi (\<lambda>w. w\<lparr>wifi_hidden := v\<rparr>)))]"

datatype value_error = UnknownKey | InvalidValue

definition setValue :: "config \<Rightarrow> string \<Rightarrow> string \<Rightarrow> string \<Rightarrow> value_error + config" where
  "setValue c sec key raw =
     (case map_of setters (sec @ ''.'' @ key) of
        None \<Rightarrow> Inl UnknownKey
      | Some f \<Rightarrow> (case f raw c of None \<Rightarrow> Inl InvalidValue | Some c' \<Rightarrow> Inr c'))"

section \<open>Reading\<close>

datatype config_note = NoteSection string | NoteKey nat string string | NoteValue nat string string

datatype yaml_error =
    ExpectedSection nat | ExpectedIndentedKey nat | ExpectedKeyValue nat | LineTooLong

record yaml_state =
  ys_config :: config
  ys_section :: string
  ys_notes :: "config_note list"

definition unknownSection :: string where "unknownSection = CHR 0x00 # ''unknown''"

definition known_sections :: "string list" where
  "known_sections = [''system'', ''grbl'', ''camera'', ''ssh'', ''network'', ''wifi'']"

definition trim_right :: "string \<Rightarrow> string" where
  \<comment> \<open>\<open>strings.TrimRight(s, " \t\r")\<close>\<close>
  "trim_right s = rev (dropWhile (\<lambda>c. c \<in> set [CHR 0x20, CHR 0x09, CHR 0x0D]) (rev s))"

definition enter_section :: "string \<Rightarrow> yaml_state \<Rightarrow> yaml_state" where
  "enter_section s st =
     (if s \<in> set known_sections then st\<lparr>ys_section := s\<rparr>
      else st\<lparr>ys_section := unknownSection, ys_notes := ys_notes st @ [NoteSection s]\<rparr>)"

definition set_key :: "nat \<Rightarrow> string \<Rightarrow> string \<Rightarrow> yaml_state \<Rightarrow> yaml_state" where
  "set_key n key raw st =
     (case setValue (ys_config st) (ys_section st) key raw of
        Inr c \<Rightarrow> st\<lparr>ys_config := c\<rparr>
      | Inl UnknownKey \<Rightarrow> st\<lparr>ys_notes := ys_notes st @ [NoteKey n (ys_section st) key]\<rparr>
      | Inl InvalidValue \<Rightarrow> st\<lparr>ys_notes := ys_notes st @ [NoteValue n (ys_section st) key]\<rparr>)"

definition parse_line :: "nat \<Rightarrow> string \<Rightarrow> yaml_state \<Rightarrow> yaml_error + yaml_state" where
  "parse_line n text st =
     (let raw = trim_right text; body = trim_space raw
      in if body = [] \<or> has_prefix body ''#'' then Inr st
         else if \<not> has_prefix raw '' '' then
           (if \<not> has_suffix raw '':'' \<or> CHR '':'' \<in> set (butlast raw) then Inl (ExpectedSection n)
            else Inr (enter_section (trim_suffix raw '':'') st))
         else if \<not> has_prefix raw ''  '' \<or> has_prefix raw ''   '' \<or> ys_section st = [] then
           Inl (ExpectedIndentedKey n)
         else
           (case cut_string body (CHR '':'') of
              (key, raw_value, found) \<Rightarrow>
                if \<not> found then Inl (ExpectedKeyValue n)
                else if ys_section st = unknownSection then Inr st
                else Inr (set_key n (trim_space key) (trim_space raw_value) st)))"

text \<open>\<open>bufio.Scanner\<close>: lines without their ending, none of 64 kB or more.\<close>

definition maxToken :: nat where "maxToken = 65536"

definition scan_lines :: "string \<Rightarrow> string list" where
  "scan_lines data =
     (let ls = split_string data (CHR 0x0A) in if last ls = [] then butlast ls else ls)"

definition drop_cr :: "string \<Rightarrow> string" where
  "drop_cr s = (if s \<noteq> [] \<and> last s = CHR 0x0D then butlast s else s)"

fun parse_lines :: "nat \<Rightarrow> string list \<Rightarrow> yaml_state \<Rightarrow> yaml_error + yaml_state" where
  "parse_lines n [] st = Inr st"
| "parse_lines n (l # ls) st =
     (if maxToken \<le> length l then Inl LineTooLong
      else (case parse_line (Suc n) (drop_cr l) st of
              Inl e \<Rightarrow> Inl e
            | Inr st' \<Rightarrow> parse_lines (Suc n) ls st'))"

definition fresh_yaml :: yaml_state where
  "fresh_yaml = \<lparr>ys_config = Default, ys_section = [], ys_notes = []\<rparr>"

definition parseYAML :: "string \<Rightarrow> yaml_error + config \<times> config_note list" where
  "parseYAML data =
     (case parse_lines 0 (scan_lines data) fresh_yaml of
        Inl e \<Rightarrow> Inl e
      | Inr st \<Rightarrow> Inr (ys_config st, ys_notes st))"

datatype config_error = Malformed yaml_error | Refused string

definition ParseYAML :: "string \<Rightarrow> config_error + config \<times> config_note list" where
  "ParseYAML data =
     (case parseYAML data of
        Inl e \<Rightarrow> Inl (Malformed e)
      | Inr (c, notes) \<Rightarrow>
          (case Validate c of Some e \<Rightarrow> Inl (Refused e) | None \<Rightarrow> Inr (c, notes)))"

section \<open>Writing\<close>

definition bool_text :: "bool \<Rightarrow> string" where
  "bool_text b = (if b then ''true'' else ''false'')"

definition yaml_key :: "string \<Rightarrow> string \<Rightarrow> string" where
  "yaml_key key text = ''  '' @ key @ '': '' @ text"

text \<open>One \<open>Fprintf\<close> per section.\<close>

definition system_lines :: "(string \<Rightarrow> string) \<Rightarrow> system_config \<Rightarrow> string list" where
  "system_lines q s =
     [''system:'',
      yaml_key ''hostname'' (q (sys_hostname s)),
      yaml_key ''setup_complete'' (bool_text (sys_setup_complete s)),
      yaml_key ''usb_autosuspend'' (itoa (sys_usb_autosuspend s))]"

definition grbl_lines :: "(string \<Rightarrow> string) \<Rightarrow> grbl_config \<Rightarrow> string list" where
  "grbl_lines q g =
     [''grbl:'',
      yaml_key ''backend'' (q (grbl_backend g)),
      yaml_key ''device'' (q (grbl_device g)),
      yaml_key ''baudrate'' (itoa (grbl_baudrate g)),
      yaml_key ''port'' (itoa (grbl_port g)),
      yaml_key ''max_connections'' (itoa (grbl_max_connections g)),
      yaml_key ''reconnect'' (bool_text (grbl_reconnect g)),
      yaml_key ''kick_old_user'' (bool_text (grbl_kick_old_user g)),
      yaml_key ''on_disconnect'' (q (grbl_on_disconnect g)),
      yaml_key ''monitor_port'' (itoa (grbl_monitor_port g)),
      yaml_key ''stationary_beam_seconds'' (itoa (grbl_stationary_beam g))]"

definition camera_lines :: "(string \<Rightarrow> string) \<Rightarrow> camera_config \<Rightarrow> string list" where
  "camera_lines q k =
     [''camera:'',
      yaml_key ''device'' (q (cam_device k)),
      yaml_key ''format'' (q (cam_format k)),
      yaml_key ''resolution'' (q (cam_resolution k)),
      yaml_key ''fps'' (itoa (cam_fps k)),
      yaml_key ''port'' (itoa (cam_port k)),
      yaml_key ''quality'' (itoa (cam_quality k))]"

definition ssh_lines :: "ssh_config \<Rightarrow> string list" where
  "ssh_lines h =
     [''ssh:'',
      yaml_key ''enabled'' (bool_text (ssh_enabled h)),
      yaml_key ''password_authentication'' (bool_text (ssh_password h))]"

definition network_lines :: "(string \<Rightarrow> string) \<Rightarrow> network_config \<Rightarrow> string list" where
  "network_lines q n =
     [''network:'',
      yaml_key ''mode'' (q (net_mode n)),
      yaml_key ''address'' (q (net_address n)),
      yaml_key ''gateway'' (q (net_gateway n)),
      yaml_key ''dns'' (q (join (net_dns n) '',''))]"

definition wifi_lines :: "(string \<Rightarrow> string) \<Rightarrow> wifi_config \<Rightarrow> string list" where
  "wifi_lines q w =
     [''wifi:'',
      yaml_key ''enabled'' (bool_text (wifi_enabled w)),
      yaml_key ''ssid'' (q (wifi_ssid w)),
      yaml_key ''psk'' (q (wifi_psk w)),
      yaml_key ''country'' (q (wifi_country w)),
      yaml_key ''hidden'' (bool_text (wifi_hidden w))]"

definition yaml_lines :: "(string \<Rightarrow> string) \<Rightarrow> config \<Rightarrow> string list" where
  "yaml_lines q c =
     system_lines q (cg_system c) @ grbl_lines q (cg_grbl c) @ camera_lines q (cg_camera c)
     @ ssh_lines (cg_ssh c) @ network_lines q (cg_network c) @ wifi_lines q (cg_wifi c)"

definition MarshalYAML :: "(nat \<Rightarrow> bool) \<Rightarrow> config \<Rightarrow> string + string" where
  "MarshalYAML table c =
     (case Validate c of
        Some e \<Rightarrow> Inl e
      | None \<Rightarrow> Inr (concat (map (\<lambda>l. l @ [CHR 0x0A]) (yaml_lines (quote_string table) c))))"

end
