(* ===== verification/Config_Facts.thy ===== *)
theory Config_Facts
  imports Config_Yaml
begin

text \<open>
  What holds of the configuration: the ports of a valid one, what \<open>Salvage\<close> keeps, that a
  written configuration is read back, and that a line this version cannot use costs only itself.
\<close>

section \<open>Lines\<close>

lemma split_terminated:
  "\<forall>l \<in> set ls. c \<notin> set l \<Longrightarrow> split_string (concat (map (\<lambda>l. l @ [c]) ls)) c = ls @ [[]]"
  by (induction ls) (simp_all add: split_append)

lemma scan_terminated:
  "\<forall>l \<in> set ls. CHR 0x0A \<notin> set l \<Longrightarrow> scan_lines (concat (map (\<lambda>l. l @ [CHR 0x0A]) ls)) = ls"
  by (simp add: scan_lines_def split_terminated)

lemma trim_left_blank [simp]: "trim_left (CHR '' '' # s) = trim_left s"
  by (cases "CHR '' '' # s" rule: trim_left.cases) (simp_all add: space1_def)

lemma trim_space_blank [simp]: "trim_space (CHR '' '' # s) = trim_space s"
  by (simp add: trim_space_def)

lemma trim_space_ends: "s \<noteq> [] \<Longrightarrow> solid (hd s) \<Longrightarrow> solid (last s) \<Longrightarrow> trim_space s = s"
proof (cases s)
  case (Cons a t)
  assume "solid (hd s)" "solid (last s)"
  with Cons show ?thesis by (cases t rule: rev_cases) simp_all
qed simp

lemma trim_right_solid: "s \<noteq> [] \<Longrightarrow> solid (last s) \<Longrightarrow> trim_right s = s"
  by (cases s rule: rev_cases) (auto simp: trim_right_def solid_def space1_def)

lemma drop_cr_solid: "solid (last s) \<Longrightarrow> drop_cr s = s"
  by (auto simp: drop_cr_def solid_def space1_def)

section \<open>One line of a section\<close>

definition plain_key :: "string \<Rightarrow> bool" where
  "plain_key k \<longleftrightarrow> k \<noteq> [] \<and> list_all (\<lambda>c. solid c \<and> c \<noteq> CHR '':'' \<and> c \<noteq> CHR ''#'') k"

definition plain_value :: "string \<Rightarrow> bool" where
  "plain_value v \<longleftrightarrow> v \<noteq> [] \<and> solid (hd v) \<and> solid (last v)"

lemma solid_not_blank: "solid c \<Longrightarrow> c \<noteq> CHR '' ''"
  by (auto simp: solid_def space1_def)

lemma parse_any_key_line:
  assumes k: "plain_key k" and v: "plain_value v" and sec: "ys_section st \<noteq> []"
  shows "parse_line n (drop_cr (yaml_key k v)) st =
    Inr (if ys_section st = unknownSection then st else set_key n k v st)"
proof -
  obtain a k' where ka: "k = a # k'" "solid a" "a \<noteq> CHR ''#''"
    using k by (cases k) (auto simp: plain_key_def)
  have kl: "solid (last k)" "k \<noteq> []" "solid (hd k)" using k by (auto simp: plain_key_def list_all_iff)
  have colon: "CHR '':'' \<notin> set k" using k by (auto simp: plain_key_def list_all_iff)
  have v0: "v \<noteq> []" "solid (hd v)" "solid (last v)" using v by (simp_all add: plain_value_def)
  let ?body = "k @ CHR '':'' # CHR '' '' # v"
  have key: "yaml_key k v = CHR '' '' # CHR '' '' # ?body" by (simp add: yaml_key_def)
  have last: "last (yaml_key k v) = last v" using v0 by (simp add: key)
  have body: "trim_space (yaml_key k v) = ?body"
    unfolding key using v0 kl by (simp add: trim_space_ends)
  have raw: "trim_right (drop_cr (yaml_key k v)) = yaml_key k v"
    using v0 last by (simp add: drop_cr_solid trim_right_solid key)
  have cut: "cut_string ?body (CHR '':'') = (k, CHR '' '' # v, True)" using colon by (rule cut_found)
  have "trim_space k = k" "trim_space (CHR '' '' # v) = v" using kl v0 by (simp_all add: trim_space_ends)
  moreover have "\<not> has_prefix ?body ''#''" "?body \<noteq> []" "has_prefix (yaml_key k v) '' ''"
    "has_prefix (yaml_key k v) ''  ''" "\<not> has_prefix (yaml_key k v) ''   ''"
    using ka solid_not_blank [OF ka(2)] by (simp_all add: yaml_key_def has_prefix_def)
  ultimately show ?thesis
    using sec cut by (simp add: parse_line_def raw body)
qed

lemma known_section_names: "s \<in> set known_sections \<Longrightarrow> s \<noteq> [] \<and> s \<noteq> unknownSection"
  by (auto simp: known_sections_def unknownSection_def)

lemma parse_key_line:
  "plain_key k \<Longrightarrow> plain_value v \<Longrightarrow> ys_section st \<in> set known_sections \<Longrightarrow>
   parse_line n (drop_cr (yaml_key k v)) st = Inr (set_key n k v st)"
  using parse_any_key_line [of k v st n] known_section_names [of "ys_section st"] by simp

lemma parse_section_lines:
  "parse_line n (drop_cr ''system:'') st = Inr (st\<lparr>ys_section := ''system''\<rparr>)"
  "parse_line n (drop_cr ''grbl:'') st = Inr (st\<lparr>ys_section := ''grbl''\<rparr>)"
  "parse_line n (drop_cr ''camera:'') st = Inr (st\<lparr>ys_section := ''camera''\<rparr>)"
  "parse_line n (drop_cr ''ssh:'') st = Inr (st\<lparr>ys_section := ''ssh''\<rparr>)"
  "parse_line n (drop_cr ''network:'') st = Inr (st\<lparr>ys_section := ''network''\<rparr>)"
  "parse_line n (drop_cr ''wifi:'') st = Inr (st\<lparr>ys_section := ''wifi''\<rparr>)"
  by (simp_all add: parse_line_def drop_cr_def trim_right_def trim_space_ends solid_def space1_def
      has_prefix_def has_suffix_def enter_section_def known_sections_def trim_suffix_def suffix_to_prefix Let_def)

section \<open>Values read back\<close>

lemma quote_string_plain: "plain_value (quote_string table s)"
  by (simp add: plain_value_def quote_string_def solid_def space1_def)

lemma string_value_quote: "string_value (quote_string table s) = Some s"
  by (simp add: string_value_def has_prefix_def unquote_quote_string) (simp add: quote_string_def)

lemma bool_text_plain: "plain_value (bool_text b)"
  by (simp add: plain_value_def bool_text_def solid_def space1_def)

lemma bool_value_text: "bool_value (bool_text b) = Some b"
  by (simp add: bool_value_def bool_text_def)

lemma digit_char_solid: "0 \<le> d \<Longrightarrow> d < 10 \<Longrightarrow> solid (digit_char d)"
proof -
  assume d: "0 \<le> d" "d < 10"
  then have "dec_digit (digit_char d)" by (simp add: dec_digit_def)
  then show ?thesis using solid_dec_digit by blast
qed

lemma dec_plain: "0 \<le> n \<Longrightarrow> plain_value (dec n)"
proof -
  assume n: "0 \<le> n"
  obtain d t where "0 \<le> d" "d < 10" "dec n = digit_char d # t" using dec_head [OF n] by blast
  moreover have "solid (last (dec n))"
    using n by (subst dec.simps) (simp add: digit_char_solid)
  ultimately show ?thesis by (simp add: plain_value_def digit_char_solid)
qed

lemma itoa_plain: "plain_value (itoa i)"
proof (cases "i < 0")
  case True
  then have "plain_value (dec (- i))" by (intro dec_plain) simp
  with True show ?thesis by (auto simp: itoa_def plain_value_def solid_def space1_def)
next
  case False
  then show ?thesis by (simp add: itoa_def dec_plain)
qed

lemma int_value_itoa: "- (2 ^ 63) \<le> i \<Longrightarrow> i < 2 ^ 63 \<Longrightarrow> int_value (itoa i) = Some i"
  using atoi_itoa [of i] by (simp add: int_value_def)

lemma join_Nil_iff: "\<forall>s \<in> set ss. s \<noteq> [] \<Longrightarrow> join ss sep = [] \<longleftrightarrow> ss = []"
  by (cases "(ss, sep)" rule: GoLib.join.cases) simp_all

lemma trim_space_address: "parse_ip s \<Longrightarrow> trim_space s = s"
  using parse_ip_plain [of s] by (intro trim_space_ends) (simp_all add: list_all_iff)

lemma add_dns_join:
  assumes "\<forall>s \<in> set ss. parse_ip s"
  shows "add_dns (join ss '','') n = n\<lparr>net_dns := net_dns n @ ss\<rparr>"
proof (cases "ss = []")
  case False
  have "join ss '','' \<noteq> []" using assms parse_ip_plain(1) False join_Nil_iff by blast
  moreover have "split_string (join ss '','') (CHR '','') = ss"
    using assms parse_ip_plain(3) False by (intro split_joined) blast+
  moreover have "map trim_space ss = ss"
    using assms by (intro map_idI) (simp add: trim_space_address)
  ultimately show ?thesis by (simp add: add_dns_def)
qed (simp add: add_dns_def)

section \<open>A written section read back\<close>

lemma setter_lookups:
  "map_of setters ''system.hostname'' = Some (set_string (\<lambda>v. in_system (\<lambda>s. s\<lparr>sys_hostname := v\<rparr>)))"
  "map_of setters ''system.setup_complete'' = Some (set_bool (\<lambda>v. in_system (\<lambda>s. s\<lparr>sys_setup_complete := v\<rparr>)))"
  "map_of setters ''system.usb_autosuspend'' = Some (set_int (\<lambda>v. in_system (\<lambda>s. s\<lparr>sys_usb_autosuspend := v\<rparr>)))"
  "map_of setters ''grbl.backend'' = Some (set_string (\<lambda>v. in_grbl (\<lambda>g. g\<lparr>grbl_backend := v\<rparr>)))"
  "map_of setters ''grbl.device'' = Some (set_string (\<lambda>v. in_grbl (\<lambda>g. g\<lparr>grbl_device := v\<rparr>)))"
  "map_of setters ''grbl.baudrate'' = Some (set_int (\<lambda>v. in_grbl (\<lambda>g. g\<lparr>grbl_baudrate := v\<rparr>)))"
  "map_of setters ''grbl.port'' = Some (set_int (\<lambda>v. in_grbl (\<lambda>g. g\<lparr>grbl_port := v\<rparr>)))"
  "map_of setters ''grbl.max_connections'' = Some (set_int (\<lambda>v. in_grbl (\<lambda>g. g\<lparr>grbl_max_connections := v\<rparr>)))"
  "map_of setters ''grbl.reconnect'' = Some (set_bool (\<lambda>v. in_grbl (\<lambda>g. g\<lparr>grbl_reconnect := v\<rparr>)))"
  "map_of setters ''grbl.kick_old_user'' = Some (set_bool (\<lambda>v. in_grbl (\<lambda>g. g\<lparr>grbl_kick_old_user := v\<rparr>)))"
  "map_of setters ''grbl.on_disconnect'' = Some (set_string (\<lambda>v. in_grbl (\<lambda>g. g\<lparr>grbl_on_disconnect := v\<rparr>)))"
  "map_of setters ''grbl.monitor_port'' = Some (set_int (\<lambda>v. in_grbl (\<lambda>g. g\<lparr>grbl_monitor_port := v\<rparr>)))"
  "map_of setters ''grbl.stationary_beam_seconds'' = Some (set_int (\<lambda>v. in_grbl (\<lambda>g. g\<lparr>grbl_stationary_beam := v\<rparr>)))"
  "map_of setters ''camera.device'' = Some (set_string (\<lambda>v. in_camera (\<lambda>k. k\<lparr>cam_device := v\<rparr>)))"
  "map_of setters ''camera.format'' = Some (set_string (\<lambda>v. in_camera (\<lambda>k. k\<lparr>cam_format := v\<rparr>)))"
  "map_of setters ''camera.resolution'' = Some (set_string (\<lambda>v. in_camera (\<lambda>k. k\<lparr>cam_resolution := v\<rparr>)))"
  "map_of setters ''camera.fps'' = Some (set_int (\<lambda>v. in_camera (\<lambda>k. k\<lparr>cam_fps := v\<rparr>)))"
  "map_of setters ''camera.port'' = Some (set_int (\<lambda>v. in_camera (\<lambda>k. k\<lparr>cam_port := v\<rparr>)))"
  "map_of setters ''camera.quality'' = Some (set_int (\<lambda>v. in_camera (\<lambda>k. k\<lparr>cam_quality := v\<rparr>)))"
  "map_of setters ''ssh.enabled'' = Some (set_bool (\<lambda>v. in_ssh (\<lambda>s. s\<lparr>ssh_enabled := v\<rparr>)))"
  "map_of setters ''ssh.password_authentication'' = Some (set_bool (\<lambda>v. in_ssh (\<lambda>s. s\<lparr>ssh_password := v\<rparr>)))"
  "map_of setters ''network.mode'' = Some (set_string (\<lambda>v. in_network (\<lambda>n. n\<lparr>net_mode := v\<rparr>)))"
  "map_of setters ''network.address'' = Some (set_string (\<lambda>v. in_network (\<lambda>n. n\<lparr>net_address := v\<rparr>)))"
  "map_of setters ''network.gateway'' = Some (set_string (\<lambda>v. in_network (\<lambda>n. n\<lparr>net_gateway := v\<rparr>)))"
  "map_of setters ''network.dns'' = Some (set_string (\<lambda>v. in_network (add_dns v)))"
  "map_of setters ''wifi.enabled'' = Some (set_bool (\<lambda>v. in_wifi (\<lambda>w. w\<lparr>wifi_enabled := v\<rparr>)))"
  "map_of setters ''wifi.ssid'' = Some (set_string (\<lambda>v. in_wifi (\<lambda>w. w\<lparr>wifi_ssid := v\<rparr>)))"
  "map_of setters ''wifi.psk'' = Some (set_string (\<lambda>v. in_wifi (\<lambda>w. w\<lparr>wifi_psk := v\<rparr>)))"
  "map_of setters ''wifi.country'' = Some (set_string (\<lambda>v. in_wifi (\<lambda>w. w\<lparr>wifi_country := v\<rparr>)))"
  "map_of setters ''wifi.hidden'' = Some (set_bool (\<lambda>v. in_wifi (\<lambda>w. w\<lparr>wifi_hidden := v\<rparr>)))"
  by (simp_all add: setters_def)

lemma plain_keys: "list_all plain_key
    [''hostname'', ''setup_complete'', ''usb_autosuspend'', ''backend'', ''device'', ''baudrate'', ''port'',
     ''max_connections'', ''reconnect'', ''kick_old_user'', ''on_disconnect'', ''monitor_port'',
     ''stationary_beam_seconds'', ''format'', ''resolution'', ''fps'', ''quality'', ''enabled'',
     ''password_authentication'', ''mode'', ''address'', ''gateway'', ''dns'', ''ssid'', ''psk'', ''country'',
     ''hidden'']"
  by (simp add: plain_key_def solid_def space1_def)

lemma parse_lines_key:
  assumes "length (yaml_key k v) < maxToken" and "plain_key k" and "plain_value v"
    and "ys_section st \<in> set known_sections"
  shows "parse_lines n (yaml_key k v # ls) st = parse_lines (Suc n) ls (set_key (Suc n) k v st)"
  using assms(1) parse_key_line [OF assms(2-4)] by simp

lemma parse_lines_section:
  "parse_lines n (''system:'' # ls) st = parse_lines (Suc n) ls (st\<lparr>ys_section := ''system''\<rparr>)"
  "parse_lines n (''grbl:'' # ls) st = parse_lines (Suc n) ls (st\<lparr>ys_section := ''grbl''\<rparr>)"
  "parse_lines n (''camera:'' # ls) st = parse_lines (Suc n) ls (st\<lparr>ys_section := ''camera''\<rparr>)"
  "parse_lines n (''ssh:'' # ls) st = parse_lines (Suc n) ls (st\<lparr>ys_section := ''ssh''\<rparr>)"
  "parse_lines n (''network:'' # ls) st = parse_lines (Suc n) ls (st\<lparr>ys_section := ''network''\<rparr>)"
  "parse_lines n (''wifi:'' # ls) st = parse_lines (Suc n) ls (st\<lparr>ys_section := ''wifi''\<rparr>)"
  by (simp_all add: parse_section_lines maxToken_def)

declare parse_lines.simps [simp del]

lemma known_names: "''system'' \<in> set known_sections" "''grbl'' \<in> set known_sections"
  "''camera'' \<in> set known_sections" "''ssh'' \<in> set known_sections"
  "''network'' \<in> set known_sections" "''wifi'' \<in> set known_sections"
  by (simp_all add: known_sections_def)

lemma set_key_string:
  "map_of setters (ys_section st @ ''.'' @ k) = Some (set_string f) \<Longrightarrow>
   set_key n k (quote_string table s) st = st\<lparr>ys_config := f s (ys_config st)\<rparr>"
  by (simp add: set_key_def setValue_def set_string_def string_value_quote)

lemma set_key_int:
  "map_of setters (ys_section st @ ''.'' @ k) = Some (set_int f) \<Longrightarrow> - (2 ^ 63) \<le> i \<Longrightarrow> i < 2 ^ 63 \<Longrightarrow>
   set_key n k (itoa i) st = st\<lparr>ys_config := f i (ys_config st)\<rparr>"
  by (simp add: set_key_def setValue_def set_int_def int_value_itoa)

lemma set_key_bool:
  "map_of setters (ys_section st @ ''.'' @ k) = Some (set_bool f) \<Longrightarrow>
   set_key n k (bool_text b) st = st\<lparr>ys_config := f b (ys_config st)\<rparr>"
  by (simp add: set_key_def setValue_def set_bool_def bool_value_text)

lemmas reading_simps = parse_lines_section parse_lines_key plain_keys [simplified] known_names
  quote_string_plain itoa_plain bool_text_plain set_key_string set_key_int set_key_bool setter_lookups

definition fits :: "string list \<Rightarrow> bool" where
  "fits ls \<longleftrightarrow> (\<forall>l \<in> set ls. length l < maxToken)"

lemma whole_records:
  "s0\<lparr>sys_hostname := sys_hostname s, sys_setup_complete := sys_setup_complete s,
      sys_usb_autosuspend := sys_usb_autosuspend s\<rparr> = (s :: system_config)"
  "g0\<lparr>grbl_backend := grbl_backend g, grbl_device := grbl_device g, grbl_baudrate := grbl_baudrate g,
      grbl_port := grbl_port g, grbl_max_connections := grbl_max_connections g,
      grbl_reconnect := grbl_reconnect g, grbl_kick_old_user := grbl_kick_old_user g,
      grbl_on_disconnect := grbl_on_disconnect g, grbl_monitor_port := grbl_monitor_port g,
      grbl_stationary_beam := grbl_stationary_beam g\<rparr> = (g :: grbl_config)"
  "k0\<lparr>cam_device := cam_device k, cam_format := cam_format k, cam_resolution := cam_resolution k,
      cam_fps := cam_fps k, cam_port := cam_port k, cam_quality := cam_quality k\<rparr>
    = (k :: camera_config)"
  "h0\<lparr>ssh_enabled := ssh_enabled h, ssh_password := ssh_password h\<rparr> = (h :: ssh_config)"
  "w0\<lparr>wifi_enabled := wifi_enabled w, wifi_ssid := wifi_ssid w, wifi_psk := wifi_psk w,
      wifi_country := wifi_country w, wifi_hidden := wifi_hidden w\<rparr> = (w :: wifi_config)"
  "net_dns n0 = [] \<Longrightarrow>
   n0\<lparr>net_mode := net_mode n, net_address := net_address n, net_gateway := net_gateway n,
      net_dns := net_dns n\<rparr> = (n :: network_config)"
  by simp_all

lemma read_system:
  assumes "fits (system_lines (quote_string table) s)" and "system_problems s = []"
  shows "parse_lines n (system_lines (quote_string table) s @ ls) st =
    parse_lines (n + 4) ls
      (st\<lparr>ys_section := ''system'', ys_config := (ys_config st)\<lparr>cg_system := s\<rparr>\<rparr>)"
  using assms
  by (simp add: system_lines_def fits_def reading_simps whole_records eval_nat_numeral system_problems_def in_defs
      USBAutosuspendOff_def MaxUSBAutosuspend_def)

lemma read_grbl:
  assumes "fits (grbl_lines (quote_string table) g)" and "grbl_problems g = []"
  shows "parse_lines n (grbl_lines (quote_string table) g @ ls) st =
    parse_lines (n + 11) ls
      (st\<lparr>ys_section := ''grbl'', ys_config := (ys_config st)\<lparr>cg_grbl := g\<rparr>\<rparr>)"
proof -
  have ranges: "grbl_baudrate g \<in> set valid_baud" "1 \<le> grbl_port g" "grbl_port g \<le> 65535"
    "1 \<le> grbl_max_connections g" "grbl_max_connections g \<le> 16"
    "0 \<le> grbl_monitor_port g" "grbl_monitor_port g \<le> 65535"
    "0 \<le> grbl_stationary_beam g" "grbl_stationary_beam g \<le> 600"
    using assms(2) by (auto simp: grbl_problems_def split: if_splits)
  then have "0 \<le> grbl_baudrate g" "grbl_baudrate g \<le> 1000000" by (auto simp: valid_baud_def)
  with ranges assms(1) show ?thesis
    by (simp add: grbl_lines_def fits_def reading_simps whole_records eval_nat_numeral in_defs)
qed

lemma read_camera:
  assumes "fits (camera_lines (quote_string table) k)" and "camera_problems k = []"
  shows "parse_lines n (camera_lines (quote_string table) k @ ls) st =
    parse_lines (n + 7) ls
      (st\<lparr>ys_section := ''camera'', ys_config := (ys_config st)\<lparr>cg_camera := k\<rparr>\<rparr>)"
proof -
  have "1 \<le> cam_fps k" "cam_fps k \<le> 120" "1 \<le> cam_port k" "cam_port k \<le> 65535"
    "1 \<le> cam_quality k" "cam_quality k \<le> 100"
    using assms(2) by (simp_all add: camera_problems_def)
  with assms(1) show ?thesis
    by (simp add: camera_lines_def fits_def reading_simps whole_records eval_nat_numeral in_defs)
qed

lemma read_ssh:
  assumes "fits (ssh_lines h)"
  shows "parse_lines n (ssh_lines h @ ls) st =
    parse_lines (n + 3) ls
      (st\<lparr>ys_section := ''ssh'', ys_config := (ys_config st)\<lparr>cg_ssh := h\<rparr>\<rparr>)"
  using assms by (simp add: ssh_lines_def fits_def reading_simps whole_records eval_nat_numeral in_defs)

lemma read_network:
  assumes "fits (network_lines (quote_string table) w)" and "network_problems w = []"
    and "net_dns (cg_network (ys_config st)) = []"
  shows "parse_lines n (network_lines (quote_string table) w @ ls) st =
    parse_lines (n + 5) ls
      (st\<lparr>ys_section := ''network'', ys_config := (ys_config st)\<lparr>cg_network := w\<rparr>\<rparr>)"
proof -
  have "\<forall>s \<in> set (net_dns w). parse_ip s" using assms(2) by (simp add: network_problems_def)
  with assms(1,3) show ?thesis
    by (simp add: network_lines_def fits_def reading_simps whole_records eval_nat_numeral in_defs add_dns_join)
qed

lemma read_wifi:
  assumes "fits (wifi_lines (quote_string table) w)"
  shows "parse_lines n (wifi_lines (quote_string table) w @ ls) st =
    parse_lines (n + 6) ls
      (st\<lparr>ys_section := ''wifi'', ys_config := (ys_config st)\<lparr>cg_wifi := w\<rparr>\<rparr>)"
  using assms by (simp add: wifi_lines_def fits_def reading_simps whole_records eval_nat_numeral in_defs)

section \<open>A written configuration read back\<close>

lemma dec_digits: "0 \<le> n \<Longrightarrow> list_all dec_digit (dec n)"
proof (induction n rule: dec.induct)
  case (1 n)
  show ?case
  proof (cases "n < 10")
    case True
    with "1.prems" show ?thesis by (subst dec.simps) (simp add: dec_digit_def)
  next
    case False
    with 1 have "list_all dec_digit (dec (n div 10))" by simp
    with False show ?thesis by (subst dec.simps) (simp add: dec_digit_def)
  qed
qed

lemma newline_no_digit: "\<not> dec_digit (CHR 0x0A)"
  by (simp add: dec_digit_def digit_of_def)

lemma itoa_no_newline: "CHR 0x0A \<notin> set (itoa i)"
proof -
  have "CHR 0x0A \<notin> set (dec \<bar>i\<bar>)"
    using dec_digits [of "\<bar>i\<bar>"] newline_no_digit unfolding list_all_iff by (metis abs_ge_zero)
  then show ?thesis by (auto simp: itoa_def abs_if split: if_splits)
qed

lemma quote_no_newline: "CHR 0x0A \<notin> set (quote_string table s)"
  using quoted_visible [of "CHR 0x0A" table s] by (auto simp: quote_string_def visible_def)

lemma bool_no_newline: "CHR 0x0A \<notin> set (bool_text b)"
  by (simp add: bool_text_def)

lemma lines_without_newline: "\<forall>l \<in> set (yaml_lines (quote_string table) c). CHR 0x0A \<notin> set l"
  by (simp add: yaml_lines_def system_lines_def grbl_lines_def camera_lines_def ssh_lines_def
      network_lines_def wifi_lines_def yaml_key_def itoa_no_newline quote_no_newline bool_no_newline)

lemma fits_append [simp]: "fits (xs @ ys) \<longleftrightarrow> fits xs \<and> fits ys"
  by (auto simp: fits_def)

lemma parse_lines_Nil [simp]: "parse_lines n [] st = Inr st"
  by (simp add: parse_lines.simps)

lemma read_yaml_lines:
  assumes "fits (yaml_lines (quote_string table) c)" and "problems c = []"
  shows "parse_lines 0 (yaml_lines (quote_string table) c) fresh_yaml =
    Inr \<lparr>ys_config = c, ys_section = ''wifi'', ys_notes = []\<rparr>"
proof -
  have parts: "system_problems (cg_system c) = []" "grbl_problems (cg_grbl c) = []"
    "camera_problems (cg_camera c) = []" "network_problems (cg_network c) = []"
    using assms(2) by (simp_all add: problems_iff)
  have wifi: "parse_lines n (wifi_lines (quote_string table) (cg_wifi c)) st =
      Inr (st\<lparr>ys_section := ''wifi'', ys_config := (ys_config st)\<lparr>cg_wifi := cg_wifi c\<rparr>\<rparr>)" for n st
    using read_wifi [of table "cg_wifi c" n "[]" st] assms(1) by (simp add: yaml_lines_def)
  show ?thesis
    using assms(1) parts
    by (simp add: yaml_lines_def read_system read_grbl read_camera read_ssh read_network wifi
        fresh_yaml_def Default_def)
qed

lemma written_config_read:
  assumes "Validate c = None" and "fits (yaml_lines (quote_string table) c)"
  shows "\<exists>data. MarshalYAML table c = Inr data \<and> ParseYAML data = Inr (c, [])"
proof -
  let ?ls = "yaml_lines (quote_string table) c"
  let ?data = "concat (map (\<lambda>l. l @ [CHR 0x0A]) ?ls)"
  have "MarshalYAML table c = Inr ?data" using assms(1) by (simp add: MarshalYAML_def)
  moreover have "parseYAML ?data = Inr (c, [])"
    using assms by (simp add: parseYAML_def scan_terminated lines_without_newline read_yaml_lines Validate_iff)
  then have "ParseYAML ?data = Inr (c, [])" using assms(1) by (simp add: ParseYAML_def)
  ultimately show ?thesis by blast
qed

text \<open>
  C27: a valid configuration that is written to the disk is read back exactly, with nothing to
  complain about - whatever bytes its strings are made of and whatever runes count as printable
  - as long as no line of the file reaches the 64 kB at which the reader gives up.
\<close>

theorem config_round_trip:
  assumes "Validate c = None" and "fits (yaml_lines (quote_string table) c)"
  shows "\<exists>data. MarshalYAML table c = Inr data \<and> ParseYAML data = Inr (c, [])"
  using assms by (rule written_config_read)

text \<open>Strings of up to 16000 bytes are short enough.\<close>

definition text_values :: "config \<Rightarrow> string list" where
  "text_values c =
     [sys_hostname (cg_system c), grbl_backend (cg_grbl c), grbl_device (cg_grbl c),
      grbl_on_disconnect (cg_grbl c), cam_device (cg_camera c), cam_format (cg_camera c),
      cam_resolution (cg_camera c), net_mode (cg_network c), net_address (cg_network c),
      net_gateway (cg_network c), join (net_dns (cg_network c)) '','', wifi_ssid (cg_wifi c),
      wifi_psk (cg_wifi c), wifi_country (cg_wifi c)]"

lemma quote_string_short: "length s \<le> 16000 \<Longrightarrow> length (quote_string table s) \<le> 64002"
  using quoted_length [of table s] by (simp add: quote_string_def)

lemma itoa_short: "- (10 ^ 9) < i \<Longrightarrow> i < 10 ^ 9 \<Longrightarrow> length (itoa i) \<le> 10"
  using length_dec [of "i" 9] length_dec [of "- i" 9] by (simp add: itoa_def)

lemma key_fits: "length k + length v < 65000 \<Longrightarrow> length (yaml_key k v) < maxToken"
  by (simp add: yaml_key_def maxToken_def)

lemma short_config_fits:
  assumes "Validate c = None" and "\<forall>s \<in> set (text_values c). length s \<le> 16000"
  shows "fits (yaml_lines (quote_string table) c)"
proof -
  have short: "length (yaml_key k (quote_string table s)) < maxToken"
    if "length k \<le> 30" "length s \<le> 16000" for k s
    using quote_string_short [OF that(2), of table] that(1) by (intro key_fits) simp
  have number: "length (yaml_key k (itoa i)) < maxToken"
    if "length k \<le> 30" "- 1 \<le> i" "i \<le> 1000000" for k i
    using itoa_short [of i] that by (intro key_fits) simp
  have flag: "length (yaml_key k (bool_text b)) < maxToken" if "length k \<le> 30" for k b
    using that by (intro key_fits) (simp add: bool_text_def)
  have "problems c = []" using assms(1) by (simp add: Validate_iff)
  then have ranges: "- 1 \<le> sys_usb_autosuspend (cg_system c)" "sys_usb_autosuspend (cg_system c) \<le> 3600"
    "grbl_baudrate (cg_grbl c) \<in> set valid_baud" "1 \<le> grbl_port (cg_grbl c)" "grbl_port (cg_grbl c) \<le> 65535"
    "1 \<le> grbl_max_connections (cg_grbl c)" "grbl_max_connections (cg_grbl c) \<le> 16"
    "0 \<le> grbl_monitor_port (cg_grbl c)" "grbl_monitor_port (cg_grbl c) \<le> 65535"
    "0 \<le> grbl_stationary_beam (cg_grbl c)" "grbl_stationary_beam (cg_grbl c) \<le> 600"
    "1 \<le> cam_fps (cg_camera c)" "cam_fps (cg_camera c) \<le> 120"
    "1 \<le> cam_port (cg_camera c)" "cam_port (cg_camera c) \<le> 65535"
    "1 \<le> cam_quality (cg_camera c)" "cam_quality (cg_camera c) \<le> 100"
    by (auto simp: problems_iff system_problems_def grbl_problems_def camera_problems_def
        USBAutosuspendOff_def MaxUSBAutosuspend_def split: if_splits)
  then have "0 \<le> grbl_baudrate (cg_grbl c)" "grbl_baudrate (cg_grbl c) \<le> 1000000"
    by (auto simp: valid_baud_def)
  with ranges assms(2) show ?thesis
    by (simp add: yaml_lines_def system_lines_def grbl_lines_def camera_lines_def ssh_lines_def
        network_lines_def wifi_lines_def fits_def short number flag text_values_def)
      (simp add: maxToken_def)
qed

theorem config_round_trip_witness:
  "\<exists>data. MarshalYAML (\<lambda>_. True) Default = Inr data \<and> ParseYAML data = Inr (Default, [])"
proof -
  have "fits (yaml_lines (quote_string (\<lambda>_. True)) Default)"
    by (rule short_config_fits [OF Default_valid]) (simp add: text_values_def Default_def
        BackendSer2net_def OnDisconnectReset_def)
  from config_round_trip [OF Default_valid this] show ?thesis .
qed

section \<open>Ports\<close>

definition used_ports :: "config \<Rightarrow> int list" where
  "used_ports c = filter (\<lambda>p. p \<noteq> 0) (map snd (port_claims c))"

lemma claim_ports_distinct:
  "claim_ports taken claims = [] \<Longrightarrow>
   distinct (filter (\<lambda>p. p \<noteq> 0) (map snd claims))
   \<and> (\<forall>p \<in> set (filter (\<lambda>p. p \<noteq> 0) (map snd claims)). map_of taken p = None)"
proof (induction taken claims rule: claim_ports.induct)
  case (1 taken)
  then show ?case by simp
next
  case (2 taken name port claims)
  show ?case
  proof (cases "port = 0")
    case True
    with 2 show ?thesis by simp
  next
    case False
    with 2(4) have free: "map_of taken port = None" and rest: "claim_ports ((port, name) # taken) claims = []"
      by (simp_all split: option.splits)
    have IH: "distinct (filter (\<lambda>p. p \<noteq> 0) (map snd claims))"
      "\<And>p. p \<in> set (filter (\<lambda>p. p \<noteq> 0) (map snd claims)) \<Longrightarrow> map_of ((port, name) # taken) p = None"
      using 2(2) [OF False free rest] by blast+
    have "port \<notin> set (filter (\<lambda>p. p \<noteq> 0) (map snd claims))"
      using IH(2) [of port] by auto
    moreover have "map_of taken p = None" if "p \<in> set (filter (\<lambda>p. p \<noteq> 0) (map snd claims))" for p
      using IH(2) [OF that] by (simp split: if_splits)
    ultimately show ?thesis using IH(1) free False by simp
  qed
qed

text \<open>
  No two services of a valid configuration listen on the same port, none of them takes the
  port of SSH or of the web interface, and every port is one that exists.
\<close>

theorem services_have_their_own_ports:
  assumes "Validate c = None"
  shows "distinct (22 # 80 # used_ports c) \<and> (\<forall>p \<in> set (used_ports c). 1 \<le> p \<and> p \<le> 65535)"
proof -
  have parts: "claim_ports taken_ports (port_claims c) = []" "grbl_problems (cg_grbl c) = []"
    "camera_problems (cg_camera c) = []"
    using assms by (simp_all add: Validate_iff problems_iff)
  then have "\<forall>p \<in> set (used_ports c). 1 \<le> p \<and> p \<le> 65535"
    by (auto simp: used_ports_def port_claims_def grbl_problems_def camera_problems_def split: if_splits)
  moreover have "distinct (22 # 80 # used_ports c)"
    using claim_ports_distinct [OF parts(1)] by (auto simp: used_ports_def taken_ports_def)
  ultimately show ?thesis by blast
qed

theorem services_have_their_own_ports_witness: "distinct (22 # 80 # used_ports Default)"
  using services_have_their_own_ports [OF Default_valid] by blast

section \<open>Salvage\<close>

definition kept_system :: "config \<Rightarrow> system_config" where
  \<comment> \<open>what of the first section survives, given whether the Wi-Fi settings do\<close>
  "kept_system b =
     \<lparr>sys_hostname = (if hostname_matches (sys_hostname (cg_system b)) then sys_hostname (cg_system b)
                     else ''laserbridge''),
      sys_setup_complete = (sys_setup_complete (cg_system b)
        \<and> (wifi_problems (cg_wifi b) = [] \<or> \<not> wifi_enabled (cg_wifi b))),
      sys_usb_autosuspend = - 1\<rparr>"

lemma Default_parts:
  "system_problems (cg_system Default) = []" "grbl_problems (cg_grbl Default) = []"
  "camera_problems (cg_camera Default) = []" "network_problems (cg_network Default) = []"
  "wifi_problems (cg_wifi Default) = []"
  using Default_valid by (simp_all add: Validate_iff problems_iff)

lemma Default_ports: "cg_grbl c = cg_grbl Default \<Longrightarrow> cg_camera c = cg_camera Default \<Longrightarrow>
    claim_ports taken_ports (port_claims c) = []"
  using Default_valid by (simp add: Validate_iff problems_iff port_claims_def)

lemma Validate_near_Default:
  assumes "cg_grbl c = cg_grbl Default" and "cg_camera c = cg_camera Default"
  shows "Validate c = None \<longleftrightarrow> system_problems (cg_system c) = []
    \<and> network_problems (cg_network c) = [] \<and> wifi_problems (cg_wifi c) = []"
  using assms Default_parts Default_ports [OF assms] by (simp add: Validate_iff problems_iff)

lemma kept_system_valid: "system_problems (kept_system b) = []"
proof -
  have "hostname_matches ''laserbridge''" by code_simp
  then show ?thesis
    by (simp add: system_problems_def kept_system_def USBAutosuspendOff_def MaxUSBAutosuspend_def)
qed

text \<open>
  Whatever is left of a broken configuration, what \<open>Salvage\<close> makes of it is a valid one.
  Everything an operator needs to find the appliance again is kept as far as it is usable on its
  own: the host name, the Wi-Fi and the network settings; everything else is the default. The
  first-boot access point stays off only where it was off before and the Wi-Fi settings either
  survived or were not in use.
\<close>

theorem salvage_keeps_what_is_usable:
  "Validate (Salvage b) = None
   \<and> Salvage b = Default
       \<lparr>cg_system := kept_system b,
        cg_network := (if network_problems (cg_network b) = [] then cg_network b else cg_network Default),
        cg_wifi := (if wifi_problems (cg_wifi b) = [] then cg_wifi b else cg_wifi Default)\<rparr>"
proof -
  let ?w = "if wifi_problems (cg_wifi b) = [] then cg_wifi b else cg_wifi Default"
  let ?n = "if network_problems (cg_network b) = [] then cg_network b else cg_network Default"
  let ?h = "if hostname_matches (sys_hostname (cg_system b)) then sys_hostname (cg_system b) else ''laserbridge''"
  let ?s0 = "(cg_system Default)\<lparr>sys_hostname := ?h\<rparr>"
  let ?safe0 = "Default\<lparr>cg_system := ?s0\<rparr>"
  have valid: "Validate (Default\<lparr>cg_system := s, cg_wifi := w, cg_network := n\<rparr>) = None
      \<longleftrightarrow> system_problems s = [] \<and> network_problems n = [] \<and> wifi_problems w = []" for s w n
    by (simp add: Validate_near_Default)
  have "hostname_matches ''laserbridge''" by code_simp
  then have s0: "system_problems ?s0 = []"
    by (simp add: system_problems_def Default_def USBAutosuspendOff_def MaxUSBAutosuspend_def)
  have safe0: "(if hostname_matches (sys_hostname (cg_system b))
      then Default\<lparr>cg_system := (cg_system Default)\<lparr>sys_hostname := sys_hostname (cg_system b)\<rparr>\<rparr>
      else Default) = ?safe0"
    by (simp add: Default_def)
  have wifi: "Validate (?safe0\<lparr>cg_wifi := cg_wifi b\<rparr>) = None \<longleftrightarrow> wifi_problems (cg_wifi b) = []"
    using valid [where s = ?s0 and w = "cg_wifi b" and n = "cg_network Default"] s0 Default_parts by simp
  have safe1: "(if wifi_problems (cg_wifi b) = [] then ?safe0\<lparr>cg_wifi := cg_wifi b\<rparr> else ?safe0)
      = ?safe0\<lparr>cg_wifi := ?w\<rparr>"
    by simp
  have w: "wifi_problems ?w = []" using Default_parts by simp
  have network: "Validate (?safe0\<lparr>cg_wifi := ?w, cg_network := cg_network b\<rparr>) = None
      \<longleftrightarrow> network_problems (cg_network b) = []"
    using valid [where s = ?s0 and w = ?w and n = "cg_network b"] s0 w by simp
  have safe2: "(if network_problems (cg_network b) = []
      then ?safe0\<lparr>cg_wifi := ?w, cg_network := cg_network b\<rparr> else ?safe0\<lparr>cg_wifi := ?w\<rparr>)
      = ?safe0\<lparr>cg_wifi := ?w, cg_network := ?n\<rparr>"
    by simp
  let ?done_before = "sys_setup_complete (cg_system b)
      \<and> (wifi_problems (cg_wifi b) = [] \<or> \<not> wifi_enabled (cg_wifi b))"
  let ?safe2 = "?safe0\<lparr>cg_wifi := ?w, cg_network := ?n\<rparr>"
  let ?result = "Default\<lparr>cg_system := kept_system b, cg_network := ?n, cg_wifi := ?w\<rparr>"
  have safe3: "(if ?done_before then ?safe2\<lparr>cg_system := (cg_system ?safe2)\<lparr>sys_setup_complete := True\<rparr>\<rparr> else ?safe2)
      = ?result"
    by (simp add: kept_system_def Default_def USBAutosuspendOff_def)
  have ok: "Validate ?result = None"
    by (simp add: Validate_near_Default kept_system_valid Default_parts)
  have "Salvage b = ?result"
    unfolding Salvage_def Let_def safe0 wifi safe1 network safe2 safe3 using ok by simp
  with ok show ?thesis by simp
qed

section \<open>Lines this version cannot use\<close>

definition yaml_core :: "yaml_state \<Rightarrow> config \<times> string" where
  "yaml_core st = (ys_config st, ys_section st)"

abbreviation sum_core where "sum_core \<equiv> map_sum (\<lambda>_. ()) yaml_core"

lemma set_key_core: "yaml_core st = yaml_core st' \<Longrightarrow> yaml_core (set_key n k v st) = yaml_core (set_key m k v st')"
  by (auto simp: yaml_core_def set_key_def split: sum.splits value_error.splits)

lemma enter_section_core: "yaml_core st = yaml_core st' \<Longrightarrow> yaml_core (enter_section s st) = yaml_core (enter_section s st')"
  by (simp add: yaml_core_def enter_section_def)

lemma parse_line_core:
  assumes "yaml_core st = yaml_core st'"
  shows "sum_core (parse_line n l st) = sum_core (parse_line m l st')"
proof -
  have "ys_section st = ys_section st'" using assms by (simp add: yaml_core_def)
  with assms set_key_core [OF assms] enter_section_core [OF assms] show ?thesis
    by (simp add: parse_line_def Let_def case_prod_beta)
qed

lemma parse_lines_core:
  "yaml_core st = yaml_core st' \<Longrightarrow> sum_core (parse_lines n ls st) = sum_core (parse_lines m ls st')"
proof (induction ls arbitrary: n m st st')
  case (Cons l ls)
  have step: "sum_core (parse_line (Suc n) (drop_cr l) st) = sum_core (parse_line (Suc m) (drop_cr l) st')"
    by (rule parse_line_core [OF Cons.prems])
  show ?case
  proof (cases "parse_line (Suc n) (drop_cr l) st")
    case (Inl e)
    with step show ?thesis
      by (cases "parse_line (Suc m) (drop_cr l) st'") (simp_all add: parse_lines.simps)
  next
    case (Inr s)
    with step obtain s' where s': "parse_line (Suc m) (drop_cr l) st' = Inr s'" "yaml_core s = yaml_core s'"
      by (cases "parse_line (Suc m) (drop_cr l) st'") simp_all
    from Cons.IH [OF s'(2), of "Suc n" "Suc m"] Inr s'(1) show ?thesis by (simp add: parse_lines.simps)
  qed
qed (simp add: parse_lines.simps)

lemma parse_lines_append:
  "parse_lines n (xs @ ys) st =
     (case parse_lines n xs st of Inl e \<Rightarrow> Inl e | Inr st' \<Rightarrow> parse_lines (n + length xs) ys st')"
  by (induction xs arbitrary: n st) (auto simp: parse_lines.simps split: sum.splits)

definition useless :: "yaml_state \<Rightarrow> string \<Rightarrow> string \<Rightarrow> bool" where
  "useless st k v \<longleftrightarrow>
     ys_section st = unknownSection
   \<or> (ys_section st \<in> set known_sections \<and> isl (setValue (ys_config st) (ys_section st) k v))"

lemma useless_line_core:
  assumes "plain_key k" and "plain_value v" and "useless st k v" and "length (yaml_key k v) < maxToken"
  shows "sum_core (parse_lines n (yaml_key k v # ls) st) = sum_core (parse_lines n ls st)"
proof -
  have "ys_section st \<noteq> []"
    using assms(3) known_section_names by (auto simp: useless_def unknownSection_def)
  moreover have "yaml_core (set_key (Suc n) k v st) = yaml_core st" if "ys_section st \<noteq> unknownSection"
    using assms(3) that
    by (auto simp: useless_def set_key_def yaml_core_def split: sum.splits value_error.splits)
  ultimately obtain st' where "parse_line (Suc n) (drop_cr (yaml_key k v)) st = Inr st'"
    "yaml_core st' = yaml_core st"
    using parse_any_key_line [OF assms(1,2)] by (cases "ys_section st = unknownSection") auto
  with assms(4) parse_lines_core [of st' st "Suc n" ls n] show ?thesis
    by (simp add: parse_lines.simps)
qed

definition yaml_file :: "string list \<Rightarrow> string" where
  "yaml_file ls = concat (map (\<lambda>l. l @ [CHR 0x0A]) ls)"

lemma parseYAML_file:
  "\<forall>l \<in> set ls. CHR 0x0A \<notin> set l \<Longrightarrow>
   map_sum (\<lambda>_. ()) fst (parseYAML (yaml_file ls)) =
   map_sum id fst (sum_core (parse_lines 0 ls fresh_yaml))"
  by (cases "parse_lines 0 ls fresh_yaml")
    (simp_all add: parseYAML_def yaml_file_def scan_terminated yaml_core_def)

text \<open>
  A setting this version cannot use costs nothing but itself. A line with a key it has
  never heard of, with a value it cannot read, or in a section it does not know, may stand
  anywhere among the lines of a file: the configuration that is read is the one that is read
  without it.
\<close>

theorem unusable_line_costs_itself:
  assumes "parse_lines 0 xs fresh_yaml = Inr st" and "useless st k v"
    and "plain_key k" and "plain_value v" and "length (yaml_key k v) < maxToken"
    and "\<forall>l \<in> set (xs @ yaml_key k v # ys). CHR 0x0A \<notin> set l"
  shows "map_sum (\<lambda>_. ()) fst (parseYAML (yaml_file (xs @ yaml_key k v # ys))) =
    map_sum (\<lambda>_. ()) fst (parseYAML (yaml_file (xs @ ys)))"
proof -
  have "sum_core (parse_lines 0 (xs @ yaml_key k v # ys) fresh_yaml) = sum_core (parse_lines 0 (xs @ ys) fresh_yaml)"
    using assms(1) useless_line_core [OF assms(3,4,2,5)] by (simp add: parse_lines_append)
  with assms(6) show ?thesis by (simp add: parseYAML_file)
qed

theorem unusable_line_costs_itself_witness:
  "map_sum (\<lambda>_. ()) fst (parseYAML (yaml_file [''grbl:'', ''  turbo: 3'', ''  port: 2300''])) =
   map_sum (\<lambda>_. ()) fst (parseYAML (yaml_file [''grbl:'', ''  port: 2300'']))"
proof -
  let ?st = "fresh_yaml\<lparr>ys_section := ''grbl''\<rparr>"
  have "parse_lines 0 [''grbl:''] fresh_yaml = Inr ?st" by (simp add: parse_lines_section)
  moreover have "useless ?st ''turbo'' ''3''"
    by (simp add: useless_def known_names setValue_def setters_def)
  moreover have "plain_key ''turbo''" "plain_value ''3''"
    by (simp_all add: plain_key_def plain_value_def solid_def space1_def)
  moreover have "length (yaml_key ''turbo'' ''3'') < maxToken" by (simp add: yaml_key_def maxToken_def)
  ultimately show ?thesis
    using unusable_line_costs_itself [of "[''grbl:'']" ?st "''turbo''" "''3''" "[''  port: 2300'']"]
    by (simp add: yaml_key_def)
qed

end
