(* ===== verification/Config_Store.thy ===== *)
theory Config_Store
  imports Config_Facts
begin

text \<open>
  \<open>backend/internal/config/store.go\<close>: the configuration on disk. Files are a map from names to
  contents; a write replaces a file or fails and leaves it (theory \<open>Atomic_File\<close> shows that of
  \<open>atomicfile.Write\<close>). What the operating system reports is an argument.
\<close>

section \<open>The store\<close>

datatype store_note = InFile config_note | MovedAside string

record store =
  so_path :: string
  so_notes :: "store_note list"

type_synonym files = "string \<Rightarrow> string option"

record os_answers =
  os_read_error :: "string option"
  os_mkdir_error :: "string option"
  os_write_error :: "string \<Rightarrow> string option"

datatype store_error = ReadError string | ParseError config_error | WriteError string | NotSaved string

definition saveLocked ::
    "(nat \<Rightarrow> bool) \<Rightarrow> os_answers \<Rightarrow> config \<Rightarrow> store \<times> files \<Rightarrow> (store \<times> files) \<times> store_error option" where
  "saveLocked table os c s =
     (case s of
        (st, fs) \<Rightarrow>
          (case MarshalYAML table c of
             Inl e \<Rightarrow> (s, Some (NotSaved e))
           | Inr data \<Rightarrow>
               (case os_mkdir_error os of
                  Some e \<Rightarrow> (s, Some (WriteError e))
                | None \<Rightarrow>
                    (case os_write_error os (so_path st) of
                       Some e \<Rightarrow> (s, Some (WriteError e))
                     | None \<Rightarrow> ((st\<lparr>so_notes := []\<rparr>, fs(so_path st \<mapsto> data)), None)))))"

definition Save ::
    "(nat \<Rightarrow> bool) \<Rightarrow> os_answers \<Rightarrow> config \<Rightarrow> store \<times> files \<Rightarrow> (store \<times> files) \<times> store_error option" where
  "Save table os c s = saveLocked table os c s"

definition Load :: "os_answers \<Rightarrow> store \<times> files \<Rightarrow> store_error + config" where
  "Load os s =
     (case s of
        (st, fs) \<Rightarrow>
          (case (os_read_error os, fs (so_path st)) of
             (Some e, _) \<Rightarrow> Inl (ReadError e)
           | (None, None) \<Rightarrow> Inl (ReadError ''no such file or directory'')
           | (None, Some data) \<Rightarrow>
               (case ParseYAML data of Inl e \<Rightarrow> Inl (ParseError e) | Inr (c, _) \<Rightarrow> Inr c)))"

definition broken_name :: "string \<Rightarrow> string" where
  "broken_name path = path @ ''.broken''"

definition rescued :: "string \<Rightarrow> config" where
  \<comment> \<open>what the file still says, judged afterwards\<close>
  "rescued data = (case parseYAML data of Inl _ \<Rightarrow> Default | Inr (c, _) \<Rightarrow> c)"

definition Ensure ::
    "(nat \<Rightarrow> bool) \<Rightarrow> os_answers \<Rightarrow> store \<times> files \<Rightarrow>
     (store \<times> files) \<times> string \<times> store_error option" where
  "Ensure table os s =
     (case s of
        (st, fs) \<Rightarrow>
          (case (os_read_error os, fs (so_path st)) of
             (Some e, _) \<Rightarrow> (s, [], Some (ReadError e))
           | (None, None) \<Rightarrow>
               (case saveLocked table os Default (st\<lparr>so_notes := []\<rparr>, fs) of (s', e) \<Rightarrow> (s', [], e))
           | (None, Some data) \<Rightarrow>
               (case ParseYAML data of
                  Inr (c, notes) \<Rightarrow> ((st\<lparr>so_notes := map InFile notes\<rparr>, fs), [], None)
                | Inl _ \<Rightarrow>
                    (let q = broken_name (so_path st)
                     in case os_write_error os q of
                          Some e \<Rightarrow> (s, [], Some (WriteError e))
                        | None \<Rightarrow>
                            (case saveLocked table os (Salvage (rescued data)) (st, fs(q \<mapsto> data)) of
                               (s', Some e) \<Rightarrow> (s', q, Some e)
                             | ((st', fs'), None) \<Rightarrow>
                                 ((st'\<lparr>so_notes := [MovedAside q]\<rparr>, fs'), q, None))))))"

definition Notes :: "store \<Rightarrow> store_note list" where
  "Notes st = so_notes st"

section \<open>What is saved can be loaded\<close>

definition healthy :: "os_answers \<Rightarrow> bool" where
  "healthy os \<longleftrightarrow> os_read_error os = None \<and> os_mkdir_error os = None \<and> (\<forall>p. os_write_error os p = None)"

definition storable :: "(nat \<Rightarrow> bool) \<Rightarrow> config \<Rightarrow> bool" where
  "storable table c \<longleftrightarrow> Validate c = None \<and> fits (yaml_lines (quote_string table) c)"

lemma saved_loads:
  assumes "storable table c" and "saveLocked table os c s = (s', None)" and "os_read_error os = None"
  shows "Load os s' = Inr c"
proof -
  obtain data where data: "MarshalYAML table c = Inr data" "ParseYAML data = Inr (c, [])"
    using assms(1) written_config_read unfolding storable_def by blast
  obtain st fs where s: "s = (st, fs)" by (cases s)
  have "s' = (st\<lparr>so_notes := []\<rparr>, fs(so_path st \<mapsto> data))"
    using assms(2) data(1) by (simp add: s saveLocked_def split: option.splits)
  then show ?thesis using assms(3) data(2) by (simp add: Load_def)
qed

lemma healthy_save:
  assumes "healthy os" and "storable table c"
  shows "\<exists>data. saveLocked table os c (st, fs) = ((st\<lparr>so_notes := []\<rparr>, fs(so_path st \<mapsto> data)), None)"
proof -
  obtain data where "MarshalYAML table c = Inr data"
    using assms(2) written_config_read unfolding storable_def by blast
  with assms(1) have "saveLocked table os c (st, fs) = ((st\<lparr>so_notes := []\<rparr>, fs(so_path st \<mapsto> data)), None)"
    by (simp add: saveLocked_def healthy_def)
  then show ?thesis by blast
qed

lemma Default_storable: "storable table Default"
  unfolding storable_def
  by (intro conjI Default_valid short_config_fits)
    (simp add: text_values_def Default_def BackendSer2net_def OnDisconnectReset_def)

text \<open>
  C28: after \<open>Ensure\<close> on a disk that takes writes there is a configuration, and it can be loaded. A
  file that could be read is left as it is, byte for byte; one that could not is kept under
  another name, and in its place stands what could be salvaged from it; a missing one is
  replaced by the defaults. (The salvaged network settings have to fit the 64 kB lines of the
  reader.)
\<close>

theorem ensured_store_loads:
  fixes table os st fs
  assumes "healthy os" and "\<forall>data. fs (so_path st) = Some data \<longrightarrow> storable table (Salvage (rescued data))"
  defines "s' \<equiv> fst (Ensure table os (st, fs))"
  shows "case fs (so_path st) of
      None \<Rightarrow> Load os s' = Inr Default
    | Some data \<Rightarrow>
        (case ParseYAML data of
           Inr (c, notes) \<Rightarrow> Load os s' = Inr c \<and> snd s' = fs \<and> Notes (fst s') = map InFile notes
         | Inl _ \<Rightarrow> Load os s' = Inr (Salvage (rescued data))
             \<and> snd s' (broken_name (so_path st)) = Some data)"
proof (cases "fs (so_path st)")
  case None
  obtain data where save: "saveLocked table os Default (st\<lparr>so_notes := []\<rparr>, fs) =
      ((st\<lparr>so_notes := []\<rparr>, fs(so_path st \<mapsto> data)), None)"
    using healthy_save [OF assms(1) Default_storable, where st = "st\<lparr>so_notes := []\<rparr>" and fs = fs] by auto
  have "Load os (st\<lparr>so_notes := []\<rparr>, fs(so_path st \<mapsto> data)) = Inr Default"
    using saved_loads [OF Default_storable save] assms(1) by (simp add: healthy_def)
  with None save assms(1) show ?thesis by (simp add: s'_def Ensure_def healthy_def)
next
  case (Some data)
  show ?thesis
  proof (cases "ParseYAML data")
    case (Inr r)
    obtain c warned where "r = (c, warned)" by (cases r)
    with Inr Some assms(1) show ?thesis by (simp add: s'_def Ensure_def Load_def Notes_def healthy_def)
  next
    case (Inl e)
    let ?q = "broken_name (so_path st)"
    have q: "?q \<noteq> so_path st" by (simp add: broken_name_def)
    have ok: "storable table (Salvage (rescued data))" using assms(2) Some by blast
    obtain written where save: "saveLocked table os (Salvage (rescued data)) (st, fs(?q \<mapsto> data)) =
        ((st\<lparr>so_notes := []\<rparr>, fs(?q \<mapsto> data, so_path st \<mapsto> written)), None)"
      using healthy_save [OF assms(1) ok, where st = st and fs = "fs(?q \<mapsto> data)"] by auto
    have "Load os (st\<lparr>so_notes := []\<rparr>, fs(?q \<mapsto> data, so_path st \<mapsto> written)) = Inr (Salvage (rescued data))"
      using saved_loads [OF ok save] assms(1) by (simp add: healthy_def)
    then have "Load os (st\<lparr>so_notes := [MovedAside ?q]\<rparr>, fs(?q \<mapsto> data, so_path st \<mapsto> written)) =
        Inr (Salvage (rescued data))"
      using assms(1) by (simp add: Load_def healthy_def)
    moreover have "s' = (st\<lparr>so_notes := [MovedAside ?q]\<rparr>, fs(?q \<mapsto> data, so_path st \<mapsto> written))"
      using Some Inl save assms(1) by (simp add: s'_def Ensure_def healthy_def Let_def)
    ultimately show ?thesis using Some Inl q by simp
  qed
qed

definition quiet_os :: os_answers where
  "quiet_os = \<lparr>os_read_error = None, os_mkdir_error = None, os_write_error = (\<lambda>_. None)\<rparr>"

theorem ensured_store_loads_witness:
  "Load quiet_os (fst (Ensure (\<lambda>_. True) quiet_os (\<lparr>so_path = ''/data/c.yaml'', so_notes = []\<rparr>, \<lambda>_. None)))
     = Inr Default"
proof -
  have "healthy quiet_os" by (simp add: healthy_def quiet_os_def)
  from ensured_store_loads [OF this, of "\<lambda>_. None" "\<lparr>so_path = ''/data/c.yaml'', so_notes = []\<rparr>" "\<lambda>_. True"]
  show ?thesis by simp
qed

end
