(* ===== verification/Update.thy ===== *)
theory Update
  imports Config GoQuote
begin

text \<open>
  \<open>backend/internal/update/update.go\<close>: what an update bundle has to be, how one is written into
  the slot that is not running, and how a boot is confirmed; and \<open>build/grub.cfg\<close>, which picks
  the slot to boot. What reaches the flash is a list of effects in the order of the code, so
  that an interruption - an error or a loss of power - is a prefix of the list and a half-done
  next effect. SHA-256 and the decoder of \<open>encoding/json\<close> are arguments.
\<close>

section \<open>Bundles\<close>

record file_spec =
  fs_sha256 :: string
  fs_size :: int

record update_manifest =
  mf_format :: int
  mf_architecture :: string
  mf_version :: string
  mf_files :: "(string \<times> file_spec) list"

text \<open>An entry of a zip archive; its data are \<open>None\<close> where it cannot be read.\<close>

record zip_entry =
  ze_name :: string
  ze_dir :: bool
  ze_size :: nat
  ze_data :: "string option"

definition rootSlotSize :: int where "rootSlotSize = 192 * 2 ^ 20"

definition version_matches :: "string \<Rightarrow> bool" where
  "version_matches s \<longleftrightarrow>
     s \<noteq> [] \<and> length s \<le> 64 \<and> ascii_alnum (hd s)
     \<and> list_all (\<lambda>c. ascii_alnum c \<or> c \<in> set ''._-'') (tl s)"

definition digest_matches :: "string \<Rightarrow> bool" where
  "digest_matches s \<longleftrightarrow> length s = 64 \<and> list_all (\<lambda>c. dec_digit c \<or> c \<in> set ''abcdef'') s"

definition hex_text :: "string \<Rightarrow> string" where
  "hex_text s = concat (map (\<lambda>c. [hex_char (code_of c div 16), hex_char (code_of c mod 16)]) s)"

definition bundle_names :: "string list" where
  "bundle_names = [''manifest.json'', ''root.squashfs'', ''vmlinuz-lts'', ''initramfs-lts'']"

definition payload_limits :: "(string \<times> int) list" where
  "payload_limits =
     [(''root.squashfs'', rootSlotSize), (''vmlinuz-lts'', 64 * 2 ^ 20), (''initramfs-lts'', 128 * 2 ^ 20)]"

fun collect_entries :: "zip_entry list \<Rightarrow> (string \<times> zip_entry) list \<Rightarrow> (string \<times> zip_entry) list option" where
  "collect_entries [] found = Some found"
| "collect_entries (e # es) found =
     (if ze_name e \<notin> set bundle_names \<or> map_of found (ze_name e) \<noteq> None \<or> ze_dir e then None
      else collect_entries es ((ze_name e, e) # found))"

definition verifyZipEntry :: "(string \<Rightarrow> string) \<Rightarrow> zip_entry \<Rightarrow> file_spec \<Rightarrow> bool" where
  "verifyZipEntry sha256 e spec =
     (case ze_data e of
        None \<Rightarrow> False
      | Some data \<Rightarrow> int (length data) = fs_size spec \<and> hex_text (sha256 data) = fs_sha256 spec)"

definition payload_ok ::
    "(string \<Rightarrow> string) \<Rightarrow> update_manifest \<Rightarrow> (string \<times> zip_entry) list \<Rightarrow> string \<times> int \<Rightarrow> bool" where
  "payload_ok sha256 m entries p =
     (case (map_of (mf_files m) (fst p), map_of entries (fst p)) of
        (Some spec, Some e) \<Rightarrow>
          digest_matches (fs_sha256 spec) \<and> 4 \<le> fs_size spec \<and> fs_size spec \<le> snd p
          \<and> nat (fs_size spec) = ze_size e \<and> verifyZipEntry sha256 e spec
      | _ \<Rightarrow> False)"

datatype bundle_error =
    NotAnArchive | UnexpectedEntry | Incomplete | ManifestTooLarge | InvalidManifest
  | Unsupported | InvalidFileList | InvalidPayload | NoSquashFS

definition openAndValidateBundle ::
    "(string \<Rightarrow> string) \<Rightarrow> (string \<Rightarrow> update_manifest option) \<Rightarrow> zip_entry list option \<Rightarrow>
     bundle_error + update_manifest \<times> (string \<times> zip_entry) list" where
  "openAndValidateBundle sha256 decode archive =
     (case archive of
        None \<Rightarrow> Inl NotAnArchive
      | Some es \<Rightarrow>
          (case collect_entries es [] of
             None \<Rightarrow> Inl UnexpectedEntry
           | Some entries \<Rightarrow>
               if length entries \<noteq> length bundle_names then Inl Incomplete
               else
                 (case map_of entries ''manifest.json'' of
                    None \<Rightarrow> Inl Incomplete
                  | Some me \<Rightarrow>
                      if 64 * 2 ^ 10 < ze_size me then Inl ManifestTooLarge
                      else
                        (case Option.bind (ze_data me) (\<lambda>d. decode (take (64 * 2 ^ 10) d)) of
                           None \<Rightarrow> Inl InvalidManifest
                         | Some m \<Rightarrow>
                             if mf_format m \<noteq> 1 \<or> mf_architecture m \<noteq> ''x86_64''
                                \<or> \<not> version_matches (mf_version m) then Inl Unsupported
                             else if length (mf_files m) \<noteq> length payload_limits then Inl InvalidFileList
                             else if \<not> list_all (payload_ok sha256 m entries) payload_limits then
                               Inl InvalidPayload
                             else
                               (case Option.bind (map_of entries ''root.squashfs'') ze_data of
                                  None \<Rightarrow> Inl NoSquashFS
                                | Some root \<Rightarrow>
                                    if take 4 root \<noteq> ''hsqs'' then Inl NoSquashFS else Inr (m, entries))))))"

definition entry_data :: "(string \<times> zip_entry) list \<Rightarrow> string \<Rightarrow> string" where
  \<comment> \<open>what a verified entry unpacks to\<close>
  "entry_data entries name =
     (case Option.bind (map_of entries name) ze_data of None \<Rightarrow> [] | Some d \<Rightarrow> d)"

section \<open>The flash\<close>

record update_state =
  us_version :: string
  us_target :: string
  us_source :: string
  us_installed_at :: string
  us_slots :: "(string \<times> string) list"

definition blank_state :: update_state where
  "blank_state = \<lparr>us_version = [], us_target = [], us_source = [], us_installed_at = [], us_slots = []\<rparr>"

text \<open>
  The root partitions, the files of the boot partition (the payload of a slot by slot and name,
  \<open>active-slot.cfg\<close>, \<open>grubenv\<close>), \<open>state.json\<close> where it can be read, and what is running.
\<close>

record flash =
  fl_root :: "string \<Rightarrow> string"
  fl_boot :: "string \<times> string \<Rightarrow> string option"
  fl_active :: "string option"
  fl_env :: "string option"
  fl_state :: "update_state option"
  fl_cmdline :: string
  fl_version :: string

datatype effect =
    WriteRoot string string
  | PutBoot string string string
  | PutState update_state
  | PutActive string
  | PutEnv string

fun apply_effect :: "effect \<Rightarrow> flash \<Rightarrow> flash" where
  \<comment> \<open>a root slot is a partition: what is longer than the image stays behind it\<close>
  "apply_effect (WriteRoot s img) f =
     f\<lparr>fl_root := (fl_root f)(s := img @ drop (length img) (fl_root f s))\<rparr>"
| "apply_effect (PutBoot s name data) f = f\<lparr>fl_boot := (fl_boot f)((s, name) := Some data)\<rparr>"
| "apply_effect (PutState st) f = f\<lparr>fl_state := Some st\<rparr>"
| "apply_effect (PutActive text) f = f\<lparr>fl_active := Some text\<rparr>"
| "apply_effect (PutEnv block) f = f\<lparr>fl_env := Some block\<rparr>"

text \<open>
  An effect that does not complete: a partition holds whatever had been written by then; a file
  is replaced by a rename of a synced copy, so it is still the old one.
\<close>

fun spoil_effect :: "string \<Rightarrow> effect \<Rightarrow> flash \<Rightarrow> flash" where
  "spoil_effect junk (WriteRoot s img) f = f\<lparr>fl_root := (fl_root f)(s := junk)\<rparr>"
| "spoil_effect junk _ f = f"

definition perform :: "effect list \<Rightarrow> flash \<Rightarrow> flash" where
  "perform es f = fold apply_effect es f"

definition interrupted_at :: "nat \<Rightarrow> string \<Rightarrow> effect list \<Rightarrow> flash \<Rightarrow> flash" where
  "interrupted_at n junk es f =
     (let f1 = perform (take n es) f
      in case drop n es of [] \<Rightarrow> f1 | e # _ \<Rightarrow> spoil_effect junk e f1)"

section \<open>Slots and state\<close>

definition otherSlot :: "string \<Rightarrow> string" where
  "otherSlot s = (if s = ''b'' then ''a'' else ''b'')"

definition CurrentSlot :: "flash \<Rightarrow> string" where
  "CurrentSlot f = (if ''laserbridge.slot=b'' \<in> set (string_fields (fl_cmdline f)) then ''b'' else ''a'')"

definition readState :: "flash \<Rightarrow> update_state" where
  "readState f = (case fl_state f of None \<Rightarrow> blank_state | Some st \<Rightarrow> st)"

definition running_version :: "flash \<Rightarrow> string" where
  "running_version f = trim_space (fl_version f)"

definition note_slot :: "string \<times> string \<Rightarrow> (string \<times> string) list \<Rightarrow> (string \<times> string) list" where
  "note_slot sv slots =
     (if snd sv = [] then slots else sv # filter (\<lambda>p. fst p \<noteq> fst sv) slots)"

definition slotsWith :: "(string \<times> string) list \<Rightarrow> flash \<Rightarrow> (string \<times> string) list" where
  "slotsWith known f = fold note_slot known (us_slots (readState f))"

definition slot_version :: "update_state \<Rightarrow> string \<Rightarrow> string" where
  "slot_version st s = (case map_of (us_slots st) s of None \<Rightarrow> [] | Some v \<Rightarrow> v)"

definition active_line :: "string \<Rightarrow> string" where
  "active_line s = ''set laserbridge_slot='' @ s @ [CHR 0x0A]"

definition rollbackVersion :: string where "rollbackVersion = ''previous-slot''"

record update_status =
  up_current :: string
  up_previous :: string
  up_current_version :: string
  up_previous_version :: string
  up_staged_version :: string
  up_staged_slot :: string
  up_reboot_required :: bool

definition update_Status :: "flash \<Rightarrow> update_status" where
  "update_Status f =
     (let current = CurrentSlot f; previous = otherSlot current; st = readState f;
          base = \<lparr>up_current = current, up_previous = previous, up_current_version = running_version f,
                  up_previous_version = slot_version st previous, up_staged_version = [],
                  up_staged_slot = [], up_reboot_required = False\<rparr>
      in if us_target st \<noteq> [] \<and> us_target st \<noteq> current then
           base\<lparr>up_reboot_required := True, up_staged_slot := us_target st,
                up_staged_version :=
                  (if us_version st = rollbackVersion \<and> slot_version st (us_target st) \<noteq> []
                   then slot_version st (us_target st) else us_version st)\<rparr>
         else base)"

section \<open>Install\<close>

definition install_effects ::
    "update_manifest \<Rightarrow> (string \<times> zip_entry) list \<Rightarrow> string \<Rightarrow> flash \<Rightarrow> effect list" where
  "install_effects m entries now f =
     (let current = CurrentSlot f; target = otherSlot current;
          st = \<lparr>us_version = mf_version m, us_target = target, us_source = current,
                us_installed_at = now,
                us_slots = slotsWith [(target, mf_version m), (current, running_version f)] f\<rparr>
      in [WriteRoot target (entry_data entries ''root.squashfs''),
          PutBoot target ''vmlinuz-lts'' (entry_data entries ''vmlinuz-lts''),
          PutBoot target ''initramfs-lts'' (entry_data entries ''initramfs-lts''),
          PutState st,
          PutActive (active_line target)])"

definition MaxBundleSize :: nat where "MaxBundleSize = 300 * 2 ^ 20"
definition MaxSignatureSize :: nat where "MaxSignatureSize = 128 * 2 ^ 10"

definition withinSize :: "nat \<Rightarrow> nat \<Rightarrow> bool" where
  "withinSize n limit \<longleftrightarrow> 1 \<le> n \<and> n \<le> limit"

datatype update_error =
    BadSize | BadSignature | BadBundle bundle_error | NoTargets | NoPayload | Interrupted

text \<open>
  \<open>Install\<close>: the sizes of the two files, whether the signature verifies, the archive, whether the
  boot partition was found, and - where something fails on the way - after how many effects.
\<close>

record install_request =
  ir_bundle_size :: nat
  ir_signature_size :: "nat option"
  ir_signature_ok :: bool
  ir_archive :: "zip_entry list option"
  ir_targets_found :: bool
  ir_fault :: "(nat \<times> string) option"

definition carry_through :: "(nat \<times> string) option \<Rightarrow> effect list \<Rightarrow> flash \<Rightarrow> flash \<times> bool" where
  "carry_through fault es f =
     (case fault of
        None \<Rightarrow> (perform es f, True)
      | Some (n, junk) \<Rightarrow>
          if n < length es then (interrupted_at n junk es f, False) else (perform es f, True))"

definition Install ::
    "(string \<Rightarrow> string) \<Rightarrow> (string \<Rightarrow> update_manifest option) \<Rightarrow> install_request \<Rightarrow> string \<Rightarrow> flash \<Rightarrow>
     flash \<times> update_error option" where
  "Install sha256 decode ir now f =
     (if \<not> withinSize (ir_bundle_size ir) MaxBundleSize then (f, Some BadSize)
      else if (case ir_signature_size ir of
                 None \<Rightarrow> False | Some n \<Rightarrow> \<not> withinSize n MaxSignatureSize) then (f, Some BadSize)
      else if ir_signature_size ir \<noteq> None \<and> \<not> ir_signature_ok ir then (f, Some BadSignature)
      else
        (case openAndValidateBundle sha256 decode (ir_archive ir) of
           Inl e \<Rightarrow> (f, Some (BadBundle e))
         | Inr (m, entries) \<Rightarrow>
             if \<not> ir_targets_found ir then (f, Some NoTargets)
             else
               (case carry_through (ir_fault ir) (install_effects m entries now f) f of
                  (f', True) \<Rightarrow> (f', None)
                | (f', False) \<Rightarrow> (f', Some Interrupted))))"

section \<open>Rolling back\<close>

definition rollback_effects :: "string \<Rightarrow> flash \<Rightarrow> effect list" where
  "rollback_effects now f =
     (let current = CurrentSlot f; target = otherSlot current;
          st = \<lparr>us_version = rollbackVersion, us_target = target, us_source = current,
                us_installed_at = now, us_slots = slotsWith [(current, running_version f)] f\<rparr>
      in [PutState st, PutActive (active_line target)])"

definition StageRollback :: "bool \<Rightarrow> (nat \<times> string) option \<Rightarrow> string \<Rightarrow> flash \<Rightarrow> flash \<times> (update_error + string)" where
  "StageRollback found fault now f =
     (let target = otherSlot (CurrentSlot f)
      in if \<not> found then (f, Inl NoTargets)
         else if fl_boot f (target, ''vmlinuz-lts'') = None then (f, Inl NoPayload)
         else (case carry_through fault (rollback_effects now f) f of
                 (f', True) \<Rightarrow> (f', Inr target)
               | (f', False) \<Rightarrow> (f', Inl Interrupted)))"

section \<open>Confirming a boot\<close>

definition grubEnvironmentSize :: nat where "grubEnvironmentSize = 1024"

definition grub_header :: string where
  "grub_header = ''# GRUB Environment Block'' @ [CHR 0x0A]
     @ ''# WARNING: Do not edit this file by tools other than grub-editenv!!!'' @ [CHR 0x0A]"

definition grub_entry :: "string \<times> string \<Rightarrow> string" where
  "grub_entry p = fst p @ ''='' @ snd p @ [CHR 0x0A]"

text \<open>\<open>writeGrubEnvironment\<close>: the block for these variables, which come sorted by name.\<close>

definition grub_block :: "(string \<times> string) list \<Rightarrow> string option" where
  "grub_block vs =
     (if list_ex (\<lambda>p. contains_any (fst p) [CHR 0x0A, CHR ''=''] \<or> CHR 0x0A \<in> set (snd p)) vs then None
      else
        (let content = grub_header @ concat (map grub_entry vs)
         in if grubEnvironmentSize < length content then None
            else Some (content @ replicate (grubEnvironmentSize - length content) (CHR ''#''))))"

definition boot_variables :: "string \<Rightarrow> string \<Rightarrow> (string \<times> string) list" where
  "boot_variables override try = [(''laserbridge_override'', override), (''laserbridge_try'', try)]"

definition confirm_effects :: "flash \<Rightarrow> effect list" where
  "confirm_effects f =
     (let current = CurrentSlot f; st = readState f;
          slots = slotsWith [(current, running_version f)] f;
          recorded = (case fl_active f of None \<Rightarrow> [] | Some text \<Rightarrow> trim_space text)
      in (case grub_block (boot_variables [] ''0'') of None \<Rightarrow> [] | Some block \<Rightarrow> [PutEnv block])
         @ (if recorded = ''set laserbridge_slot='' @ current then [PutState (st\<lparr>us_slots := slots\<rparr>)]
            else [PutActive (active_line current), PutState (blank_state\<lparr>us_slots := slots\<rparr>)]))"

definition ConfirmBoot :: "bool \<Rightarrow> (nat \<times> string) option \<Rightarrow> flash \<Rightarrow> flash \<times> update_error option" where
  "ConfirmBoot found fault f =
     (if \<not> found then (f, Some NoTargets)
      else (case carry_through fault (confirm_effects f) f of
              (f', True) \<Rightarrow> (f', None)
            | (f', False) \<Rightarrow> (f', Some Interrupted)))"

section \<open>The boot loader\<close>

text \<open>
  \<open>grub.cfg\<close>: \<open>source\<close> runs the one line of \<open>active-slot.cfg\<close>, \<open>load_env\<close> reads the two variables of
  the environment block, \<open>save_env\<close> writes them back.
\<close>

definition sourced_slot :: "flash \<Rightarrow> string" where
  "sourced_slot f =
     (case fl_active f of
        None \<Rightarrow> ''a''
      | Some text \<Rightarrow>
          (let p = ''set laserbridge_slot='' in if has_prefix text p then trim_space (trim_prefix text p) else ''a''))"

definition env_value :: "string \<Rightarrow> flash \<Rightarrow> string" where
  "env_value name f =
     (case fl_env f of
        None \<Rightarrow> []
      | Some block \<Rightarrow>
          (case filter (\<lambda>l. has_prefix l (name @ ''='')) (split_string block (CHR 0x0A)) of
             [] \<Rightarrow> []
           | l # _ \<Rightarrow> trim_prefix l (name @ ''='')))"

definition saved_env :: "string \<Rightarrow> string \<Rightarrow> flash \<Rightarrow> flash" where
  "saved_env override try f = f\<lparr>fl_env := grub_block (boot_variables override try)\<rparr>"

definition grub_boot :: "flash \<Rightarrow> string \<times> flash" where
  \<comment> \<open>the slot that is booted, and what the boot leaves in the environment\<close>
  "grub_boot f =
     (let try = env_value ''laserbridge_try'' f; override = env_value ''laserbridge_override'' f;
          slot = (if override = ''a'' \<or> override = ''b'' then override else sourced_slot f)
      in if try = ''2'' then
           (let other = otherSlot slot in (other, saved_env other ''0'' f))
         else if try = ''1'' then (slot, saved_env override ''2'' f)
         else (slot, saved_env override ''1'' f))"

text \<open>What a boot makes of the appliance: the slot on the command line and its version.\<close>

definition cmdline_for :: "string \<Rightarrow> string" where
  "cmdline_for s = ''root=LASERBRIDGE_ROOT laserbridge.slot='' @ s @ '' ro''"

definition boots :: "(string \<Rightarrow> string) \<Rightarrow> flash \<Rightarrow> flash" where
  "boots versions f =
     (case grub_boot f of
        (s, f1) \<Rightarrow> f1\<lparr>fl_cmdline := cmdline_for s, fl_version := versions s\<rparr>)"

end
