(* ===== verification/Update_Facts.thy ===== *)
theory Update_Facts
  imports Update
begin

text \<open>
  What holds of updates: nothing unverified is written, an installation changes the slot that
  is booted as its very last act, and an update that never confirms is undone.
\<close>

section \<open>Accepted bundles\<close>

lemma payload_ok_data:
  assumes "payload_ok sha256 m entries (name, limit)"
  shows "\<exists>spec. map_of (mf_files m) name = Some spec
    \<and> hex_text (sha256 (entry_data entries name)) = fs_sha256 spec
    \<and> int (length (entry_data entries name)) = fs_size spec \<and> fs_size spec \<le> limit"
  using assms
  by (auto simp: payload_ok_def verifyZipEntry_def entry_data_def split: option.splits)

lemma accepted_bundle:
  assumes "openAndValidateBundle sha256 decode archive = Inr (m, entries)"
  shows "mf_format m = 1 \<and> mf_architecture m = ''x86_64'' \<and> version_matches (mf_version m)
    \<and> list_all (payload_ok sha256 m entries) payload_limits
    \<and> take 4 (entry_data entries ''root.squashfs'') = ''hsqs''"
  using assms
  by (auto simp: openAndValidateBundle_def entry_data_def split: option.splits if_splits)

definition authorised :: "install_request \<Rightarrow> bool" where
  "authorised ir \<longleftrightarrow> ir_signature_size ir = None \<or> ir_signature_ok ir"

lemma Install_cases:
  "fst (Install sha256 decode ir now f) = f \<and> snd (Install sha256 decode ir now f) \<noteq> None
   \<or> (\<exists>m entries. openAndValidateBundle sha256 decode (ir_archive ir) = Inr (m, entries) \<and> authorised ir
        \<and> Install sha256 decode ir now f =
            (case carry_through (ir_fault ir) (install_effects m entries now f) f of
               (f', ok) \<Rightarrow> (f', if ok then None else Some Interrupted)))"
proof -
  let ?sizes = "withinSize (ir_bundle_size ir) MaxBundleSize
    \<and> \<not> (case ir_signature_size ir of None \<Rightarrow> False | Some n \<Rightarrow> \<not> withinSize n MaxSignatureSize)"
  show ?thesis
  proof (cases "?sizes \<and> authorised ir \<and> ir_targets_found ir")
    case True
    then show ?thesis
      by (cases "openAndValidateBundle sha256 decode (ir_archive ir)";
          cases "snd (carry_through (ir_fault ir) (install_effects m entries now f) f)")
        (auto simp: Install_def authorised_def split: prod.splits bool.splits)
  next
    case False
    then show ?thesis
      by (auto simp: Install_def authorised_def split: sum.splits)
  qed
qed

text \<open>
  C11: no byte of a bundle reaches the flash before it is verified. If an installation changes
  anything at all, the update was authorised, the manifest is one this appliance can run, and
  every payload has the size and the SHA-256 the manifest names and fits into its place.
\<close>

theorem nothing_unverified_is_written:
  assumes "fst (Install sha256 decode ir now f) \<noteq> f"
  shows "authorised ir \<and> (\<exists>m entries.
    openAndValidateBundle sha256 decode (ir_archive ir) = Inr (m, entries)
    \<and> mf_format m = 1 \<and> mf_architecture m = ''x86_64''
    \<and> (\<forall>(name, limit) \<in> set payload_limits. \<exists>spec. map_of (mf_files m) name = Some spec
         \<and> hex_text (sha256 (entry_data entries name)) = fs_sha256 spec
         \<and> int (length (entry_data entries name)) = fs_size spec \<and> fs_size spec \<le> limit)
    \<and> take 4 (entry_data entries ''root.squashfs'') = ''hsqs'')"
proof -
  obtain m entries where "openAndValidateBundle sha256 decode (ir_archive ir) = Inr (m, entries)" "authorised ir"
    using assms Install_cases [of sha256 decode ir now f] by blast
  with accepted_bundle [OF this(1)] payload_ok_data show ?thesis
    unfolding list_all_iff by blast
qed

section \<open>An installation is all or nothing\<close>

lemma CurrentSlot_ab: "CurrentSlot f = ''a'' \<or> CurrentSlot f = ''b''"
  by (simp add: CurrentSlot_def)

lemma otherSlot_neq: "otherSlot s \<noteq> s"
  by (simp add: otherSlot_def)

lemma take_Suc_cases: "n < 5 \<Longrightarrow> n = 0 \<or> n = 1 \<or> n = 2 \<or> n = 3 \<or> n = (4 :: nat)"
  by linarith

lemma interrupted_install:
  assumes "n < length (install_effects m entries now f)"
  shows "fl_active (interrupted_at n junk (install_effects m entries now f) f) = fl_active f"
    and "fl_env (interrupted_at n junk (install_effects m entries now f) f) = fl_env f"
    and "s \<noteq> otherSlot (CurrentSlot f) \<Longrightarrow>
      fl_root (interrupted_at n junk (install_effects m entries now f) f) s = fl_root f s
      \<and> fl_boot (interrupted_at n junk (install_effects m entries now f) f) (s, name) = fl_boot f (s, name)"
proof -
  have "n < 5" using assms by (simp add: install_effects_def Let_def)
  then have n: "n = 0 \<or> n = 1 \<or> n = 2 \<or> n = 3 \<or> n = 4" by (rule take_Suc_cases)
  show "fl_active (interrupted_at n junk (install_effects m entries now f) f) = fl_active f"
    "fl_env (interrupted_at n junk (install_effects m entries now f) f) = fl_env f"
    using n by (auto simp: install_effects_def interrupted_at_def perform_def Let_def)
  show "fl_root (interrupted_at n junk (install_effects m entries now f) f) s = fl_root f s
      \<and> fl_boot (interrupted_at n junk (install_effects m entries now f) f) (s, name) = fl_boot f (s, name)"
    if "s \<noteq> otherSlot (CurrentSlot f)"
    using n that by (auto simp: install_effects_def interrupted_at_def perform_def Let_def)
qed

lemma complete_install:
  fixes m entries now f
  defines "f' \<equiv> perform (install_effects m entries now f) f"
  shows "fl_active f' = Some (active_line (otherSlot (CurrentSlot f)))" and "fl_env f' = fl_env f"
    and "prefix (entry_data entries ''root.squashfs'') (fl_root f' (otherSlot (CurrentSlot f)))"
    and "fl_boot f' (otherSlot (CurrentSlot f), ''vmlinuz-lts'') = Some (entry_data entries ''vmlinuz-lts'')"
    and "fl_boot f' (otherSlot (CurrentSlot f), ''initramfs-lts'') = Some (entry_data entries ''initramfs-lts'')"
    and "s \<noteq> otherSlot (CurrentSlot f) \<Longrightarrow>
      fl_root f' s = fl_root f s \<and> fl_boot f' (s, name) = fl_boot f (s, name)"
    and "us_target (readState f') = otherSlot (CurrentSlot f)"
    and "fl_cmdline f' = fl_cmdline f"
  by (auto simp: f'_def install_effects_def perform_def Let_def readState_def)


section \<open>The boot loader's environment\<close>

lemma grub_block_length: "grub_block vs = Some block \<Longrightarrow> length block = grubEnvironmentSize"
  by (auto simp: grub_block_def Let_def split: if_splits)

definition plain_text :: "string \<Rightarrow> bool" where
  "plain_text s \<longleftrightarrow> CHR 0x0A \<notin> set s \<and> length s \<le> 100"

definition env_content :: "string \<Rightarrow> string \<Rightarrow> string" where
  "env_content over tries = grub_header @ concat (map grub_entry (boot_variables over tries))"

lemma grub_block_boot:
  assumes "plain_text over" and "plain_text tries"
  shows "grub_block (boot_variables over tries) =
    Some (env_content over tries @ replicate (grubEnvironmentSize - length (env_content over tries)) (CHR ''#''))"
proof -
  have "length (env_content over tries) \<le> grubEnvironmentSize"
    using assms
    by (simp add: env_content_def grub_header_def grub_entry_def boot_variables_def plain_text_def
        grubEnvironmentSize_def)
  with assms show ?thesis
    by (simp add: grub_block_def env_content_def [symmetric] Let_def)
      (simp add: boot_variables_def contains_any_def plain_text_def)
qed

lemma env_lines:
  assumes "plain_text over" and "plain_text tries"
  shows "split_string (env_content over tries @ replicate k (CHR ''#'')) (CHR 0x0A) =
    [''# GRUB Environment Block'', ''# WARNING: Do not edit this file by tools other than grub-editenv!!!'',
     ''laserbridge_override='' @ over, ''laserbridge_try='' @ tries, replicate k (CHR ''#'')]"
proof -
  have pad: "split_string (replicate k (CHR ''#'')) (CHR 0x0A) = [replicate k (CHR ''#'')]"
    by (rule split_no_sep) (simp add: in_set_replicate)
  have split: "split_string (l @ CHR 0x0A # t) (CHR 0x0A) = l # split_string t (CHR 0x0A)"
    if "CHR 0x0A \<notin> set l" for l t
    using that by (rule split_append)
  have "env_content over tries @ replicate k (CHR ''#'') =
    ''# GRUB Environment Block'' @ CHR 0x0A #
    ''# WARNING: Do not edit this file by tools other than grub-editenv!!!'' @ CHR 0x0A #
    (''laserbridge_override='' @ over) @ CHR 0x0A #
    (''laserbridge_try='' @ tries) @ CHR 0x0A # replicate k (CHR ''#'')"
    by (simp add: env_content_def grub_header_def grub_entry_def boot_variables_def)
  with assms show ?thesis
    by (simp only: split) (subst split; simp add: plain_text_def split pad)+
qed

lemma env_value_saved:
  assumes "plain_text over" and "plain_text tries"
    and "fl_env f = grub_block (boot_variables over tries)"
  shows "env_value ''laserbridge_try'' f = tries" and "env_value ''laserbridge_override'' f = over"
proof -
  have pad: "\<not> has_prefix (replicate k (CHR ''#'')) (CHR ''l'' # s)" for k s
    by (cases k) (simp_all add: has_prefix_def)
  show "env_value ''laserbridge_try'' f = tries" "env_value ''laserbridge_override'' f = over"
    using assms(3) grub_block_boot [OF assms(1,2)] pad
    by (simp_all add: env_value_def env_lines [OF assms(1,2)] has_prefix_def trim_prefix_def)
qed

section \<open>Booting\<close>

lemma CurrentSlot_cmdline: "s = ''a'' \<or> s = ''b'' \<Longrightarrow> fl_cmdline f = cmdline_for s \<Longrightarrow> CurrentSlot f = s"
proof -
  have "''laserbridge.slot=b'' \<notin> set (string_fields (cmdline_for ''a''))"
    "''laserbridge.slot=b'' \<in> set (string_fields (cmdline_for ''b''))"
    by code_simp+
  then show "s = ''a'' \<or> s = ''b'' \<Longrightarrow> fl_cmdline f = cmdline_for s \<Longrightarrow> ?thesis"
    by (auto simp: CurrentSlot_def)
qed

lemma active_line_read: "s = ''a'' \<or> s = ''b'' \<Longrightarrow> trim_space (active_line s) = ''set laserbridge_slot='' @ s"
proof -
  have "trim_space (active_line ''a'') = ''set laserbridge_slot=a''"
    "trim_space (active_line ''b'') = ''set laserbridge_slot=b''"
    by code_simp+
  then show "s = ''a'' \<or> s = ''b'' \<Longrightarrow> ?thesis" by auto
qed

lemma sourced_active: "s = ''a'' \<or> s = ''b'' \<Longrightarrow> fl_active f = Some (active_line s) \<Longrightarrow> sourced_slot f = s"
proof -
  have "trim_space (''a'' @ [CHR 0x0A]) = ''a''" "trim_space (''b'' @ [CHR 0x0A]) = ''b''" by code_simp+
  then show "s = ''a'' \<or> s = ''b'' \<Longrightarrow> fl_active f = Some (active_line s) \<Longrightarrow> ?thesis"
    by (auto simp: sourced_slot_def active_line_def has_prefix_def trim_prefix_def)
qed

definition loader_state :: "string \<Rightarrow> string \<Rightarrow> flash \<Rightarrow> bool" where
  "loader_state over tries f \<longleftrightarrow> fl_env f = grub_block (boot_variables over tries)"

lemma loader_values:
  assumes "loader_state over tries f" and "over \<in> {[], ''a'', ''b''}" and "tries \<in> {''0'', ''1'', ''2''}"
  shows "env_value ''laserbridge_try'' f = tries" and "env_value ''laserbridge_override'' f = over"
proof -
  have "plain_text over" "plain_text tries" using assms(2,3) by (auto simp: plain_text_def)
  with assms(1) show "env_value ''laserbridge_try'' f = tries" "env_value ''laserbridge_override'' f = over"
    using env_value_saved [of over tries f] by (simp_all add: loader_state_def)
qed

text \<open>Two attempts at the recorded slot, then the other one.\<close>

lemma boots_step:
  assumes "loader_state [] tries f" and "tries \<in> {''0'', ''1'', ''2''}"
    and "fl_active f = Some (active_line s)" and "s = ''a'' \<or> s = ''b''"
  shows "CurrentSlot (boots v f) = (if tries = ''2'' then otherSlot s else s)"
    and "loader_state (if tries = ''2'' then otherSlot s else [])
      (if tries = ''2'' then ''0'' else if tries = ''1'' then ''2'' else ''1'') (boots v f)"
    and "fl_active (boots v f) = fl_active f" and "fl_state (boots v f) = fl_state f"
    and "fl_root (boots v f) = fl_root f" and "fl_boot (boots v f) = fl_boot f"
proof -
  have env: "env_value ''laserbridge_try'' f = tries" "env_value ''laserbridge_override'' f = []"
    using loader_values [OF assms(1) _ assms(2)] by simp_all
  let ?s = "if tries = ''2'' then otherSlot s else s"
  have s: "sourced_slot f = s" by (rule sourced_active [OF assms(4,3)])
  have "?s = ''a'' \<or> ?s = ''b''" using assms(4) by (simp add: otherSlot_def)
  moreover have "fl_cmdline (boots v f) = cmdline_for ?s"
    using s env by (simp add: boots_def grub_boot_def Let_def)
  ultimately show "CurrentSlot (boots v f) = ?s" by (rule CurrentSlot_cmdline)
  show "loader_state (if tries = ''2'' then otherSlot s else [])
      (if tries = ''2'' then ''0'' else if tries = ''1'' then ''2'' else ''1'') (boots v f)"
    "fl_active (boots v f) = fl_active f" "fl_state (boots v f) = fl_state f"
    "fl_root (boots v f) = fl_root f" "fl_boot (boots v f) = fl_boot f"
    using s env by (simp_all add: boots_def grub_boot_def Let_def saved_env_def loader_state_def)
qed

lemma confirm_recovered:
  assumes "fl_active f = Some (active_line (otherSlot (CurrentSlot f)))"
  defines "f' \<equiv> fst (ConfirmBoot True None f)"
  shows "snd (ConfirmBoot True None f) = None" and "fl_active f' = Some (active_line (CurrentSlot f))"
    and "loader_state [] ''0'' f'" and "\<not> up_reboot_required (update_Status f')"
    and "fl_root f' = fl_root f" and "fl_boot f' = fl_boot f"
proof -
  have "otherSlot (CurrentSlot f) = ''a'' \<or> otherSlot (CurrentSlot f) = ''b''" by (simp add: otherSlot_def)
  then have "trim_space (active_line (otherSlot (CurrentSlot f))) = ''set laserbridge_slot='' @ otherSlot (CurrentSlot f)"
    by (rule active_line_read)
  moreover have "otherSlot (CurrentSlot f) \<noteq> CurrentSlot f" by (rule otherSlot_neq)
  moreover have "\<exists>block. grub_block (boot_variables [] ''0'') = Some block"
    using grub_block_boot [of "[]" "''0''"] by (simp add: plain_text_def)
  ultimately show "snd (ConfirmBoot True None f) = None" "fl_active f' = Some (active_line (CurrentSlot f))"
    "loader_state [] ''0'' f'" "\<not> up_reboot_required (update_Status f')"
    "fl_root f' = fl_root f" "fl_boot f' = fl_boot f"
    using assms(1)
    by (auto simp: f'_def ConfirmBoot_def carry_through_def confirm_effects_def perform_def Let_def
        loader_state_def update_Status_def readState_def blank_state_def)
qed


section \<open>A concrete update\<close>

definition demo_sha256 :: "string \<Rightarrow> string" where "demo_sha256 _ = replicate 32 (CHR 0x00)"

definition demo_spec :: "string \<Rightarrow> file_spec" where
  "demo_spec data = \<lparr>fs_sha256 = replicate 64 (CHR ''0''), fs_size = int (length data)\<rparr>"

definition demo_manifest :: update_manifest where
  "demo_manifest =
     \<lparr>mf_format = 1, mf_architecture = ''x86_64'', mf_version = ''2.0'',
      mf_files = [(''root.squashfs'', demo_spec ''hsqs-new''), (''vmlinuz-lts'', demo_spec ''kernel''),
                  (''initramfs-lts'', demo_spec ''initrd'')]\<rparr>"

definition demo_entry :: "string \<Rightarrow> string \<Rightarrow> zip_entry" where
  "demo_entry name data = \<lparr>ze_name = name, ze_dir = False, ze_size = length data, ze_data = Some data\<rparr>"

definition demo_request :: install_request where
  "demo_request =
     \<lparr>ir_bundle_size = 100, ir_signature_size = None, ir_signature_ok = False,
      ir_archive = Some [demo_entry ''manifest.json'' ''{}'', demo_entry ''root.squashfs'' ''hsqs-new'',
                         demo_entry ''vmlinuz-lts'' ''kernel'', demo_entry ''initramfs-lts'' ''initrd''],
      ir_targets_found = True, ir_fault = None\<rparr>"

definition demo_flash :: flash where
  "demo_flash =
     \<lparr>fl_root = (\<lambda>_. ''hsqs-old''), fl_boot = (\<lambda>_. Some ''old''), fl_active = Some (active_line ''a''),
      fl_env = grub_block (boot_variables [] ''0''), fl_state = None, fl_cmdline = cmdline_for ''a'',
      fl_version = ''1.0''\<rparr>"

abbreviation demo_install :: "install_request \<Rightarrow> flash \<Rightarrow> flash \<times> update_error option" where
  "demo_install \<equiv> \<lambda>ir f. Install demo_sha256 (\<lambda>_. Some demo_manifest) ir ''2026-01-01'' f"

definition demo_entries :: "(string \<times> zip_entry) list" where
  "demo_entries =
     [(''initramfs-lts'', demo_entry ''initramfs-lts'' ''initrd''),
      (''vmlinuz-lts'', demo_entry ''vmlinuz-lts'' ''kernel''),
      (''root.squashfs'', demo_entry ''root.squashfs'' ''hsqs-new''),
      (''manifest.json'', demo_entry ''manifest.json'' ''{}'')]"

lemma demo_collected: "the (ir_archive demo_request) = rev (map snd demo_entries)"
    "collect_entries (rev (map snd demo_entries)) [] = Some demo_entries"
  by code_simp+

lemma demo_digest: "hex_text (demo_sha256 data) = replicate 64 (CHR ''0'')"
proof -
  have "hex_text (replicate 32 (CHR 0x00)) = replicate 64 (CHR ''0'')" by code_simp
  then show ?thesis by (simp add: demo_sha256_def)
qed

lemma demo_matches: "digest_matches (replicate 64 (CHR ''0''))" "version_matches ''2.0''"
  by code_simp+

lemma demo_payload: "list_all (payload_ok demo_sha256 demo_manifest demo_entries) payload_limits"
  by (simp add: payload_limits_def payload_ok_def demo_manifest_def demo_entries_def demo_entry_def
      demo_spec_def demo_matches verifyZipEntry_def demo_digest rootSlotSize_def)

lemma demo_opened:
  "openAndValidateBundle demo_sha256 (\<lambda>_. Some demo_manifest) (ir_archive demo_request) =
     Inr (demo_manifest, demo_entries)"
proof -
  have "ir_archive demo_request = Some (rev (map snd demo_entries))"
    using demo_collected(1) by (simp add: demo_request_def)
  moreover have "length demo_entries = length bundle_names" by (simp add: demo_entries_def bundle_names_def)
  moreover have "mf_format demo_manifest = 1 \<and> mf_architecture demo_manifest = ''x86_64''
      \<and> mf_version demo_manifest = ''2.0'' \<and> length (mf_files demo_manifest) = length payload_limits"
    by (simp add: demo_manifest_def payload_limits_def)
  moreover have "map_of demo_entries ''manifest.json'' = Some (demo_entry ''manifest.json'' ''{}'')"
    "Option.bind (map_of demo_entries ''root.squashfs'') ze_data = Some ''hsqs-new''"
    by (simp_all add: demo_entries_def demo_entry_def)
  ultimately show ?thesis
    using demo_payload by (simp add: openAndValidateBundle_def demo_collected demo_matches)
      (simp add: demo_entry_def demo_matches)
qed

lemma demo_install_runs:
  "demo_install (demo_request\<lparr>ir_fault := x\<rparr>) f =
     (case carry_through x (install_effects demo_manifest demo_entries ''2026-01-01'' f) f of
        (f', ok) \<Rightarrow> (f', if ok then None else Some Interrupted))"
proof -
  have "ir_archive (demo_request\<lparr>ir_fault := x\<rparr>) = ir_archive demo_request" by simp
  moreover have "ir_bundle_size (demo_request\<lparr>ir_fault := x\<rparr>) = 100"
    "ir_signature_size (demo_request\<lparr>ir_fault := x\<rparr>) = None" "ir_targets_found (demo_request\<lparr>ir_fault := x\<rparr>)"
    by (simp_all add: demo_request_def)
  ultimately show ?thesis
    using demo_opened
    by (simp add: Install_def withinSize_def MaxBundleSize_def split: prod.split)
qed

lemma demo_install_complete:
  "demo_install demo_request f =
     (perform (install_effects demo_manifest demo_entries ''2026-01-01'' f) f, None)"
  using demo_install_runs [of None f] by (simp add: demo_request_def carry_through_def)

lemma demo_slots: "CurrentSlot demo_flash = ''a''" "otherSlot ''a'' = ''b''"
  using CurrentSlot_cmdline [of "''a''" demo_flash] by (simp_all add: demo_flash_def otherSlot_def)

lemma demo_installed:
  "snd (demo_install demo_request demo_flash) = None"
  "fl_active (fst (demo_install demo_request demo_flash)) = Some (active_line ''b'')"
  "CurrentSlot (fst (demo_install demo_request demo_flash)) = ''a''"
proof -
  have "CurrentSlot (perform (install_effects demo_manifest demo_entries now demo_flash) demo_flash) = ''a''" for now
    using demo_slots(1) by (simp add: CurrentSlot_def complete_install(8))
  then show "snd (demo_install demo_request demo_flash) = None"
    "fl_active (fst (demo_install demo_request demo_flash)) = Some (active_line ''b'')"
    "CurrentSlot (fst (demo_install demo_request demo_flash)) = ''a''"
    by (simp_all add: demo_install_complete demo_slots complete_install(1))
qed

lemma demo_loader: "loader_state [] ''0'' demo_flash"
  by (simp add: loader_state_def demo_flash_def)

theorem nothing_unverified_is_written_witness: "authorised demo_request"
proof -
  have "fl_active demo_flash \<noteq> Some (active_line ''b'')" by (simp add: demo_flash_def active_line_def)
  then have "fst (demo_install demo_request demo_flash) \<noteq> demo_flash" using demo_installed(2) by metis
  then show ?thesis using nothing_unverified_is_written by blast
qed


text \<open>
  An update that was staged but not booted yet is installed over: while the second installation
  runs, the recorded slot is the one that is being written.
\<close>

lemma second_install_spoils_the_recorded_slot:
  "let f = fst (demo_install (demo_request\<lparr>ir_fault := Some (0, ''hs'')\<rparr>)
             (fst (demo_install demo_request demo_flash)))
   in fl_active f = Some (active_line ''b'') \<and> fl_root f ''b'' = ''hs''"
  using demo_installed
  by (simp add: demo_install_runs carry_through_def interrupted_at_def perform_def install_effects_def
      Let_def demo_slots)

text \<open>
  A rollback asks only whether the other slot has a kernel. After an installation that broke off
  in the middle of the root image it has the old one, so the half written slot is made the one
  that boots.
\<close>

lemma rollback_into_a_half_written_slot:
  "let f = fst (demo_install (demo_request\<lparr>ir_fault := Some (0, ''hs'')\<rparr>) demo_flash)
   in snd (StageRollback True None now f) = Inr ''b''
      \<and> fl_active (fst (StageRollback True None now f)) = Some (active_line ''b'')
      \<and> fl_root (fst (StageRollback True None now f)) ''b'' = ''hs''"
proof -
  let ?f = "demo_flash\<lparr>fl_root := (fl_root demo_flash)(''b'' := ''hs'')\<rparr>"
  have f: "fst (demo_install (demo_request\<lparr>ir_fault := Some (0, ''hs'')\<rparr>) demo_flash) = ?f"
    by (simp add: demo_install_runs carry_through_def interrupted_at_def perform_def install_effects_def Let_def demo_slots)
  have "CurrentSlot ?f = ''a''" using demo_slots(1) by (simp add: CurrentSlot_def)
  moreover have "fl_boot ?f (''b'', ''vmlinuz-lts'') \<noteq> None" by (simp add: demo_flash_def)
  ultimately show ?thesis
    unfolding f by (simp add: StageRollback_def carry_through_def rollback_effects_def perform_def Let_def demo_slots)
qed

text \<open>
  An installation that stops between the record and the switch leaves the record behind: the
  appliance goes on asking for a reboot into a slot that no reboot will pick, and confirming
  boots does not clear it.
\<close>

definition half_installed :: flash where
  "half_installed = fst (demo_install (demo_request\<lparr>ir_fault := Some (4, [])\<rparr>) demo_flash)"

lemma half_installed:
  "fl_active half_installed = Some (active_line ''a'')" "us_target (readState half_installed) = ''b''"
  "loader_state [] ''0'' half_installed"
  by (simp_all add: half_installed_def demo_install_runs carry_through_def interrupted_at_def
      perform_def install_effects_def Let_def demo_slots readState_def loader_state_def)
    (simp_all add: demo_flash_def)

lemma interrupted_install_asks_for_a_reboot:
  "CurrentSlot (boots v half_installed) = ''a''
   \<and> up_reboot_required (update_Status (fst (ConfirmBoot True None (boots v half_installed))))"
proof -
  note step = boots_step [OF half_installed(3) _ half_installed(1), of v, simplified]
  have "\<exists>block. grub_block (boot_variables [] ''0'') = Some block"
    using grub_block_boot [of "[]" "''0''"] by (simp add: plain_text_def)
  moreover have "trim_space (active_line ''a'') = ''set laserbridge_slot=a''"
    using active_line_read [of "''a''"] by simp
  moreover have "us_target (readState (boots v half_installed)) = ''b''"
    using step(4) half_installed(2) by (simp add: readState_def)
  ultimately show ?thesis
    using step(1,3) half_installed(1)
    by (auto simp: ConfirmBoot_def carry_through_def confirm_effects_def perform_def Let_def
        update_Status_def readState_def CurrentSlot_def)
qed

end
