(* ===== verification/Atomic_File.thy ===== *)
theory Atomic_File
  imports Prelude
begin

text \<open>
  \<open>backend/internal/atomicfile/atomicfile.go\<close>: replacing a file so that neither a reader nor a
  loss of power sees half of it. A disk has names and the files they stand for, both as a reader
  sees them and as they are on stable storage. After a loss of power a name may stand for the
  file it stood for on stable storage or for the one it stood for last, and a file that was not
  synced may hold anything.
\<close>

section \<open>A disk\<close>

record disk =
  dk_names :: "string \<Rightarrow> nat option"
  dk_durable :: "string \<Rightarrow> nat option"
  dk_data :: "nat \<Rightarrow> string"
  dk_synced :: "nat \<Rightarrow> bool"

datatype disk_op =
    CreateTemp string nat
  | WriteData nat string
  | SyncFile nat
  | RenameFile string string
  | SyncDirectory
  | RemoveFile string

fun disk_step :: "disk_op \<Rightarrow> disk \<Rightarrow> disk" where
  "disk_step (CreateTemp p i) d =
     d\<lparr>dk_names := (dk_names d)(p := Some i), dk_data := (dk_data d)(i := []),
       dk_synced := (dk_synced d)(i := False)\<rparr>"
| "disk_step (WriteData i s) d =
     d\<lparr>dk_data := (dk_data d)(i := s), dk_synced := (dk_synced d)(i := False)\<rparr>"
| "disk_step (SyncFile i) d = d\<lparr>dk_synced := (dk_synced d)(i := True)\<rparr>"
| "disk_step (RenameFile p q) d = d\<lparr>dk_names := (dk_names d)(q := dk_names d p, p := None)\<rparr>"
| "disk_step SyncDirectory d = d\<lparr>dk_durable := dk_names d\<rparr>"
| "disk_step (RemoveFile p) d = d\<lparr>dk_names := (dk_names d)(p := None)\<rparr>"

definition disk_run :: "disk_op list \<Rightarrow> disk \<Rightarrow> disk" where
  "disk_run ss d = fold disk_step ss d"

definition reads :: "string \<Rightarrow> disk \<Rightarrow> string option" where
  "reads p d = map_option (dk_data d) (dk_names d p)"

definition survives :: "string \<Rightarrow> disk \<Rightarrow> string option \<Rightarrow> bool" where
  \<comment> \<open>what the name may read as after a loss of power\<close>
  "survives p d r \<longleftrightarrow>
     (\<exists>i \<in> {dk_durable d p, dk_names d p}.
        case i of
          None \<Rightarrow> r = None
        | Some k \<Rightarrow> (\<exists>s. r = Some s \<and> (dk_synced d k \<longrightarrow> s = dk_data d k)))"

section \<open>Write\<close>

text \<open>
  The steps of \<open>Write\<close> in their order, with the name and the file \<open>CreateTemp\<close> picks. A step that
  fails ends the call after the steps before it, and the deferred \<open>Remove\<close> runs.
\<close>

definition write_steps :: "string \<Rightarrow> nat \<Rightarrow> string \<Rightarrow> string \<Rightarrow> disk_op list" where
  "write_steps temp i path data =
     [CreateTemp temp i, WriteData i data, SyncFile i, RenameFile temp path, SyncDirectory]"

definition atomic_write :: "nat option \<Rightarrow> string \<Rightarrow> nat \<Rightarrow> string \<Rightarrow> string \<Rightarrow> disk \<Rightarrow> disk \<times> bool" where
  \<comment> \<open>the number of the step that fails, if one does; syncing the directory cannot\<close>
  "atomic_write failing temp i path data d =
     (case failing of
        Some n \<Rightarrow>
          if n < 4 then (disk_run (take n (write_steps temp i path data) @ [RemoveFile temp]) d, False)
          else (disk_run (write_steps temp i path data @ [RemoveFile temp]) d, True)
      | None \<Rightarrow> (disk_run (write_steps temp i path data @ [RemoveFile temp]) d, True))"

definition fresh_temp :: "string \<Rightarrow> nat \<Rightarrow> string \<Rightarrow> disk \<Rightarrow> bool" where
  "fresh_temp temp i path d \<longleftrightarrow>
     temp \<noteq> path \<and> dk_names d temp = None
     \<and> dk_names d path \<noteq> Some i \<and> dk_durable d path \<noteq> Some i"

definition settled :: "string \<Rightarrow> disk \<Rightarrow> bool" where
  "settled path d \<longleftrightarrow>
     dk_durable d path = dk_names d path
     \<and> (case dk_names d path of None \<Rightarrow> True | Some k \<Rightarrow> dk_synced d k)"

text \<open>The states a call of \<open>Write\<close> passes through: after any of its steps, cleaned up or not.\<close>

definition passes_through :: "string \<Rightarrow> nat \<Rightarrow> string \<Rightarrow> string \<Rightarrow> disk \<Rightarrow> disk \<Rightarrow> bool" where
  "passes_through temp i path data d d' \<longleftrightarrow>
     (\<exists>n. d' = disk_run (take n (write_steps temp i path data)) d
        \<or> d' = disk_run (take n (write_steps temp i path data) @ [RemoveFile temp]) d)"

lemma take_write_steps:
  "take n (write_steps temp i path data) \<in>
     {[], [CreateTemp temp i], [CreateTemp temp i, WriteData i data],
      [CreateTemp temp i, WriteData i data, SyncFile i],
      [CreateTemp temp i, WriteData i data, SyncFile i, RenameFile temp path],
      write_steps temp i path data}"
proof -
  consider "n = 0" | "n = 1" | "n = 2" | "n = 3" | "n = 4" | "5 \<le> n" by linarith
  then show ?thesis by cases (auto simp: write_steps_def eval_nat_numeral)
qed

text \<open>
  A file is replaced as a whole or not at all. At any moment of a call of \<open>Write\<close>, whatever
  step fails, a reader of the file finds the old content or the new; and if the power goes at
  that moment, one of the two is what the file holds afterwards.
\<close>

theorem write_is_atomic:
  assumes "settled path d" and "fresh_temp temp i path d" and "passes_through temp i path data d d'"
  shows "reads path d' \<in> {reads path d, Some data}
    \<and> (\<forall>r. survives path d' r \<longrightarrow> r \<in> {reads path d, Some data})"
proof -
  obtain n where "d' = disk_run (take n (write_steps temp i path data)) d
      \<or> d' = disk_run (take n (write_steps temp i path data) @ [RemoveFile temp]) d"
    using assms(3) unfolding passes_through_def by blast
  then show ?thesis
    using take_write_steps [of n temp i path data] assms(1,2)
    by (cases "dk_names d path")
      (auto simp: disk_run_def reads_def survives_def settled_def fresh_temp_def write_steps_def)
qed

lemma successful_write_reads_back:
  assumes "fresh_temp temp i path d" and "atomic_write failing temp i path data d = (d', True)"
  shows "reads path d' = Some data \<and> settled path d'"
  using assms
  by (auto simp: atomic_write_def disk_run_def write_steps_def reads_def fresh_temp_def settled_def
      split: option.splits if_splits)

lemma failed_write_changes_nothing:
  assumes "fresh_temp temp i path d" and "atomic_write failing temp i path data d = (d', False)"
  shows "reads path d' = reads path d \<and> dk_names d' temp = None"
proof -
  obtain n where n: "n < 4" "d' = disk_run (take n (write_steps temp i path data) @ [RemoveFile temp]) d"
    using assms(2) by (auto simp: atomic_write_def split: option.splits if_splits)
  then have "n = 0 \<or> n = 1 \<or> n = 2 \<or> n = 3" by linarith
  then show ?thesis
    using assms(1) n(2)
    by (cases "dk_names d path") (auto simp: disk_run_def write_steps_def reads_def fresh_temp_def)
qed

definition empty_disk :: disk where
  "empty_disk = \<lparr>dk_names = (\<lambda>_. None), dk_durable = (\<lambda>_. None), dk_data = (\<lambda>_. []), dk_synced = (\<lambda>_. False)\<rparr>"

theorem write_is_atomic_witness:
  "reads ''config.yaml'' (disk_run (take 2 (write_steps ''.tmp-1'' 0 ''config.yaml'' ''x'')) empty_disk)
     \<in> {None, Some ''x''}"
proof -
  have "settled ''config.yaml'' empty_disk" "fresh_temp ''.tmp-1'' 0 ''config.yaml'' empty_disk"
    by (simp_all add: settled_def fresh_temp_def empty_disk_def)
  moreover have "passes_through ''.tmp-1'' 0 ''config.yaml'' ''x'' empty_disk
      (disk_run (take 2 (write_steps ''.tmp-1'' 0 ''config.yaml'' ''x'')) empty_disk)"
    unfolding passes_through_def by blast
  ultimately have "reads ''config.yaml'' (disk_run (take 2 (write_steps ''.tmp-1'' 0 ''config.yaml'' ''x'')) empty_disk)
      \<in> {reads ''config.yaml'' empty_disk, Some ''x''}"
    using write_is_atomic by blast
  then show ?thesis by (simp add: reads_def empty_disk_def)
qed

end
