(* ===== verification/Bridge_Watch.thy ===== *)
theory Bridge_Watch
  imports Config
begin

text \<open>
  \<open>backend/internal/runtime/bridgewatch.go\<close>: the watch over the bridge, as a function from what
  one turn of its ticker finds to the service commands it runs. What is configured, whether the
  daemon answered, the clock and the exit status of each command are the turn's input.
\<close>

section \<open>One turn\<close>

record bridge_watch =
  bw_interval :: duration
  bw_failures :: int
  bw_cooldown :: duration

definition watch_interval :: "bridge_watch \<Rightarrow> duration" where
  "watch_interval c = (if 0 < bw_interval c then bw_interval c else 15 * second)"

definition watch_failures :: "bridge_watch \<Rightarrow> int" where
  "watch_failures c = (if 0 < bw_failures c then bw_failures c else 3)"

definition watch_cooldown :: "bridge_watch \<Rightarrow> duration" where
  "watch_cooldown c = (if 0 < bw_cooldown c then bw_cooldown c else 300 * second)"

text \<open>
  A turn: the backend the stored configuration names, if it can be loaded; whether the daemon
  answered within the timeout; the clock at the turn and after its commands; and the output of
  each command that failed.
\<close>

record watch_turn =
  wt_backend :: "string option"
  wt_answered :: bool
  wt_now :: instant
  wt_after :: instant
  wt_restart_error :: "string option"
  wt_status_error :: "string option"
  wt_start_error :: "string option"

record watch_memory =
  wm_missed :: int
  wm_last_restart :: go_time

definition fresh_watch :: watch_memory where
  "fresh_watch = \<lparr>wm_missed = 0, wm_last_restart = None\<rparr>"

text \<open>\<open>time.Since\<close>: saturating, and the zero time is further back than any duration.\<close>

definition time_since :: "instant \<Rightarrow> go_time \<Rightarrow> duration" where
  "time_since now t = (case t of None \<Rightarrow> 2 ^ 63 - 1 | Some x \<Rightarrow> min (2 ^ 63 - 1) (now - x))"

datatype watch_log =
    AnsweringAgain | Waiting duration | Restarting int | RestartFailed string
  | StillNotRunning string | StartFailed string

type_synonym service_command = "string list"

definition rc_service :: "string \<Rightarrow> service_command" where
  "rc_service action = [''rc-service'', ''laserbridged'', action]"

definition restart_bridge :: "watch_turn \<Rightarrow> service_command list \<times> watch_log list" where
  "restart_bridge t =
     (let log1 = (case wt_restart_error t of None \<Rightarrow> [] | Some out \<Rightarrow> [RestartFailed out])
      in case wt_status_error t of
           None \<Rightarrow> ([rc_service ''restart'', rc_service ''status''], log1)
         | Some out \<Rightarrow>
             ([rc_service ''restart'', rc_service ''status'', rc_service ''start''],
              log1 @ [StillNotRunning out]
              @ (case wt_start_error t of None \<Rightarrow> [] | Some out' \<Rightarrow> [StartFailed out'])))"

definition bridge_watch_turn ::
    "bridge_watch \<Rightarrow> watch_turn \<Rightarrow> watch_memory \<Rightarrow> watch_memory \<times> service_command list \<times> watch_log list" where
  "bridge_watch_turn c t s =
     (if wt_backend t \<noteq> Some BackendLaserbridged then (s\<lparr>wm_missed := 0\<rparr>, [], [])
      else if wt_answered t then
        (s\<lparr>wm_missed := 0\<rparr>, [], if 0 < wm_missed s then [AnsweringAgain] else [])
      else
        (let missed = wm_missed s + 1; since = time_since (wt_now t) (wm_last_restart s)
         in if missed < watch_failures c then (s\<lparr>wm_missed := missed\<rparr>, [], [])
            else if since < watch_cooldown c then (s\<lparr>wm_missed := missed\<rparr>, [], [Waiting since])
            else
              (case restart_bridge t of
                 (cmds, log) \<Rightarrow>
                   (\<lparr>wm_missed = 0, wm_last_restart = Some (wt_after t)\<rparr>, cmds, Restarting missed # log))))"

section \<open>Runs\<close>

definition memory_after :: "bridge_watch \<Rightarrow> watch_turn list \<Rightarrow> watch_memory \<Rightarrow> watch_memory" where
  "memory_after c ts s = fold (\<lambda>t s. fst (bridge_watch_turn c t s)) ts s"

definition commands_from :: "bridge_watch \<Rightarrow> watch_memory \<Rightarrow> watch_turn list \<Rightarrow> nat \<Rightarrow> service_command list" where
  \<comment> \<open>what turn number \<open>n\<close> of a run runs\<close>
  "commands_from c s ts n = fst (snd (bridge_watch_turn c (ts ! n) (memory_after c (take n ts) s)))"

abbreviation commands_at :: "bridge_watch \<Rightarrow> watch_turn list \<Rightarrow> nat \<Rightarrow> service_command list" where
  "commands_at c \<equiv> commands_from c fresh_watch"

definition silent :: "watch_turn \<Rightarrow> bool" where
  "silent t \<longleftrightarrow> wt_backend t = Some BackendLaserbridged \<and> \<not> wt_answered t"

definition restarts :: "bridge_watch \<Rightarrow> watch_turn list \<Rightarrow> nat \<Rightarrow> bool" where
  "restarts c ts n \<longleftrightarrow> commands_at c ts n \<noteq> []"

definition clock_runs :: "watch_turn list \<Rightarrow> bool" where
  "clock_runs ts \<longleftrightarrow> sorted (concat (map (\<lambda>t. [wt_now t, wt_after t]) ts))"

lemma watch_failures_pos: "0 < watch_failures c"
  by (simp add: watch_failures_def)

lemma memory_after_snoc [simp]:
  "memory_after c (ts @ [t]) s = fst (bridge_watch_turn c t (memory_after c ts s))"
  by (simp add: memory_after_def)

lemma commands_from_snoc [simp]:
  "n < length ts \<Longrightarrow> commands_from c s (ts @ [t]) n = commands_from c s ts n"
  "commands_from c s (ts @ [t]) (length ts) = fst (snd (bridge_watch_turn c t (memory_after c ts s)))"
  by (simp_all add: commands_from_def nth_append)

lemma commands_from_append:
  "commands_from c s (ts @ us) (length ts + k) = commands_from c (memory_after c ts s) us k"
  by (simp add: commands_from_def memory_after_def)

lemma restarts_snoc_old [simp]: "n < length ts \<Longrightarrow> restarts c (ts @ [t]) n \<longleftrightarrow> restarts c ts n"
  by (simp add: restarts_def)

lemma restart_bridge_runs: "fst (restart_bridge t) \<noteq> []"
  by (simp add: restart_bridge_def Let_def split: option.splits)

text \<open>What a turn can do, by cases.\<close>

lemma turn_cases:
  obtains (content) "\<not> silent t" "fst (bridge_watch_turn c t s) = s\<lparr>wm_missed := 0\<rparr>"
      "fst (snd (bridge_watch_turn c t s)) = []"
  | (counting) "silent t" "fst (bridge_watch_turn c t s) = s\<lparr>wm_missed := wm_missed s + 1\<rparr>"
      "fst (snd (bridge_watch_turn c t s)) = []"
      "wm_missed s + 1 < watch_failures c \<or> time_since (wt_now t) (wm_last_restart s) < watch_cooldown c"
  | (restarting) "silent t"
      "fst (bridge_watch_turn c t s) = \<lparr>wm_missed = 0, wm_last_restart = Some (wt_after t)\<rparr>"
      "fst (snd (bridge_watch_turn c t s)) = fst (restart_bridge t)"
      "watch_failures c \<le> wm_missed s + 1"
      "watch_cooldown c \<le> time_since (wt_now t) (wm_last_restart s)"
proof (cases "silent t")
  case False
  then show thesis using content by (auto simp: silent_def bridge_watch_turn_def)
next
  case True
  then have turn: "bridge_watch_turn c t s =
      (let missed = wm_missed s + 1; since = time_since (wt_now t) (wm_last_restart s)
       in if missed < watch_failures c then (s\<lparr>wm_missed := missed\<rparr>, [], [])
          else if since < watch_cooldown c then (s\<lparr>wm_missed := missed\<rparr>, [], [Waiting since])
          else
            (case restart_bridge t of
               (cmds, log) \<Rightarrow>
                 (\<lparr>wm_missed = 0, wm_last_restart = Some (wt_after t)\<rparr>, cmds, Restarting missed # log)))"
    by (simp add: bridge_watch_turn_def silent_def)
  consider "wm_missed s + 1 < watch_failures c"
    | "time_since (wt_now t) (wm_last_restart s) < watch_cooldown c"
    | "watch_failures c \<le> wm_missed s + 1" "watch_cooldown c \<le> time_since (wt_now t) (wm_last_restart s)"
    by linarith
  then show thesis
  proof cases
    case 3
    then show ?thesis using True restarting by (simp add: turn Let_def case_prod_beta)
  qed (use True counting in \<open>simp_all add: turn Let_def split: if_splits\<close>)
qed

section \<open>The memory tells the past\<close>

text \<open>
  The counter never exceeds the silent turns since the last restart, and the time remembered is
  that of the latest restart.
\<close>

definition remembers :: "bridge_watch \<Rightarrow> watch_turn list \<Rightarrow> watch_memory \<Rightarrow> bool" where
  "remembers c ts s \<longleftrightarrow>
     0 \<le> wm_missed s \<and> wm_missed s \<le> int (length ts)
     \<and> (\<forall>k < length ts. int (length ts) - wm_missed s \<le> int k \<longrightarrow> silent (ts ! k) \<and> \<not> restarts c ts k)
     \<and> (\<forall>m < length ts. restarts c ts m \<longrightarrow>
          (\<exists>x. wm_last_restart s = Some x \<and> wt_after (ts ! m) \<le> x))
     \<and> (\<forall>x. wm_last_restart s = Some x \<longrightarrow> (\<exists>m < length ts. restarts c ts m \<and> x = wt_after (ts ! m)))"

lemma clock_snoc:
  "clock_runs (ts @ [t]) \<longleftrightarrow>
     clock_runs ts \<and> wt_now t \<le> wt_after t \<and> (\<forall>m < length ts. wt_after (ts ! m) \<le> wt_now t
       \<and> wt_now (ts ! m) \<le> wt_now t)"
  by (auto simp: clock_runs_def sorted_append in_set_conv_nth all_set_conv_all_nth)

lemma remembers_run: "clock_runs ts \<Longrightarrow> remembers c ts (memory_after c ts fresh_watch)"
proof (induction ts rule: rev_induct)
  case Nil
  then show ?case by (simp add: remembers_def memory_after_def fresh_watch_def)
next
  case (snoc t ts)
  let ?s = "memory_after c ts fresh_watch"
  have clock: "clock_runs ts" "\<forall>m < length ts. wt_after (ts ! m) \<le> wt_now t" "wt_now t \<le> wt_after t"
    using snoc.prems by (simp_all add: clock_snoc)
  have ih: "remembers c ts ?s" using snoc.IH clock(1) .
  have new: "restarts c (ts @ [t]) (length ts) \<longleftrightarrow> fst (snd (bridge_watch_turn c t ?s)) \<noteq> []"
    by (simp add: restarts_def)
  show ?case
  proof (cases rule: turn_cases [of t c ?s])
    case content
    then show ?thesis using ih new
      by (auto simp: remembers_def less_Suc_eq nth_append)
  next
    case counting
    then show ?thesis using ih new
      by (auto simp: remembers_def less_Suc_eq nth_append)
  next
    case restarting
    have latest: "restarts c (ts @ [t]) (length ts)"
      using restarting(3) restart_bridge_runs by (simp add: new)
    have "wt_after ((ts @ [t]) ! m) \<le> wt_after t" if "m < Suc (length ts)" for m
    proof (cases "m = length ts")
      case False
      with that have "m < length ts" by simp
      with clock(2,3) show ?thesis by (force simp: nth_append)
    qed simp
    then have "\<forall>m < length (ts @ [t]). restarts c (ts @ [t]) m \<longrightarrow>
        (\<exists>x. Some (wt_after t) = Some x \<and> wt_after ((ts @ [t]) ! m) \<le> x)"
      by simp
    moreover have "\<exists>m < length (ts @ [t]). restarts c (ts @ [t]) m \<and> wt_after t = wt_after ((ts @ [t]) ! m)"
      using latest by (intro exI [of _ "length ts"]) simp
    ultimately show ?thesis
      by (simp add: remembers_def restarting(2) del: restarts_snoc_old nth_append)
  qed
qed

lemma take_nth_snoc: "n < length ts \<Longrightarrow> take (Suc n) ts = take n ts @ [ts ! n]"
  by (rule take_Suc_conv_app_nth)

lemma clock_runs_take: "clock_runs ts \<Longrightarrow> clock_runs (take n ts)"
  by (induction ts arbitrary: n rule: rev_induct) (auto simp: clock_snoc take_Cons' nth_append)

lemma restarts_take: "m < n \<Longrightarrow> n \<le> length ts \<Longrightarrow> restarts c (take n ts) m \<longleftrightarrow> restarts c ts m"
  by (simp add: restarts_def commands_from_def min_def)

text \<open>
  C25: a restart of the bridge is never rash: it takes the configured number of turns in a row in
  which the bridge was meant to run and said nothing, none of which was spent on an earlier
  restart, and the cooldown has passed since every earlier restart.
\<close>

theorem restart_is_never_rash:
  assumes "clock_runs ts" and "n < length ts" and "restarts c ts n"
  shows "watch_failures c \<le> int n + 1
    \<and> (\<forall>k \<le> n. int n - watch_failures c < int k \<longrightarrow> silent (ts ! k))
    \<and> (\<forall>m < n. restarts c ts m \<longrightarrow>
         int m + watch_failures c \<le> int n \<and> watch_cooldown c \<le> wt_now (ts ! n) - wt_after (ts ! m))"
proof -
  let ?s = "memory_after c (take n ts) fresh_watch"
  have mem: "remembers c (take n ts) ?s"
    using remembers_run clock_runs_take [OF assms(1)] .
  have fires: "fst (snd (bridge_watch_turn c (ts ! n) ?s)) \<noteq> []"
    using assms(3) by (simp add: restarts_def commands_from_def)
  show ?thesis
  proof (cases rule: turn_cases [of "ts ! n" c ?s])
    case restarting
    have earlier: "int m + watch_failures c \<le> int n \<and> watch_cooldown c \<le> wt_now (ts ! n) - wt_after (ts ! m)"
      if m: "m < n" "restarts c ts m" for m
    proof -
      have "restarts c (take n ts) m" using m assms(2) by (simp add: restarts_take)
      then have "int m < int n - wm_missed ?s"
        and "\<exists>x. wm_last_restart ?s = Some x \<and> wt_after (ts ! m) \<le> x"
        using mem m(1) assms(2) by (auto simp: remembers_def not_le [symmetric])
      then show ?thesis using restarting(4,5) by (auto simp: time_since_def)
    qed
    have "silent (ts ! k)" if "k \<le> n" "int n - watch_failures c < int k" for k
      using that mem restarting(1,4) assms(2) by (cases "k = n") (auto simp: remembers_def)
    moreover have "watch_failures c \<le> int n + 1"
      using mem restarting(4) assms(2) by (simp add: remembers_def)
    ultimately show ?thesis using earlier by blast
  qed (use fires in simp_all)
qed

lemma silent_turns_count:
  assumes "\<forall>t \<in> set us. silent t" and "\<forall>k < length us. commands_from c s us k = []"
  shows "memory_after c us s = s\<lparr>wm_missed := wm_missed s + int (length us)\<rparr>"
  using assms
proof (induction us rule: rev_induct)
  case Nil
  then show ?case by (simp add: memory_after_def)
next
  case (snoc u us)
  have "commands_from c s us k = []" if "k < length us" for k
    using snoc.prems(2) that by (metis commands_from_snoc(1) length_append_singleton less_SucI)
  then have ih: "memory_after c us s = s\<lparr>wm_missed := wm_missed s + int (length us)\<rparr>"
    using snoc by simp
  have quiet: "fst (snd (bridge_watch_turn c u (memory_after c us s))) = []"
    using snoc.prems(2) by (metis commands_from_snoc(2) length_append_singleton lessI)
  show ?case
    by (cases rule: turn_cases [of u c "memory_after c us s"])
      (use snoc.prems(1) quiet restart_bridge_runs in \<open>simp_all add: ih\<close>)
qed

text \<open>
  C26: a bridge that hangs is restarted: when it stays silent for the configured number of turns, the
  last of them after the cooldown, one of these turns runs \<open>rc-service laserbridged restart\<close>, and
  if the service is not running after that, it runs \<open>start\<close>.
\<close>

theorem hung_bridge_is_restarted:
  assumes "clock_runs (ts @ us)" and "\<forall>t \<in> set us. silent t" and "int (length us) = watch_failures c"
    and "\<forall>m < length ts. restarts c ts m \<longrightarrow> watch_cooldown c \<le> wt_now (last us) - wt_after (ts ! m)"
    and "watch_cooldown c < 2 ^ 63"
  shows "\<exists>k < length us. rc_service ''restart'' \<in> set (commands_at c (ts @ us) (length ts + k))
    \<and> (wt_status_error (us ! k) \<noteq> None \<longrightarrow>
         rc_service ''start'' \<in> set (commands_at c (ts @ us) (length ts + k)))"
proof -
  let ?s = "memory_after c ts fresh_watch"
  have "\<exists>k < length us. commands_from c ?s us k \<noteq> []"
  proof (rule ccontr)
    assume "\<not> ?thesis"
    then have none: "commands_from c ?s us k = []" if "k < length us" for k using that by blast
    obtain u vs where us: "us = vs @ [u]"
      using assms(3) watch_failures_pos [of c] by (cases us rule: rev_cases) auto
    have "commands_from c ?s vs k = []" if "k < length vs" for k
      using none [of k] that by (simp add: us)
    then have now: "memory_after c vs ?s = ?s\<lparr>wm_missed := wm_missed ?s + int (length vs)\<rparr>"
      using assms(2) us by (intro silent_turns_count) auto
    have quiet: "fst (snd (bridge_watch_turn c u (memory_after c vs ?s))) = []"
      using none [of "length vs"] by (simp add: us)
    have mem: "remembers c ts ?s"
      using remembers_run clock_runs_take [OF assms(1), of "length ts"] by simp
    then have "watch_cooldown c \<le> time_since (wt_now u) (wm_last_restart ?s)"
      using assms(4,5) us by (auto simp: time_since_def remembers_def split: option.splits)
    then show False
      by (cases rule: turn_cases [of u c "memory_after c vs ?s"])
        (use assms(2,3) us quiet now mem restart_bridge_runs in \<open>auto simp: remembers_def\<close>)
  qed
  then obtain k where k: "k < length us" "commands_from c ?s us k \<noteq> []" by blast
  then have "commands_from c ?s us k = fst (restart_bridge (us ! k))"
    by (cases rule: turn_cases [of "us ! k" c "memory_after c (take k us) ?s"])
      (simp_all add: commands_from_def)
  with k(1) show ?thesis
    by (intro exI [of _ k]) (auto simp: commands_from_append restart_bridge_def Let_def split: option.splits)
qed

text \<open>A bridge that answers for a while, hangs, and is left without a service by the restart.\<close>

definition turn_at :: "instant \<Rightarrow> bool \<Rightarrow> watch_turn" where
  "turn_at t ok =
     \<lparr>wt_backend = Some BackendLaserbridged, wt_answered = ok, wt_now = t * second, wt_after = t * second,
      wt_restart_error = None, wt_status_error = Some ''stopped'', wt_start_error = None\<rparr>"

definition plain_watch :: bridge_watch where
  "plain_watch = \<lparr>bw_interval = 0, bw_failures = 0, bw_cooldown = 0\<rparr>"

definition hang :: "watch_turn list" where
  "hang = [turn_at 15 True, turn_at 30 False, turn_at 45 False, turn_at 60 False]"

theorem restart_is_never_rash_witness:
  "restarts plain_watch hang 3 \<and> silent (hang ! 1) \<and> silent (hang ! 2) \<and> silent (hang ! 3)"
proof -
  have "clock_runs hang" "3 < length hang" "restarts plain_watch hang 3" by code_simp+
  from this(3) restart_is_never_rash [OF this] show ?thesis
    by (simp add: watch_failures_def plain_watch_def)
qed

theorem hung_bridge_is_restarted_witness:
  "\<exists>k < 3. rc_service ''start'' \<in> set (commands_at plain_watch hang (Suc k))"
proof -
  have "clock_runs ([hd hang] @ tl hang)" by code_simp
  moreover have "\<forall>t \<in> set (tl hang). silent t" by code_simp
  moreover have "int (length (tl hang)) = watch_failures plain_watch" by code_simp
  moreover have "\<forall>m < length [hd hang]. restarts plain_watch [hd hang] m \<longrightarrow>
      watch_cooldown plain_watch \<le> wt_now (last (tl hang)) - wt_after ([hd hang] ! m)"
    by code_simp
  moreover have "watch_cooldown plain_watch < 2 ^ 63" by code_simp
  ultimately obtain k where "k < length (tl hang)"
      "wt_status_error (tl hang ! k) \<noteq> None \<longrightarrow>
         rc_service ''start'' \<in> set (commands_at plain_watch ([hd hang] @ tl hang) (length [hd hang] + k))"
    using hung_bridge_is_restarted by blast
  moreover from this(1) have "wt_status_error (tl hang ! k) \<noteq> None"
    by (auto simp: hang_def turn_at_def less_Suc_eq numeral_3_eq_3)
  moreover have "[hd hang] @ tl hang = hang" "length (tl hang) = 3" by (simp_all add: hang_def)
  ultimately show ?thesis by auto
qed

end
