(* ===== verification/Usb_Policy.thy ===== *)
theory Usb_Policy
  imports Config_Facts
begin

text \<open>
  \<open>backend/internal/runtime/usb.go\<close>: telling the kernel whether it may suspend USB devices. The
  attributes under \<open>/sys\<close> are a map; which of them cannot be read or written, and what the
  directory of devices holds, are arguments. A write that fails leaves the attribute as it was,
  as the kernel's attributes do.
\<close>

datatype usb_attribute =
    AutosuspendParameter
  | DelayOf string
  | ControlOf string

type_synonym sysfs = "usb_attribute \<Rightarrow> string option"

datatype usb_directory = DirectoryMissing | DirectoryError string | Devices "string list"

record usb_answers =
  ua_unreadable :: "usb_attribute \<Rightarrow> bool"
  ua_write_error :: "usb_attribute \<Rightarrow> string option"
  ua_directory :: usb_directory

datatype usb_error = AttributeError usb_attribute string | ListError string

definition writeSysfs :: "usb_answers \<Rightarrow> usb_attribute \<Rightarrow> string \<Rightarrow> sysfs \<Rightarrow> sysfs \<times> usb_error option" where
  "writeSysfs os a v fs =
     (case fs a of
        None \<Rightarrow> (fs, None)
      | Some current \<Rightarrow>
          if \<not> ua_unreadable os a \<and> trim_space current = v then (fs, None)
          else
            (case ua_write_error os a of
               Some e \<Rightarrow> (fs, Some (AttributeError a e))
             | None \<Rightarrow> (fs(a \<mapsto> v), None)))"

definition usbControl :: "int \<Rightarrow> string" where
  "usbControl seconds = (if seconds < 0 then ''on'' else ''auto'')"

definition usb_delay :: "int \<Rightarrow> string" where
  "usb_delay seconds = (if seconds < 0 then ''-1000'' else itoa (seconds * 1000))"

definition first_failure :: "usb_error option \<Rightarrow> usb_error option \<Rightarrow> usb_error option" where
  "first_failure failure e = (case failure of None \<Rightarrow> e | Some _ \<Rightarrow> failure)"

text \<open>The attributes of one device in the order they are written, and the sweep over all.\<close>

definition wanted_of :: "int \<Rightarrow> string \<Rightarrow> (usb_attribute \<times> string) list" where
  "wanted_of seconds d = [(DelayOf d, usb_delay seconds), (ControlOf d, usbControl seconds)]"

fun usb_sweep ::
    "usb_answers \<Rightarrow> (usb_attribute \<times> string) list \<Rightarrow> sysfs \<times> usb_error option \<Rightarrow> sysfs \<times> usb_error option" where
  "usb_sweep os [] s = s"
| "usb_sweep os ((a, v) # avs) (fs, failure) =
     (case writeSysfs os a v fs of
        (fs', e) \<Rightarrow> usb_sweep os avs (fs', first_failure failure e))"

definition ApplyUSBPolicy :: "usb_answers \<Rightarrow> config \<Rightarrow> sysfs \<Rightarrow> sysfs \<times> usb_error option" where
  "ApplyUSBPolicy os c fs =
     (let seconds = sys_usb_autosuspend (cg_system c)
      in case writeSysfs os AutosuspendParameter (itoa seconds) fs of
           (fs1, Some e) \<Rightarrow> (fs1, Some e)
         | (fs1, None) \<Rightarrow>
             (case ua_directory os of
                DirectoryMissing \<Rightarrow> (fs1, None)
              | DirectoryError e \<Rightarrow> (fs1, Some (ListError e))
              | Devices ds \<Rightarrow> usb_sweep os (concat (map (wanted_of seconds) ds)) (fs1, None)))"

definition USBAutosuspend :: "usb_answers \<Rightarrow> sysfs \<Rightarrow> int option" where
  "USBAutosuspend os fs =
     (case fs AutosuspendParameter of
        None \<Rightarrow> None
      | Some text \<Rightarrow>
          if ua_unreadable os AutosuspendParameter then None
          else (case atoi (trim_space text) of (n, None) \<Rightarrow> Some n | _ \<Rightarrow> None))"

section \<open>Facts\<close>

definition takes_value :: "usb_answers \<Rightarrow> usb_attribute \<Rightarrow> string \<Rightarrow> sysfs \<Rightarrow> bool" where
  \<comment> \<open>nothing keeps the attribute from this value\<close>
  "takes_value os a v fs \<longleftrightarrow>
     (case fs a of
        None \<Rightarrow> True
      | Some current \<Rightarrow> (\<not> ua_unreadable os a \<and> trim_space current = v) \<or> ua_write_error os a = None)"

definition has_value :: "usb_attribute \<Rightarrow> string \<Rightarrow> sysfs \<Rightarrow> bool" where
  "has_value a v fs \<longleftrightarrow> (case fs a of None \<Rightarrow> False | Some current \<Rightarrow> current = v \<or> trim_space current = v)"

lemma writeSysfs_other: "x \<noteq> a \<Longrightarrow> fst (writeSysfs os a v fs) x = fs x"
  by (simp add: writeSysfs_def split: option.splits)

lemma writeSysfs_ok: "snd (writeSysfs os a v fs) = None \<longleftrightarrow> takes_value os a v fs"
  by (auto simp: writeSysfs_def takes_value_def split: option.splits)

lemma writeSysfs_none: "fst (writeSysfs os a v fs) a = None \<longleftrightarrow> fs a = None"
  by (auto simp: writeSysfs_def split: option.splits)

lemma writeSysfs_value:
  "takes_value os a v fs \<Longrightarrow> fs a \<noteq> None \<Longrightarrow> has_value a v (fst (writeSysfs os a v fs))"
  by (auto simp: writeSysfs_def takes_value_def has_value_def split: option.splits)

lemma takes_value_other: "fs x = fs' x \<Longrightarrow> takes_value os x v fs \<longleftrightarrow> takes_value os x v fs'"
  by (simp add: takes_value_def)

lemma has_value_other: "fs x = fs' x \<Longrightarrow> has_value x v fs \<longleftrightarrow> has_value x v fs'"
  by (simp add: has_value_def)

lemma first_failure_None [simp]: "first_failure failure e = None \<longleftrightarrow> failure = None \<and> e = None"
  by (simp add: first_failure_def split: option.splits)

lemma usb_sweep_result:
  assumes "distinct (map fst avs)" and "usb_sweep os avs (fs, failure) = (fs', e)"
  shows "(\<forall>x. x \<notin> fst ` set avs \<longrightarrow> fs' x = fs x)
    \<and> (\<forall>(a, v) \<in> set avs. (fs a = None \<longleftrightarrow> fs' a = None)
        \<and> (takes_value os a v fs \<and> fs a \<noteq> None \<longrightarrow> has_value a v fs'))
    \<and> (e = None \<longleftrightarrow> failure = None \<and> (\<forall>(a, v) \<in> set avs. takes_value os a v fs))"
  using assms
proof (induction avs arbitrary: fs failure)
  case (Cons av avs)
  obtain a v where av: "av = (a, v)" by fastforce
  let ?fs1 = "fst (writeSysfs os a v fs)" and ?e1 = "snd (writeSysfs os a v fs)"
  have run: "usb_sweep os avs (?fs1, first_failure failure ?e1) = (fs', e)"
    using Cons.prems(2) by (simp add: av case_prod_beta)
  have fresh: "a \<notin> fst ` set avs" using Cons.prems(1) by (simp add: av)
  have same: "?fs1 x = fs x" if "x \<in> fst ` set avs" for x
    using that fresh by (intro writeSysfs_other) blast
  have takes: "takes_value os x u ?fs1 \<longleftrightarrow> takes_value os x u fs" if "(x, u) \<in> set avs" for x u
    using that by (intro takes_value_other same) force
  have dist: "distinct (map fst avs)" using Cons.prems(1) by simp
  have rest: "\<And>x. x \<notin> fst ` set avs \<Longrightarrow> fs' x = ?fs1 x"
      "\<And>x u. (x, u) \<in> set avs \<Longrightarrow> (?fs1 x = None \<longleftrightarrow> fs' x = None)"
      "\<And>x u. (x, u) \<in> set avs \<Longrightarrow> takes_value os x u ?fs1 \<Longrightarrow> ?fs1 x \<noteq> None \<Longrightarrow> has_value x u fs'"
      "e = None \<longleftrightarrow> first_failure failure ?e1 = None \<and> (\<forall>(x, u) \<in> set avs. takes_value os x u ?fs1)"
    using Cons.IH [OF dist run] by blast+
  have at: "fs' a = ?fs1 a" using rest(1) fresh .
  have others: "fs' x = fs x" if "x \<notin> fst ` set (av # avs)" for x
    using rest(1) [of x] that writeSysfs_other [of x a os v fs] by (simp add: av)
  have later: "(fs x = None \<longleftrightarrow> fs' x = None) \<and> (takes_value os x u fs \<and> fs x \<noteq> None \<longrightarrow> has_value x u fs')"
    if "(x, u) \<in> set avs" for x u
  proof -
    have "x \<in> fst ` set avs" using that by force
    then show ?thesis using rest(2,3) [OF that] takes [OF that] same [of x] by simp
  qed
  have first: "(fs a = None \<longleftrightarrow> fs' a = None) \<and> (takes_value os a v fs \<and> fs a \<noteq> None \<longrightarrow> has_value a v fs')"
    using writeSysfs_none [of os a v fs] writeSysfs_value [of os a v fs] at has_value_other [of fs' a ?fs1 v] by simp
  have all: "(\<forall>(x, u) \<in> set avs. takes_value os x u ?fs1) \<longleftrightarrow> (\<forall>(x, u) \<in> set avs. takes_value os x u fs)"
    using takes by blast
  have "e = None \<longleftrightarrow> failure = None \<and> (\<forall>(x, u) \<in> set (av # avs). takes_value os x u fs)"
    unfolding rest(4) all by (simp add: av writeSysfs_ok)
  with others later first show ?case by (simp add: av) blast
qed simp

definition usb_wanted :: "int \<Rightarrow> string list \<Rightarrow> (usb_attribute \<times> string) list" where
  "usb_wanted seconds ds = concat (map (wanted_of seconds) ds)"

lemma usb_wanted_distinct: "distinct ds \<Longrightarrow> distinct (map fst (usb_wanted seconds ds))"
  by (induction ds) (auto simp: usb_wanted_def wanted_of_def)

lemma usb_wanted_parameter: "AutosuspendParameter \<notin> fst ` set (usb_wanted seconds ds)"
  by (auto simp: usb_wanted_def wanted_of_def)

lemma delay_comes_first:
  "(ControlOf d, v) \<in> set (take n (usb_wanted seconds ds)) \<Longrightarrow>
   (DelayOf d, usb_delay seconds) \<in> set (take n (usb_wanted seconds ds))"
proof (induction ds arbitrary: n)
  case (Cons a ds)
  consider "n = 0" | "n = 1" | k where "n = Suc (Suc k)" by (metis One_nat_def not0_implies_Suc)
  then show ?case
  proof cases
    case 3
    then show ?thesis using Cons by (auto simp: usb_wanted_def wanted_of_def)
  qed (use Cons.prems in \<open>simp_all add: usb_wanted_def wanted_of_def\<close>)
qed (simp add: usb_wanted_def)

lemma usb_delay_trimmed: "trim_space (itoa n) = itoa n"
  using itoa_plain [of n] by (simp add: plain_value_def trim_space_ends)

lemma parameter_read_back:
  assumes "has_value AutosuspendParameter (itoa n) fs" and "\<not> ua_unreadable os AutosuspendParameter"
    and "- (2 ^ 63) \<le> n" and "n < 2 ^ 63"
  shows "USBAutosuspend os fs = Some n"
proof -
  obtain current where "fs AutosuspendParameter = Some current" "trim_space current = itoa n"
    using assms(1) usb_delay_trimmed [of n] by (auto simp: has_value_def split: option.splits)
  then show ?thesis using assms(2-4) atoi_itoa [of n] by (simp add: USBAutosuspend_def)
qed

section \<open>Properties\<close>

text \<open>
  The policy reaches every device that is there. For a valid configuration, every attribute that
  exists and takes its value has it afterwards - whatever happened to the others - none is
  created, none but these is touched, and an error is reported exactly when one of them refused.
  What the kernel is then asked back is what was configured.
\<close>

theorem usb_policy_reaches_every_device:
  fixes os c fs ds
  assumes "Validate c = None" and "distinct ds" and "ua_directory os = Devices ds"
    and "takes_value os AutosuspendParameter (itoa (sys_usb_autosuspend (cg_system c))) fs"
  defines "wanted \<equiv> (AutosuspendParameter, itoa (sys_usb_autosuspend (cg_system c)))
      # usb_wanted (sys_usb_autosuspend (cg_system c)) ds"
    and "fs' \<equiv> fst (ApplyUSBPolicy os c fs)"
  shows "(\<forall>(a, v) \<in> set wanted. (fs a = None \<longleftrightarrow> fs' a = None)
        \<and> (takes_value os a v fs \<and> fs a \<noteq> None \<longrightarrow> has_value a v fs'))
    \<and> (\<forall>x. x \<notin> fst ` set wanted \<longrightarrow> fs' x = fs x)
    \<and> (snd (ApplyUSBPolicy os c fs) = None \<longleftrightarrow> (\<forall>(a, v) \<in> set wanted. takes_value os a v fs))
    \<and> (fs AutosuspendParameter \<noteq> None \<and> \<not> ua_unreadable os AutosuspendParameter \<longrightarrow>
        USBAutosuspend os fs' = Some (sys_usb_autosuspend (cg_system c)))"
proof -
  let ?n = "sys_usb_autosuspend (cg_system c)"
  have sweep: "ApplyUSBPolicy os c fs = usb_sweep os wanted (fs, None)"
    using assms(3,4) writeSysfs_ok [of os AutosuspendParameter "itoa ?n" fs]
    by (cases "writeSysfs os AutosuspendParameter (itoa ?n) fs")
      (simp add: ApplyUSBPolicy_def wanted_def usb_wanted_def first_failure_def)
  have "distinct (map fst wanted)"
    using usb_wanted_distinct [OF assms(2)] usb_wanted_parameter by (simp add: wanted_def)
  note result = usb_sweep_result [OF this, of os fs None fs' "snd (ApplyUSBPolicy os c fs)"]
  have run: "usb_sweep os wanted (fs, None) = (fs', snd (ApplyUSBPolicy os c fs))"
    by (simp add: fs'_def sweep)
  note result = result [OF run]
  have "- 1 \<le> ?n" "?n \<le> 3600"
    using assms(1) by (simp_all add: Validate_iff problems_iff system_problems_def USBAutosuspendOff_def
        MaxUSBAutosuspend_def)
  then have "USBAutosuspend os fs' = Some ?n"
    if "fs AutosuspendParameter \<noteq> None" "\<not> ua_unreadable os AutosuspendParameter"
    using that result assms(4) by (intro parameter_read_back) (auto simp: wanted_def)
  then show ?thesis using result by simp
qed

text \<open>
  No device is told to suspend on a schedule nobody asked for: at every moment of the sweep, a
  device whose power control has been changed already has its new delay, unless that could not
  be set.
\<close>

theorem delay_is_set_before_control:
  fixes os fs seconds d n
  assumes "distinct ds"
  defines "during \<equiv> \<lambda>n. fst (usb_sweep os (take n (usb_wanted seconds ds)) (fs, None))"
  shows "during n (ControlOf d) \<noteq> fs (ControlOf d) \<longrightarrow>
    has_value (DelayOf d) (usb_delay seconds) (during n)
    \<or> fs (DelayOf d) = None \<or> \<not> takes_value os (DelayOf d) (usb_delay seconds) fs"
proof -
  let ?avs = "take n (usb_wanted seconds ds)"
  have dist: "distinct (map fst ?avs)"
    using usb_wanted_distinct [OF assms(1), of seconds] by (simp add: take_map [symmetric])
  have result: "(\<forall>x. x \<notin> fst ` set ?avs \<longrightarrow> during n x = fs x)
      \<and> (\<forall>(a, v) \<in> set ?avs. (fs a = None \<longleftrightarrow> during n a = None)
          \<and> (takes_value os a v fs \<and> fs a \<noteq> None \<longrightarrow> has_value a v (during n)))"
    using usb_sweep_result [OF dist, of os fs None "during n" "snd (usb_sweep os ?avs (fs, None))"]
    by (simp add: during_def)
  show ?thesis
  proof (cases "ControlOf d \<in> fst ` set ?avs")
    case True
    then obtain v where "(ControlOf d, v) \<in> set ?avs" by auto
    from delay_comes_first [OF this] show ?thesis using result by blast
  qed (use result in blast)
qed

text \<open>An adapter that is there, next to an interface that has no such attributes.\<close>

definition usb_demo :: sysfs where
  "usb_demo =
     [AutosuspendParameter \<mapsto> ''2'' @ [CHR 0x0A], DelayOf ''1-1'' \<mapsto> ''2000'' @ [CHR 0x0A],
      ControlOf ''1-1'' \<mapsto> ''auto'' @ [CHR 0x0A]]"

definition usb_plain :: usb_answers where
  "usb_plain = \<lparr>ua_unreadable = (\<lambda>_. False), ua_write_error = (\<lambda>_. None),
     ua_directory = Devices [''1-1'', ''1-1:1.0'']\<rparr>"

theorem usb_policy_reaches_every_device_witness:
  "USBAutosuspend usb_plain (fst (ApplyUSBPolicy usb_plain Default usb_demo)) = Some (- 1)
   \<and> snd (ApplyUSBPolicy usb_plain Default usb_demo) = None"
proof -
  have dist: "distinct [''1-1'', ''1-1:1.0'']" by simp
  have directory: "ua_directory usb_plain = Devices [''1-1'', ''1-1:1.0'']" by (simp add: usb_plain_def)
  have "takes_value usb_plain a v fs" for a v fs
    by (simp add: takes_value_def usb_plain_def split: option.splits)
  from usb_policy_reaches_every_device [OF Default_valid dist directory, OF this] this show ?thesis
    by (auto simp: usb_demo_def usb_plain_def Default_def USBAutosuspendOff_def)
qed

theorem delay_is_set_before_control_witness:
  "let now = fst (usb_sweep usb_plain (take 1 (usb_wanted (- 1) [''1-1''])) (usb_demo, None))
   in now (ControlOf ''1-1'') \<noteq> usb_demo (ControlOf ''1-1'') \<longrightarrow>
     has_value (DelayOf ''1-1'') (usb_delay (- 1)) now
     \<or> usb_demo (DelayOf ''1-1'') = None \<or> \<not> takes_value usb_plain (DelayOf ''1-1'') (usb_delay (- 1)) usb_demo"
proof -
  have "distinct [''1-1'']" by simp
  from delay_is_set_before_control [OF this] show ?thesis unfolding Let_def .
qed

end
