(* ===== verification/Appliance.thy ===== *)
theory Appliance
  imports Config_Store Usb_Policy
begin

text \<open>
  \<open>Apply\<close> of \<open>backend/internal/runtime/runtime.go\<close>: what the other programs of the appliance are
  given to read, generated from the configuration. Files are a map from names to contents, as in
  theory \<open>Config_Store\<close>; a write replaces the file or fails and leaves it.
\<close>

section \<open>The generated files\<close>

definition nl :: string where "nl = [CHR 0x0A]"

definition text_of :: "string list \<Rightarrow> string" where
  \<comment> \<open>lines, each with its line break\<close>
  "text_of ls = concat (map (\<lambda>l. l @ nl) ls)"

definition SetupAPPassword :: string where "SetupAPPassword = ''laserbridge-setup''"

fun wpaQuote :: "string \<Rightarrow> string" where
  "wpaQuote [] = []"
| "wpaQuote (c # s) =
     (if c = CHR 0x5C then CHR 0x5C # CHR 0x5C # wpaQuote s
      else if c = CHR 0x22 then CHR 0x5C # CHR 0x22 # wpaQuote s
      else c # wpaQuote s)"

definition boolInt :: "bool \<Rightarrow> int" where "boolInt b = (if b then 1 else 0)"

definition ser2net_lines :: "grbl_config \<Rightarrow> string list" where
  "ser2net_lines g =
     [''connection: &grbl'',
      ''  accepter: tcp,'' @ itoa (grbl_port g),
      ''  connector: serialdev,'' @ grbl_device g @ '','' @ itoa (grbl_baudrate g) @ ''n81,local'',
      ''  options:'',
      ''    max-connections: '' @ itoa (grbl_max_connections g),
      ''    kickolduser: '' @ bool_text (grbl_kick_old_user g)]"

definition sshd_lines :: "ssh_config \<Rightarrow> string list" where
  "sshd_lines h =
     [''Port 22'',
      ''ListenAddress 0.0.0.0'',
      ''HostKey /data/ssh/ssh_host_ed25519_key'',
      ''AuthorizedKeysFile /data/ssh/authorized_keys %h/.ssh/authorized_keys'',
      ''PermitRootLogin no'',
      ''PasswordAuthentication '' @ (if ssh_password h then ''yes'' else ''no''),
      ''KbdInteractiveAuthentication no'',
      ''PermitEmptyPasswords no'',
      ''AllowUsers laserbridge'',
      ''PidFile /run/sshd.pid'',
      ''Subsystem sftp internal-sftp'']"

definition network_mode :: "config \<Rightarrow> string" where
  "network_mode c =
     (if \<not> sys_setup_complete (cg_system c) then ''ap''
      else if wifi_enabled (cg_wifi c) then ''client''
      else ''ethernet'')"

definition ap_name :: "string option \<Rightarrow> string" where
  "ap_name file =
     (let s = trim_space (case file of None \<Rightarrow> [] | Some text \<Rightarrow> text)
      in if s = [] then ''LaserBridge-Setup'' else s)"

definition hostapd_lines :: "string \<Rightarrow> string \<Rightarrow> string list" where
  "hostapd_lines country ssid =
     [''country_code='' @ country, ''driver=nl80211'', ''ssid='' @ ssid, ''hw_mode=g'', ''channel=6'',
      ''wmm_enabled=1'', ''auth_algs=1'', ''wpa=2'', ''wpa_passphrase='' @ SetupAPPassword,
      ''wpa_key_mgmt=WPA-PSK'', ''rsn_pairwise=CCMP'']"

definition dnsmasq_lines :: "string list" where
  "dnsmasq_lines =
     [''bind-interfaces'', ''port=53'', ''no-resolv'',
      ''dhcp-leasefile=/run/laserbridge/dnsmasq.leases'',
      ''dhcp-range=10.42.0.10,10.42.0.100,255.255.255.0,12h'',
      ''dhcp-option=3,10.42.0.1'', ''dhcp-option=6,10.42.0.1'', ''address=/#/10.42.0.1'']"

definition wpa_lines :: "wifi_config \<Rightarrow> string list" where
  "wpa_lines w =
     [''country='' @ wifi_country w,
      ''ctrl_interface=/run/wpa_supplicant'',
      ''update_config=0'',
      ''network={'',
      ''  ssid='' @ [CHR 0x22] @ wpaQuote (wifi_ssid w) @ [CHR 0x22],
      ''  psk='' @ [CHR 0x22] @ wpaQuote (wifi_psk w) @ [CHR 0x22],
      ''  scan_ssid='' @ itoa (boolInt (wifi_hidden w)),
      ''}'']"

section \<open>Apply\<close>

text \<open>
  The appliance: the store, the files, the kernel's attributes and the commands run so far. The
  directories are those of the manager; the answers are the operating system's. A command that
  fails gives its error and its output.
\<close>

type_synonym runner = "string list \<Rightarrow> (string \<times> string) option"

record appliance =
  ap_store :: store
  ap_files :: files
  ap_sysfs :: sysfs
  ap_ran :: "string list list"

record manager =
  mg_dir :: string
  mg_data :: string
  mg_os :: os_answers
  mg_usb :: usb_answers
  mg_runner :: "runner option"

definition run_file :: "manager \<Rightarrow> string \<Rightarrow> string" where
  "run_file mg name = mg_dir mg @ ''/'' @ name"

definition ap_ssid_file :: "manager \<Rightarrow> string" where
  "ap_ssid_file mg = mg_data mg @ ''/setup/ap_ssid''"

definition rendered :: "manager \<Rightarrow> files \<Rightarrow> config \<Rightarrow> (string \<times> string) list" where
  "rendered mg fs c =
     [(run_file mg ''ser2net.yaml'', text_of (ser2net_lines (cg_grbl c))),
      (run_file mg ''sshd_config'', text_of (sshd_lines (cg_ssh c))),
      (run_file mg ''network-mode'', text_of [network_mode c]),
      (run_file mg ''hostapd.conf'',
         text_of (hostapd_lines (wifi_country (cg_wifi c)) (ap_name (fs (ap_ssid_file mg))))),
      (run_file mg ''dnsmasq.conf'', text_of dnsmasq_lines),
      (run_file mg ''wpa_supplicant.conf'', text_of (wpa_lines (cg_wifi c)))]"

datatype apply_error = LoadFailed store_error | DirectoryFailed string | FileFailed string string | HostnameFailed string string

fun write_files :: "os_answers \<Rightarrow> (string \<times> string) list \<Rightarrow> files \<Rightarrow> files \<times> apply_error option" where
  "write_files os [] fs = (fs, None)"
| "write_files os ((p, text) # rest) fs =
     (case os_write_error os p of
        Some e \<Rightarrow> (fs, Some (FileFailed p e))
      | None \<Rightarrow> write_files os rest (fs(p \<mapsto> text)))"

definition set_hostname :: "manager \<Rightarrow> string \<Rightarrow> string list list \<Rightarrow> string list list \<times> apply_error option" where
  "set_hostname mg name past =
     (case mg_runner mg of
        None \<Rightarrow> (past, None)
      | Some runs \<Rightarrow>
          (case runs [''hostname'', name] of
             Some (e, out) \<Rightarrow> (past @ [[''hostname'', name]], Some (HostnameFailed e out))
           | None \<Rightarrow> (past @ [[''hostname'', name]], None)))"

definition Apply :: "manager \<Rightarrow> appliance \<Rightarrow> appliance \<times> apply_error option" where
  "Apply mg a =
     (case Load (mg_os mg) (ap_store a, ap_files a) of
        Inl e \<Rightarrow> (a, Some (LoadFailed e))
      | Inr c \<Rightarrow>
          (case os_mkdir_error (mg_os mg) of
             Some e \<Rightarrow> (a, Some (DirectoryFailed e))
           | None \<Rightarrow>
               (case write_files (mg_os mg) (rendered mg (ap_files a) c) (ap_files a) of
                  (fs, Some e) \<Rightarrow> (a\<lparr>ap_files := fs\<rparr>, Some e)
                | (fs, None) \<Rightarrow>
                    (case set_hostname mg (sys_hostname (cg_system c)) (ap_ran a) of
                       (past, Some e) \<Rightarrow> (a\<lparr>ap_files := fs, ap_ran := past\<rparr>, Some e)
                     | (past, None) \<Rightarrow>
                         (a\<lparr>ap_files := fs, ap_ran := past,
                            ap_sysfs := fst (ApplyUSBPolicy (mg_usb mg) c (ap_sysfs a))\<rparr>, None)))))"

text \<open>The words of the errors.\<close>

definition yaml_error_text :: "yaml_error \<Rightarrow> string" where
  "yaml_error_text e =
     (case e of
        ExpectedSection n \<Rightarrow> ''line '' @ itoa (int n) @ '': expected section''
      | ExpectedIndentedKey n \<Rightarrow> ''line '' @ itoa (int n) @ '': expected a two-space-indented key''
      | ExpectedKeyValue n \<Rightarrow> ''line '' @ itoa (int n) @ '': expected key: value''
      | LineTooLong \<Rightarrow> ''bufio.Scanner: token too long'')"

definition store_error_text :: "store_error \<Rightarrow> string" where
  "store_error_text e =
     (case e of
        ReadError t \<Rightarrow> ''read config: '' @ t
      | ParseError (Malformed y) \<Rightarrow> ''parse config: '' @ yaml_error_text y
      | ParseError (Refused t) \<Rightarrow> ''parse config: '' @ t
      | WriteError t \<Rightarrow> t
      | NotSaved t \<Rightarrow> t)"

definition apply_error_text :: "apply_error \<Rightarrow> string" where
  "apply_error_text e =
     (case e of
        LoadFailed x \<Rightarrow> store_error_text x
      | DirectoryFailed t \<Rightarrow> t
      | FileFailed p t \<Rightarrow> t
      | HostnameFailed t out \<Rightarrow> ''set hostname: '' @ t @ '': '' @ trim_space out)"

section \<open>Facts\<close>

text \<open>The names the manager writes to are apart from each other and from those it reads.\<close>

definition run_names :: "manager \<Rightarrow> string list" where
  "run_names mg =
     map (run_file mg)
       [''ser2net.yaml'', ''sshd_config'', ''network-mode'', ''hostapd.conf'', ''dnsmasq.conf'',
        ''wpa_supplicant.conf'']"

definition apart :: "manager \<Rightarrow> store \<Rightarrow> bool" where
  "apart mg st \<longleftrightarrow>
     so_path st \<notin> set (run_names mg)
     \<and> ap_ssid_file mg \<notin> set (run_names mg)
     \<and> ap_ssid_file mg \<noteq> so_path st"

lemma rendered_names:
  "map fst (rendered mg fs c) = run_names mg"
  by (simp add: rendered_def run_names_def)

lemma rendered_distinct: "distinct (map fst (rendered mg fs c))"
  by (simp add: rendered_def run_file_def)

lemma rendered_length: "length (rendered mg fs c) = 6"
  by (simp add: rendered_def)

lemma rendered_cong: "fs (ap_ssid_file mg) = fs' (ap_ssid_file mg) \<Longrightarrow> rendered mg fs c = rendered mg fs' c"
  by (simp add: rendered_def)

lemma write_files_ok:
  "snd (write_files os ps fs) = None \<longleftrightarrow> (\<forall>p \<in> set ps. os_write_error os (fst p) = None)"
proof (induction ps arbitrary: fs)
  case (Cons p ps)
  obtain q t where p: "p = (q, t)" by fastforce
  have "snd (write_files os ps (fs(q \<mapsto> t))) = None \<longleftrightarrow> (\<forall>p \<in> set ps. os_write_error os (fst p) = None)"
    by (rule Cons.IH)
  then show ?case by (cases "os_write_error os q") (simp_all add: p)
qed simp

lemma write_files_fst:
  "fst (write_files os ps fs) = fs ++ map_of (rev (takeWhile (\<lambda>p. os_write_error os (fst p) = None) ps))"
proof (induction ps arbitrary: fs)
  case (Cons p ps)
  obtain q t where p: "p = (q, t)" by fastforce
  show ?case
  proof (cases "os_write_error os q")
    case None
    have "fst (write_files os (p # ps) fs) = fst (write_files os ps (fs(q \<mapsto> t)))"
      by (simp only: p write_files.simps None option.case)
    also have "\<dots> = fs(q \<mapsto> t) ++ map_of (rev (takeWhile (\<lambda>p. os_write_error os (fst p) = None) ps))"
      by (rule Cons.IH)
    finally show ?thesis by (simp only: p None takeWhile.simps fst_conv rev.simps map_of_append map_of.simps
      snd_conv refl if_True map_add_assoc map_add_upd map_add_empty)
  qed (simp add: p)
qed simp

text \<open>How far \<open>Apply\<close> gets depends on the names only, so a second call gets as far as the first.\<close>

definition reach :: "manager \<Rightarrow> nat" where
  "reach mg = length (takeWhile (\<lambda>p. os_write_error (mg_os mg) p = None) (run_names mg))"

lemma map_of_rev_take:
  assumes "distinct (map fst xs)"
  shows "map_of (rev (take n xs)) p = (if p \<in> set (take n (map fst xs)) then map_of xs p else None)"
proof (cases "p \<in> set (take n (map fst xs))")
  case True
  then obtain t where t: "(p, t) \<in> set (take n xs)" by (auto simp: take_map)
  have "distinct (map fst (rev (take n xs)))"
    using assms by (simp add: rev_map [symmetric] take_map [symmetric])
  then have "map_of (rev (take n xs)) p = Some t" using t by (simp add: map_of_eq_Some_iff)
  moreover have "map_of xs p = Some t" using t assms in_set_takeD by (fastforce simp: map_of_eq_Some_iff)
  ultimately show ?thesis using True by simp
next
  case False
  then have "map_of (rev (take n xs)) p = None" by (simp add: map_of_eq_None_iff take_map)
  with False show ?thesis by simp
qed

lemma rendered_value:
  "(fs ++ map_of (rev (take n (rendered mg fs0 c)))) p =
     (if p \<in> set (take n (run_names mg)) then map_of (rendered mg fs0 c) p else fs p)"
proof (cases "p \<in> set (take n (run_names mg))")
  case True
  then have "p \<in> fst ` set (rendered mg fs0 c)"
    using set_take_subset [of n "run_names mg"] rendered_names [of mg fs0 c] by (metis list.set_map subsetD)
  then have "map_of (rendered mg fs0 c) p \<noteq> None" by (simp add: map_of_eq_None_iff)
  with True show ?thesis
    by (auto simp: map_add_def map_of_rev_take [OF rendered_distinct] rendered_names split: option.split)
next
  case False
  then show ?thesis by (simp add: map_add_def map_of_rev_take [OF rendered_distinct] rendered_names)
qed

lemma written_names: "takeWhile (\<lambda>p. os_write_error (mg_os mg) (fst p) = None) (rendered mg fs c) =
    take (reach mg) (rendered mg fs c)"
proof -
  have "length (takeWhile (\<lambda>p. os_write_error (mg_os mg) (fst p) = None) (rendered mg fs c)) = reach mg"
    unfolding reach_def rendered_names [of mg fs c, symmetric] by (simp add: takeWhile_map o_def)
  then show ?thesis using takeWhile_eq_take by metis
qed

lemma Apply_files:
  assumes "Load (mg_os mg) (ap_store a, ap_files a) = Inr c" and "os_mkdir_error (mg_os mg) = None"
  shows "ap_files (fst (Apply mg a)) = ap_files a ++ map_of (rev (take (reach mg) (rendered mg (ap_files a) c)))"
  using write_files_fst [of "mg_os mg" "rendered mg (ap_files a) c" "ap_files a"] assms
  by (auto simp: Apply_def written_names split: option.splits prod.splits)

lemma Apply_files_kept:
  assumes "Load (mg_os mg) (ap_store a, ap_files a) = Inl e \<or> os_mkdir_error (mg_os mg) \<noteq> None"
  shows "ap_files (fst (Apply mg a)) = ap_files a"
  using assms by (auto simp: Apply_def split: sum.splits)

lemma Apply_store [simp]: "ap_store (fst (Apply mg a)) = ap_store a"
  by (simp add: Apply_def split: sum.splits option.splits prod.splits)

lemma Apply_other_files:
  "p \<notin> set (run_names mg) \<Longrightarrow> ap_files (fst (Apply mg a)) p = ap_files a p"
  using set_take_subset [of "reach mg" "run_names mg"]
  by (cases "Load (mg_os mg) (ap_store a, ap_files a)"; cases "os_mkdir_error (mg_os mg)")
    (auto simp: Apply_files Apply_files_kept rendered_value)

section \<open>Properties\<close>

definition in_force :: "manager \<Rightarrow> appliance \<Rightarrow> config \<Rightarrow> bool" where
  \<comment> \<open>the generated files are those of this configuration\<close>
  "in_force mg a c \<longleftrightarrow> (\<forall>(p, t) \<in> set (rendered mg (ap_files a) c). ap_files a p = Some t)"

lemma Load_cong: "fs (so_path st) = fs' (so_path st') \<Longrightarrow> Load os (st, fs) = Load os (st', fs')"
  by (simp only: Load_def prod.case)

lemma Load_parsed:
  assumes "os_read_error os = None" and "fs (so_path st) = Some data" and "ParseYAML data = Inr (c, warned)"
  shows "Load os (st, fs) = Inr c"
  by (simp add: Load_def assms)

lemma Apply_load_kept:
  assumes "apart mg (ap_store a)"
  shows "Load os (ap_store a, ap_files (fst (Apply mg a))) = Load os (ap_store a, ap_files a)"
    and "ap_files (fst (Apply mg a)) (ap_ssid_file mg) = ap_files a (ap_ssid_file mg)"
    and "rendered mg (ap_files (fst (Apply mg a))) c = rendered mg (ap_files a) c"
proof -
  show ssid: "ap_files (fst (Apply mg a)) (ap_ssid_file mg) = ap_files a (ap_ssid_file mg)"
    using assms by (intro Apply_other_files) (simp add: apart_def)
  show "Load os (ap_store a, ap_files (fst (Apply mg a))) = Load os (ap_store a, ap_files a)"
    using assms by (intro Load_cong Apply_other_files) (simp add: apart_def)
  show "rendered mg (ap_files (fst (Apply mg a))) c = rendered mg (ap_files a) c"
    by (rule rendered_cong) (rule ssid)
qed

lemma Apply_in_force:
  assumes "apart mg (ap_store a)" and "Apply mg a = (a', None)"
  shows "\<exists>c. Load (mg_os mg) (ap_store a, ap_files a) = Inr c
    \<and> Load (mg_os mg) (ap_store a', ap_files a') = Inr c
    \<and> in_force mg a' c
    \<and> (\<forall>p. p \<notin> fst ` set (rendered mg (ap_files a) c) \<longrightarrow> ap_files a' p = ap_files a p)
    \<and> (mg_runner mg \<noteq> None \<longrightarrow> ap_ran a' = ap_ran a @ [[''hostname'', sys_hostname (cg_system c)]])
    \<and> ap_sysfs a' = fst (ApplyUSBPolicy (mg_usb mg) c (ap_sysfs a))"
proof -
  have a': "a' = fst (Apply mg a)" by (simp add: assms(2))
  obtain c where c: "Load (mg_os mg) (ap_store a, ap_files a) = Inr c"
    using assms(2) by (auto simp: Apply_def split: sum.splits)
  let ?ps = "rendered mg (ap_files a) c"
  have dir: "os_mkdir_error (mg_os mg) = None"
    using assms(2) c by (auto simp: Apply_def split: option.splits)
  obtain fs r where w: "write_files (mg_os mg) ?ps (ap_files a) = (fs, r)" by fastforce
  have r: "r = None" and rest: "ap_sysfs a' = fst (ApplyUSBPolicy (mg_usb mg) c (ap_sysfs a))"
      "mg_runner mg \<noteq> None \<longrightarrow> ap_ran a' = ap_ran a @ [[''hostname'', sys_hostname (cg_system c)]]"
    using assms(2) c w by (auto simp: Apply_def set_hostname_def split: option.splits prod.splits)
  have "\<forall>p \<in> set (map fst ?ps). os_write_error (mg_os mg) p = None"
    using write_files_ok [of "mg_os mg" ?ps "ap_files a"] by (simp add: w r)
  then have "\<forall>p \<in> set (run_names mg). os_write_error (mg_os mg) p = None"
    unfolding rendered_names .
  then have "takeWhile (\<lambda>p. os_write_error (mg_os mg) p = None) (run_names mg) = run_names mg"
    by (simp add: takeWhile_eq_all_conv)
  then have all: "take (reach mg) (run_names mg) = run_names mg"
    unfolding reach_def by (simp only: take_all_iff le_refl)
  have files: "ap_files a' p = (if p \<in> set (run_names mg) then map_of ?ps p else ap_files a p)" for p
    unfolding a' Apply_files [OF c dir] rendered_value all ..
  have "ap_files a' p = Some t" if "(p, t) \<in> set ?ps" for p t
  proof -
    have "p \<in> set (run_names mg)"
      using that rendered_names [of mg "ap_files a" c] by (metis fst_conv image_eqI list.set_map)
    moreover have "map_of ?ps p = Some t" using that rendered_distinct by (simp add: map_of_eq_Some_iff)
    ultimately show ?thesis by (simp add: files)
  qed
  then have "in_force mg a' c" unfolding in_force_def a' Apply_load_kept(3) [OF assms(1)] by blast
  moreover have "ap_files a' p = ap_files a p" if "p \<notin> fst ` set ?ps" for p
    using that rendered_names [of mg "ap_files a" c] by (metis files list.set_map)
  moreover have "Load (mg_os mg) (ap_store a', ap_files a') = Inr c"
    using Apply_load_kept(1) [OF assms(1), of "mg_os mg"] c by (simp add: a')
  ultimately show ?thesis using c rest by blast
qed

text \<open>
  Applying puts the stored configuration in force. When it reports no error, every program's file
  is the one generated from what is stored, the host name has been set, the kernel has been told
  about USB - whose refusal is not an error of \<open>Apply\<close> - and neither the stored configuration nor
  any other file has changed.
\<close>

theorem apply_puts_in_force:
  assumes "apart mg (ap_store a)" and "Apply mg a = (a', None)"
  shows "\<exists>c. Load (mg_os mg) (ap_store a, ap_files a) = Inr c
    \<and> Load (mg_os mg) (ap_store a', ap_files a') = Inr c
    \<and> in_force mg a' c
    \<and> (\<forall>p. p \<notin> fst ` set (rendered mg (ap_files a) c) \<longrightarrow> ap_files a' p = ap_files a p)
    \<and> (mg_runner mg \<noteq> None \<longrightarrow> ap_ran a' = ap_ran a @ [[''hostname'', sys_hostname (cg_system c)]])
    \<and> ap_sysfs a' = fst (ApplyUSBPolicy (mg_usb mg) c (ap_sysfs a))"
  by (rule Apply_in_force [OF assms])

lemma wpaQuote_newline: "CHR 0x0A \<in> set (wpaQuote s) \<longleftrightarrow> CHR 0x0A \<in> set s"
  by (induction s) auto

lemma valid_no_newline:
  assumes "Validate c = None"
  shows "CHR 0x0A \<notin> set (grbl_device (cg_grbl c))" "CHR 0x0A \<notin> set (wifi_country (cg_wifi c))"
    "CHR 0x0A \<notin> set (wifi_ssid (cg_wifi c))"
    "wifi_enabled (cg_wifi c) \<Longrightarrow> CHR 0x0A \<notin> set (wifi_psk (cg_wifi c))"
proof -
  have p: "grbl_problems (cg_grbl c) = []" "wifi_problems (cg_wifi c) = []"
    using assms by (simp_all add: Validate_iff problems_iff)
  show "CHR 0x0A \<notin> set (grbl_device (cg_grbl c))"
    using p(1) by (auto simp: grbl_problems_def validDevice_def contains_any_def control_bytes_def list_ex_iff)
  show "CHR 0x0A \<notin> set (wifi_country (cg_wifi c))"
    using p(2) by (auto simp: wifi_problems_def country_matches_def list_all_iff)
  show "CHR 0x0A \<notin> set (wifi_ssid (cg_wifi c))"
    "wifi_enabled (cg_wifi c) \<Longrightarrow> CHR 0x0A \<notin> set (wifi_psk (cg_wifi c))"
    using p(2) by (auto simp: wifi_problems_def contains_any_def control_bytes_def list_ex_iff)
qed

lemma scan_text_of: "\<forall>l \<in> set ls. CHR 0x0A \<notin> set l \<Longrightarrow> scan_lines (text_of ls) = ls"
  by (simp add: text_of_def nl_def scan_terminated)

text \<open>
  No setting writes a line of its own into a generated file: for a valid configuration with
  Wi-Fi switched on, each file, read line by line, is the lines it was composed of, so a device
  name, a network name or a passphrase cannot add a setting to \<open>sshd\<close>, \<open>ser2net\<close>, \<open>hostapd\<close> or
  \<open>wpa_supplicant\<close>. Root never logs in, and whether a password does is what is configured.
\<close>

theorem settings_stay_in_their_lines:
  assumes "Validate c = None" and "wifi_enabled (cg_wifi c)" and "CHR 0x0A \<notin> set ssid"
  shows "scan_lines (text_of (ser2net_lines (cg_grbl c))) = ser2net_lines (cg_grbl c)
    \<and> scan_lines (text_of (sshd_lines (cg_ssh c))) = sshd_lines (cg_ssh c)
    \<and> scan_lines (text_of (hostapd_lines (wifi_country (cg_wifi c)) ssid))
        = hostapd_lines (wifi_country (cg_wifi c)) ssid
    \<and> scan_lines (text_of (wpa_lines (cg_wifi c))) = wpa_lines (cg_wifi c)
    \<and> ''PermitRootLogin no'' \<in> set (sshd_lines (cg_ssh c))
    \<and> (''PasswordAuthentication yes'' \<in> set (sshd_lines (cg_ssh c)) \<longleftrightarrow> ssh_password (cg_ssh c))"
proof -
  note valid = valid_no_newline [OF assms(1)] valid_no_newline(4) [OF assms(1,2)]
  have "scan_lines (text_of (ser2net_lines (cg_grbl c))) = ser2net_lines (cg_grbl c)"
    using valid by (intro scan_text_of) (simp add: ser2net_lines_def itoa_no_newline bool_no_newline)
  moreover have "scan_lines (text_of (sshd_lines (cg_ssh c))) = sshd_lines (cg_ssh c)"
    by (intro scan_text_of) (simp add: sshd_lines_def)
  moreover have "scan_lines (text_of (hostapd_lines (wifi_country (cg_wifi c)) ssid))
      = hostapd_lines (wifi_country (cg_wifi c)) ssid"
    using valid assms(3) by (intro scan_text_of) (simp add: hostapd_lines_def SetupAPPassword_def)
  moreover have "scan_lines (text_of (wpa_lines (cg_wifi c))) = wpa_lines (cg_wifi c)"
    using valid by (intro scan_text_of) (simp add: wpa_lines_def itoa_no_newline wpaQuote_newline)
  ultimately show ?thesis by (simp add: sshd_lines_def)
qed

text \<open>While Wi-Fi is off nothing looks at the passphrase, and a line break in it gets through.\<close>

lemma passphrase_unchecked_while_off:
  "let c = Default\<lparr>cg_wifi := (cg_wifi Default)\<lparr>wifi_psk := ''x'' @ nl @ ''y''\<rparr>\<rparr>
   in Validate c = None \<and> scan_lines (text_of (wpa_lines (cg_wifi c))) \<noteq> wpa_lines (cg_wifi c)"
  by code_simp

definition workshop :: config where
  "workshop = Default\<lparr>cg_wifi := \<lparr>wifi_enabled = True, wifi_ssid = ''shop'', wifi_psk = ''sawdust1'',
     wifi_country = ''DE'', wifi_hidden = False\<rparr>\<rparr>"

theorem settings_stay_in_their_lines_witness:
  "scan_lines (text_of (wpa_lines (cg_wifi workshop))) = wpa_lines (cg_wifi workshop)"
proof -
  have "Validate workshop = None" by code_simp
  moreover have "wifi_enabled (cg_wifi workshop)" by (simp add: workshop_def)
  moreover have "CHR 0x0A \<notin> set ''LaserBridge-Setup''" by simp
  ultimately show ?thesis using settings_stay_in_their_lines by blast
qed

definition plain_manager :: manager where
  "plain_manager =
     \<lparr>mg_dir = ''/run/laserbridge'', mg_data = ''/data'', mg_os = quiet_os, mg_usb = usb_plain,
      mg_runner = Some (\<lambda>_. None)\<rparr>"

definition appliance_with :: "string \<Rightarrow> appliance" where
  "appliance_with data =
     \<lparr>ap_store = \<lparr>so_path = ''/data/config.yaml'', so_notes = []\<rparr>,
      ap_files = [''/data/config.yaml'' \<mapsto> data], ap_sysfs = usb_demo, ap_ran = []\<rparr>"

lemma Load_saved:
  assumes "storable table c"
  obtains data where "MarshalYAML table c = Inr data" "Load quiet_os (ap_store (appliance_with data), ap_files (appliance_with data)) = Inr c"
proof -
  obtain data where "MarshalYAML table c = Inr data" "ParseYAML data = Inr (c, [])"
    using assms written_config_read unfolding storable_def by blast
  moreover from this have "Load quiet_os (ap_store (appliance_with data), ap_files (appliance_with data)) = Inr c"
    by (intro Load_parsed) (simp_all add: appliance_with_def quiet_os_def)
  ultimately show thesis using that by blast
qed

lemma plain_apart: "apart plain_manager (ap_store (appliance_with data))"
  by (simp add: apart_def run_names_def run_file_def ap_ssid_file_def plain_manager_def appliance_with_def)

lemma plain_Apply:
  assumes "Load quiet_os (ap_store a, ap_files a) = Inr c"
  shows "snd (Apply plain_manager a) = None"
  using assms
  by (simp add: Apply_def plain_manager_def quiet_os_def set_hostname_def rendered_def)

theorem apply_puts_in_force_witness:
  "\<exists>data. in_force plain_manager (fst (Apply plain_manager (appliance_with data))) Default"
proof -
  obtain data where data: "Load quiet_os (ap_store (appliance_with data), ap_files (appliance_with data)) = Inr Default"
    using Load_saved [OF Default_storable [of "\<lambda>_. True"]] by blast
  have "Apply plain_manager (appliance_with data) = (fst (Apply plain_manager (appliance_with data)), None)"
    using plain_Apply [OF data] by (metis prod.collapse)
  from apply_puts_in_force [OF plain_apart this] data show ?thesis
    by (auto simp: plain_manager_def)
qed

end
