(* ===== verification/Api_Config.thy ===== *)
theory Api_Config
  imports Appliance Api_Guards Update
begin

text \<open>
  The configuration endpoints of \<open>backend/internal/api/server.go\<close>: reading and replacing the
  configuration, which services that restarts, and the guard in front of every request that
  changes something. A request is what the handler reads of it - the decoded body, the headers
  it asks for - and an answer is its status with what it carries. The mutex of the server makes
  each handler one step.
\<close>

section \<open>The server\<close>

text \<open>
  The manager, whether there is one, which runes are printable (for the file), and SHA-256. The
  program builds the server with a manager; only its tests do without.
\<close>

record web_server =
  ws_manager :: manager
  ws_has_runtime :: bool
  ws_printable :: "nat \<Rightarrow> bool"
  ws_sha256 :: "string \<Rightarrow> string"

abbreviation ws_os :: "web_server \<Rightarrow> os_answers" where
  "ws_os ws \<equiv> mg_os (ws_manager ws)"

datatype reply =
    Failure int string
  | Busy refusal
  | ConfigReply string config
  | ConfigSaved string config "string list"
  | Done int string

definition stored :: "web_server \<Rightarrow> appliance \<Rightarrow> store_error + config" where
  "stored ws a = Load (ws_os ws) (ap_store a, ap_files a)"

definition save_config :: "web_server \<Rightarrow> config \<Rightarrow> appliance \<Rightarrow> appliance \<times> store_error option" where
  "save_config ws c a =
     (case Save (ws_printable ws) (ws_os ws) c (ap_store a, ap_files a) of
        ((st, fs), e) \<Rightarrow> (a\<lparr>ap_store := st, ap_files := fs\<rparr>, e))"

datatype save_outcome = Saved | SaveFailed store_error | ApplyFailed apply_error

text \<open>
  How three handlers put a configuration in force, and take it back when that fails: save,
  apply; on an error of \<open>Apply\<close> save the previous one, undo what else was done, apply again.
\<close>

definition save_and_apply ::
    "web_server \<Rightarrow> config \<Rightarrow> config \<Rightarrow> (appliance \<Rightarrow> appliance) \<Rightarrow> appliance \<Rightarrow> appliance \<times> save_outcome" where
  "save_and_apply ws previous next_config undo a =
     (case save_config ws next_config a of
        (a1, Some e) \<Rightarrow> (undo a1, SaveFailed e)
      | (a1, None) \<Rightarrow>
          if \<not> ws_has_runtime ws then (a1, Saved)
          else
            (case Apply (ws_manager ws) a1 of
               (a2, None) \<Rightarrow> (a2, Saved)
             | (a2, Some e) \<Rightarrow>
                 (fst (Apply (ws_manager ws) (undo (fst (save_config ws previous a2)))), ApplyFailed e)))"

section \<open>Reading\<close>

definition configETag :: "web_server \<Rightarrow> config \<Rightarrow> string" where
  "configETag ws c =
     (case MarshalYAML (ws_printable ws) c of
        Inl _ \<Rightarrow> []
      | Inr data \<Rightarrow> [CHR 0x22] @ hex_text (take 8 (ws_sha256 ws data)) @ [CHR 0x22])"

definition getConfig :: "web_server \<Rightarrow> appliance \<Rightarrow> reply" where
  "getConfig ws a =
     (case stored ws a of
        Inl e \<Rightarrow> Failure 500 (store_error_text e)
      | Inr c \<Rightarrow> ConfigReply (configETag ws c) c)"

section \<open>Services\<close>

definition changedServices :: "config \<Rightarrow> config \<Rightarrow> string list" where
  "changedServices a b =
     (if cg_grbl a \<noteq> cg_grbl b then [''ser2net'', ''laserbridged''] else [])
     @ (if cg_camera a \<noteq> cg_camera b then [''ustreamer''] else [])
     @ (if cg_ssh a \<noteq> cg_ssh b then [''sshd''] else [])
     @ (if sys_hostname (cg_system a) \<noteq> sys_hostname (cg_system b) then [''avahi-daemon''] else [])"

definition desiredAction :: "string \<Rightarrow> config \<Rightarrow> string" where
  "desiredAction service c =
     (if service = ''sshd'' \<and> \<not> ssh_enabled (cg_ssh c) then ''stop''
      else if (service = ''ser2net'' \<or> service = ''laserbridged'') \<and> grbl_backend (cg_grbl c) \<noteq> service
        then ''stop''
      else ''restart'')"

definition service_call :: "config \<Rightarrow> string \<Rightarrow> string list" where
  "service_call c s = [''rc-service'', s, desiredAction s c]"

definition run_services :: "runner \<Rightarrow> config \<Rightarrow> string list \<Rightarrow> string list" where
  \<comment> \<open>the warnings: a service whose command failed, with its output\<close>
  "run_services runs c services =
     concat (map (\<lambda>s. case runs (service_call c s) of
                        None \<Rightarrow> []
                      | Some (_, out) \<Rightarrow> [s @ '': '' @ trim_space out]) services)"

section \<open>Replacing the configuration\<close>

record config_request =
  cr_body :: "string + config"
  cr_if_match :: string
  cr_force :: string

definition kept_fields :: "config \<Rightarrow> config \<Rightarrow> config" where
  \<comment> \<open>what the general document may not overwrite\<close>
  "kept_fields previous c =
     c\<lparr>cg_system := (cg_system c)\<lparr>sys_setup_complete := sys_setup_complete (cg_system previous)\<rparr>,
       cg_wifi := cg_wifi previous\<rparr>"

definition config_guard :: "config_request \<Rightarrow> status option \<Rightarrow> config \<Rightarrow> config \<Rightarrow> refusal option" where
  \<comment> \<open>the two questions whether the machine is busy\<close>
  "config_guard rq bridge previous c =
     (let ask = (\<lambda>what. refuseWhileBusy (cr_force rq) what (Some (grbl_backend (cg_grbl previous))) bridge);
          usb = sys_usb_autosuspend (cg_system c)
      in case (if cg_grbl previous \<noteq> cg_grbl c then ask ''not restarting the bridge'' else None) of
           Some r \<Rightarrow> Some r
         | None \<Rightarrow>
             (if 0 \<le> usb \<and> usb \<noteq> sys_usb_autosuspend (cg_system previous)
              then ask ''not allowing the kernel to suspend USB devices'' else None))"

definition putConfig ::
    "web_server \<Rightarrow> status option \<Rightarrow> config_request \<Rightarrow> appliance \<Rightarrow> appliance \<times> reply" where
  "putConfig ws bridge rq a =
     (case cr_body rq of
        Inl e \<Rightarrow> (a, Failure 400 e)
      | Inr body \<Rightarrow>
          (case stored ws a of
             Inl e \<Rightarrow> (a, Failure 500 (store_error_text e))
           | Inr previous \<Rightarrow>
               if cr_if_match rq \<noteq> [] \<and> cr_if_match rq \<noteq> configETag ws previous then
                 (a, Failure 412 ''the configuration changed somewhere else since this page loaded; reload it before saving'')
               else
                 (let c = kept_fields previous body
                  in case Validate c of
                       Some e \<Rightarrow> (a, Failure 422 e)
                     | None \<Rightarrow>
                         (case config_guard rq bridge previous c of
                            Some r \<Rightarrow> (a, Busy r)
                          | None \<Rightarrow>
                              (case save_and_apply ws previous c (\<lambda>x. x) a of
                                 (a', SaveFailed e) \<Rightarrow> (a', Failure 500 (''save failed: '' @ store_error_text e))
                               | (a', ApplyFailed e) \<Rightarrow> (a', Failure 500 (''apply failed; previous config restored: '' @ apply_error_text e))
                               | (a', Saved) \<Rightarrow>
                                   (let services = changedServices previous c
                                    in case mg_runner (ws_manager ws) of
                                         None \<Rightarrow> (a', ConfigSaved (configETag ws c) c [])
                                       | Some runs \<Rightarrow>
                                           (a'\<lparr>ap_ran := ap_ran a' @ map (service_call c) services\<rparr>,
                                            ConfigSaved (configETag ws c) c (run_services runs c services))))))))"

section \<open>Facts\<close>

lemma save_config_cases:
  obtains (failed) e where "save_config ws c a = (a, Some e)"
  | (written) data where "MarshalYAML (ws_printable ws) c = Inr data" "os_mkdir_error (ws_os ws) = None"
      "os_write_error (ws_os ws) (so_path (ap_store a)) = None"
      "save_config ws c a = (a\<lparr>ap_store := (ap_store a)\<lparr>so_notes := []\<rparr>,
         ap_files := (ap_files a)(so_path (ap_store a) \<mapsto> data)\<rparr>, None)"
proof (cases "snd (save_config ws c a)")
  case None
  then show thesis
    using written by (auto simp: save_config_def Save_def saveLocked_def split: sum.splits option.splits)
next
  case (Some e)
  have "save_config ws c a = (a, Some e)"
    using Some by (auto simp: save_config_def Save_def saveLocked_def split: sum.splits option.splits)
  then show thesis by (rule failed)
qed

lemma saved_is_stored:
  assumes "storable (ws_printable ws) c" and "save_config ws c a = (a', None)" and "os_read_error (ws_os ws) = None"
  shows "stored ws a' = Inr c"
proof -
  obtain st fs where r: "saveLocked (ws_printable ws) (ws_os ws) c (ap_store a, ap_files a) = ((st, fs), None)"
      "a' = a\<lparr>ap_store := st, ap_files := fs\<rparr>"
    using assms(2) by (auto simp: save_config_def Save_def split: prod.splits)
  show ?thesis using saved_loads [OF assms(1) r(1) assms(3)] by (simp add: stored_def r(2))
qed

lemma stored_valid: "stored ws a = Inr c \<Longrightarrow> Validate c = None"
  by (auto simp: stored_def Load_def ParseYAML_def split: option.splits sum.splits)

lemma stored_readable: "stored ws a = Inr c \<Longrightarrow> os_read_error (ws_os ws) = None"
  by (simp add: stored_def Load_def split: option.splits)

lemma apart_notes [simp]: "apart mg (st\<lparr>so_notes := ns\<rparr>) \<longleftrightarrow> apart mg st"
  by (simp add: apart_def)

lemma Load_notes [simp]: "Load os (st\<lparr>so_notes := ns\<rparr>, fs) = Load os (st, fs)"
  by (rule Load_cong) simp

lemma stored_Apply:
  "apart (ws_manager ws) (ap_store a) \<Longrightarrow> stored ws (fst (Apply (ws_manager ws) a)) = stored ws a"
  by (simp add: stored_def Apply_load_kept(1))

text \<open>A configuration that could be put in force is the stored one.\<close>

lemma saved_outcome:
  assumes "apart (ws_manager ws) (ap_store a)" and "storable (ws_printable ws) c"
    and "os_read_error (ws_os ws) = None" and "save_and_apply ws previous c undo a = (a', Saved)"
  shows "stored ws a' = Inr c"
proof (cases rule: save_config_cases [of ws c a])
  case (failed e)
  then show ?thesis using assms(4) by (simp add: save_and_apply_def)
next
  case (written data)
  let ?a1 = "fst (save_config ws c a)"
  have "stored ws ?a1 = Inr c"
    by (rule saved_is_stored [OF assms(2) _ assms(3), of a]) (simp add: written(4))
  moreover have "apart (ws_manager ws) (ap_store ?a1)" using assms(1) by (simp add: written(4))
  moreover have "a' = ?a1 \<or> a' = fst (Apply (ws_manager ws) ?a1)"
    using assms(4) by (auto simp: save_and_apply_def written(4) split: if_splits prod.splits option.splits)
  ultimately show ?thesis using stored_Apply [of ws ?a1] by auto
qed

text \<open>
  One that could not be is taken back: what was in force before is in force again.
\<close>

definition harmless :: "manager \<Rightarrow> store \<Rightarrow> (appliance \<Rightarrow> appliance) \<Rightarrow> bool" where
  "harmless mg st undo \<longleftrightarrow>
     (\<forall>a. ap_store (undo a) = ap_store a
       \<and> (\<forall>p \<in> insert (so_path st) (insert (ap_ssid_file mg) (set (run_names mg))).
            ap_files (undo a) p = ap_files a p))"

lemma in_force_iff:
  "in_force mg a c \<longleftrightarrow> (\<forall>p \<in> set (run_names mg). ap_files a p = map_of (rendered mg (ap_files a) c) p)"
proof -
  let ?ps = "rendered mg (ap_files a) c"
  have names: "set (run_names mg) = fst ` set ?ps" using rendered_names [of mg "ap_files a" c] by (metis list.set_map)
  have at: "(p, t) \<in> set ?ps \<longleftrightarrow> map_of ?ps p = Some t" for p t
    using rendered_distinct by (simp add: map_of_eq_Some_iff)
  show ?thesis unfolding in_force_def names by (force simp: at)
qed

lemma taken_back:
  assumes apart: "apart (ws_manager ws) (ap_store a)" and before: "stored ws a = Inr previous"
    and force: "in_force (ws_manager ws) a previous" and storable: "storable (ws_printable ws) previous"
    and harmless: "harmless (ws_manager ws) (ap_store a) undo"
    and failed: "save_and_apply ws previous c undo a = (a', ApplyFailed e)"
  shows "stored ws a' = Inr previous \<and> in_force (ws_manager ws) a' previous"
proof -
  let ?mg = "ws_manager ws" and ?path = "so_path (ap_store a)"
  let ?a1 = "fst (save_config ws c a)"
  let ?a2 = "fst (Apply ?mg ?a1)"
  obtain a3 where a3: "a3 = undo (fst (save_config ws previous ?a2))" by blast
  obtain d1 where d1: "os_mkdir_error (ws_os ws) = None" "os_write_error (ws_os ws) ?path = None"
      "save_config ws c a = (a\<lparr>ap_store := (ap_store a)\<lparr>so_notes := []\<rparr>, ap_files := (ap_files a)(?path \<mapsto> d1)\<rparr>, None)"
    using failed by (cases rule: save_config_cases [of ws c a]) (auto simp: save_and_apply_def)
  have a': "a' = fst (Apply ?mg a3)"
    using failed d1(3) by (auto simp: a3 save_and_apply_def split: if_splits prod.splits option.splits)
  obtain d2 where marshal: "MarshalYAML (ws_printable ws) previous = Inr d2"
    using storable written_config_read unfolding storable_def by blast
  have st2: "ap_store ?a2 = (ap_store a)\<lparr>so_notes := []\<rparr>" by (simp add: d1(3))
  then have saved: "save_config ws previous ?a2 =
      (?a2\<lparr>ap_store := (ap_store a)\<lparr>so_notes := []\<rparr>, ap_files := (ap_files ?a2)(?path \<mapsto> d2)\<rparr>, None)"
    using marshal d1(1,2) by (simp add: save_config_def Save_def saveLocked_def)
  have undone: "ap_store a3 = (ap_store a)\<lparr>so_notes := []\<rparr>"
      "p = ?path \<or> p = ap_ssid_file ?mg \<or> p \<in> set (run_names ?mg) \<Longrightarrow>
        ap_files a3 p = ((ap_files ?a2)(?path \<mapsto> d2)) p" for p
    using harmless by (auto simp: harmless_def saved a3)
  have "stored ws (fst (save_config ws previous ?a2)) = Inr previous"
    by (rule saved_is_stored [OF storable _ stored_readable [OF before], of ?a2]) (simp add: saved)
  moreover have "stored ws a3 = stored ws (fst (save_config ws previous ?a2))"
    unfolding stored_def using undone(2) [of ?path] by (intro Load_cong) (simp add: saved undone(1))
  ultimately have load3: "stored ws a3 = Inr previous" by simp
  have apart3: "apart ?mg (ap_store a3)" using apart by (simp add: undone(1))
  have clear: "?path \<notin> set (run_names ?mg)" "ap_ssid_file ?mg \<notin> set (run_names ?mg)" "ap_ssid_file ?mg \<noteq> ?path"
    using apart by (simp_all add: apart_def)
  have ssid: "ap_files a3 (ap_ssid_file ?mg) = ap_files a (ap_ssid_file ?mg)"
    using clear undone(2) [of "ap_ssid_file ?mg"] by (simp add: Apply_other_files d1(3))
  have same: "rendered ?mg (ap_files a3) previous = rendered ?mg (ap_files a) previous"
    by (rule rendered_cong) (rule ssid)
  have fourth: "ap_files a' p = (if p \<in> set (take (reach ?mg) (run_names ?mg))
      then map_of (rendered ?mg (ap_files a) previous) p else ap_files a3 p)" for p
    using load3 d1(1) unfolding a' stored_def by (simp add: Apply_files rendered_value same)
  have second: "ap_files ?a2 p = ap_files ?a1 p" if "p \<notin> set (take (reach ?mg) (run_names ?mg))" for p
    using that d1(1)
    by (cases "Load (mg_os ?mg) (ap_store ?a1, ap_files ?a1)") (simp_all add: Apply_files Apply_files_kept rendered_value)
  have "ap_files a' p = map_of (rendered ?mg (ap_files a) previous) p" if p: "p \<in> set (run_names ?mg)" for p
  proof (cases "p \<in> set (take (reach ?mg) (run_names ?mg))")
    case False
    have "p \<noteq> ?path" using clear(1) p by blast
    then have "ap_files a' p = ap_files a p"
      using False second [OF False] undone(2) [of p] p by (simp add: fourth d1(3))
    then show ?thesis using force p unfolding in_force_iff by simp
  qed (simp add: fourth)
  moreover have "rendered ?mg (ap_files a') previous = rendered ?mg (ap_files a) previous"
    unfolding a' Apply_load_kept(3) [OF apart3] same ..
  ultimately have "in_force ?mg a' previous" unfolding in_force_iff by simp
  moreover have "stored ws a' = Inr previous" unfolding a' stored_Apply [OF apart3] load3 ..
  ultimately show ?thesis by blast
qed

text \<open>What a request to replace the configuration comes to.\<close>

lemma putConfig_cases:
  assumes "putConfig ws bridge rq a = (a', r)"
  obtains (refused) "a' = a" "\<forall>t c w. r \<noteq> ConfigSaved t c w"
  | (tried) body previous c where "cr_body rq = Inr body" "stored ws a = Inr previous"
      "cr_if_match rq = [] \<or> cr_if_match rq = configETag ws previous"
      "c = kept_fields previous body" "Validate c = None" "config_guard rq bridge previous c = None"
      "(\<exists>e. save_and_apply ws previous c (\<lambda>x. x) a = (a', SaveFailed e))
         \<or> (\<exists>e. save_and_apply ws previous c (\<lambda>x. x) a = (a', ApplyFailed e))"
      "\<forall>t c w. r \<noteq> ConfigSaved t c w"
  | (saved) body previous c a1 w where "cr_body rq = Inr body" "stored ws a = Inr previous"
      "cr_if_match rq = [] \<or> cr_if_match rq = configETag ws previous"
      "c = kept_fields previous body" "Validate c = None" "config_guard rq bridge previous c = None"
      "save_and_apply ws previous c (\<lambda>x. x) a = (a1, Saved)" "r = ConfigSaved (configETag ws c) c w"
      "a' = (case mg_runner (ws_manager ws) of None \<Rightarrow> a1
         | Some _ \<Rightarrow> a1\<lparr>ap_ran := ap_ran a1 @ map (service_call c) (changedServices previous c)\<rparr>)"
proof (cases "cr_body rq")
  case (Inl e)
  then show thesis using assms refused by (auto simp: putConfig_def)
next
  case body: (Inr body)
  show thesis
  proof (cases "stored ws a")
    case (Inl e)
    then show thesis using assms refused body by (auto simp: putConfig_def)
  next
    case prev: (Inr previous)
    let ?c = "kept_fields previous body"
    let ?go = "(cr_if_match rq = [] \<or> cr_if_match rq = configETag ws previous) \<and> Validate ?c = None
        \<and> config_guard rq bridge previous ?c = None"
    show thesis
    proof (cases ?go)
      case False
      then have "a' = a \<and> (\<forall>t c w. r \<noteq> ConfigSaved t c w)"
        using assms body prev by (auto simp: putConfig_def Let_def split: if_splits option.splits)
      then show thesis using refused by blast
    next
      case True
      obtain a1 outcome where run: "save_and_apply ws previous ?c (\<lambda>x. x) a = (a1, outcome)" by fastforce
      show thesis
      proof (cases outcome)
        case Saved
        obtain w where "r = ConfigSaved (configETag ws ?c) ?c w"
            "a' = (case mg_runner (ws_manager ws) of None \<Rightarrow> a1
               | Some _ \<Rightarrow> a1\<lparr>ap_ran := ap_ran a1 @ map (service_call ?c) (changedServices previous ?c)\<rparr>)"
          using assms body prev True run Saved
          by (cases "mg_runner (ws_manager ws)") (auto simp: putConfig_def Let_def split: if_splits)
        then show thesis using True run Saved by (intro saved [OF body prev _ refl]) simp_all
      qed (use assms body prev True run in
          \<open>(intro tried; auto simp: putConfig_def Let_def split: if_splits)+\<close>)
    qed
  qed
qed

section \<open>Properties\<close>

text \<open>
  A change of the configuration happens or it does not. Whatever keeps a request from being
  carried out - its body, a stale tag, a busy machine, the disk, a program that would not take
  its settings - the configuration stored before is stored after, and the files the other
  programs read are still, or again, those of that configuration.
\<close>

theorem refused_change_changes_nothing:
  assumes "apart (ws_manager ws) (ap_store a)" and "stored ws a = Inr previous"
    and "in_force (ws_manager ws) a previous" and "storable (ws_printable ws) previous"
    and "putConfig ws bridge rq a = (a', r)" and "\<nexists>t c w. r = ConfigSaved t c w"
  shows "stored ws a' = Inr previous \<and> in_force (ws_manager ws) a' previous"
  using assms(5)
proof (cases rule: putConfig_cases)
  case (tried body prev c)
  have harmless: "harmless (ws_manager ws) (ap_store a) (\<lambda>x. x)" by (simp add: harmless_def)
  from tried(7) show ?thesis
  proof
    assume "\<exists>e. save_and_apply ws prev c (\<lambda>x. x) a = (a', SaveFailed e)"
    then have "a' = a"
      by (cases rule: save_config_cases [of ws c a])
        (auto simp: save_and_apply_def split: if_splits prod.splits option.splits)
    with assms(2,3) show ?thesis by simp
  next
    assume "\<exists>e. save_and_apply ws prev c (\<lambda>x. x) a = (a', ApplyFailed e)"
    with tried(2) assms(2) show ?thesis using taken_back [OF assms(1-4) harmless] by auto
  qed
qed (use assms(2,3,6) in auto)

definition tags_apart :: "web_server \<Rightarrow> config \<Rightarrow> config \<Rightarrow> bool" where
  "tags_apart ws c c' \<longleftrightarrow>
     (configETag ws c = configETag ws c' \<longrightarrow> MarshalYAML (ws_printable ws) c = MarshalYAML (ws_printable ws) c')"


text \<open>
  What \<open>rc-service\<close> does to the set of services that run: \<open>stop\<close> takes one out, \<open>restart\<close> puts it
  in.
\<close>

fun service_effect :: "string list \<Rightarrow> string set \<Rightarrow> string set" where
  "service_effect [x, s, action] S =
     (if x = ''rc-service'' then
        (if action = ''stop'' then S - {s} else if action = ''restart'' then insert s S else S)
      else S)"
| "service_effect _ S = S"

definition service_effects :: "string list list \<Rightarrow> string set \<Rightarrow> string set" where
  "service_effects cmds S = fold service_effect cmds S"

lemma services_told:
  "s \<in> service_effects (map (service_call c) services) S \<longleftrightarrow>
     (if s \<in> set services then desiredAction s c \<noteq> ''stop'' else s \<in> S)"
proof (induction services arbitrary: S)
  case (Cons x services)
  have "desiredAction x c = ''stop'' \<or> desiredAction x c = ''restart''" by (simp add: desiredAction_def)
  then have "s \<in> service_effect (service_call c x) S \<longleftrightarrow>
      (if s = x then desiredAction x c \<noteq> ''stop'' else s \<in> S)"
    by (auto simp: service_call_def)
  with Cons show ?case by (cases "s = x") (simp_all add: service_effects_def)
qed (simp add: service_effects_def)

definition bridges :: "string set" where "bridges = {''ser2net'', ''laserbridged''}"


text \<open>
  On the way there both may run: going back to ser2net, it is started before \<open>laserbridged\<close> is
  told to stop.
\<close>

lemma two_bridges_for_a_moment:
  "let old = Default\<lparr>cg_grbl := (cg_grbl Default)\<lparr>grbl_backend := BackendLaserbridged\<rparr>\<rparr>;
       cmds = map (service_call Default) (changedServices old Default)
   in bridges \<subseteq> service_effects (take 1 cmds) {''laserbridged''}"
  by (simp add: Let_def changedServices_def service_call_def desiredAction_def service_effects_def
      bridges_def Default_def BackendLaserbridged_def BackendSer2net_def)


section \<open>Runs\<close>

definition plain_server :: web_server where
  "plain_server = \<lparr>ws_manager = plain_manager, ws_has_runtime = True, ws_printable = (\<lambda>_. True), ws_sha256 = (\<lambda>s. s)\<rparr>"

definition plain_request :: "config \<Rightarrow> string \<Rightarrow> config_request" where
  "plain_request c tag = \<lparr>cr_body = Inr c, cr_if_match = tag, cr_force = []\<rparr>"

lemma plain_stored:
  assumes "storable (\<lambda>_. True) c"
  obtains data where "stored plain_server (appliance_with data) = Inr c"
  using Load_saved [OF assms] by (auto simp: stored_def plain_server_def plain_manager_def)

lemma plain_saves:
  assumes "storable (\<lambda>_. True) c"
  obtains a1 where "save_and_apply plain_server previous c undo a = (a1, Saved)"
proof -
  obtain d where d: "MarshalYAML (\<lambda>_. True) c = Inr d" "ParseYAML d = Inr (c, [])"
    using assms written_config_read unfolding storable_def by blast
  let ?a1 = "a\<lparr>ap_store := (ap_store a)\<lparr>so_notes := []\<rparr>, ap_files := (ap_files a)(so_path (ap_store a) \<mapsto> d)\<rparr>"
  have save: "save_config plain_server c a = (?a1, None)"
    using d(1) by (simp add: save_config_def Save_def saveLocked_def plain_server_def plain_manager_def quiet_os_def)
  have "Load quiet_os (ap_store ?a1, ap_files ?a1) = Inr c"
    by (rule Load_parsed [OF _ _ d(2)]) (simp_all add: quiet_os_def)
  from plain_Apply [OF this] have "snd (Apply plain_manager ?a1) = None" .
  then have "save_and_apply plain_server previous c undo a = (fst (Apply plain_manager ?a1), Saved)"
    using save by (cases "Apply plain_manager ?a1") (simp add: save_and_apply_def plain_server_def)
  then show thesis by (rule that)
qed

lemma plain_put:
  assumes "stored plain_server a = Inr previous" and "storable (\<lambda>_. True) (kept_fields previous c)"
    and "tag = [] \<or> tag = configETag plain_server previous"
    and "config_guard (plain_request c tag) bridge previous (kept_fields previous c) = None"
  obtains a' w where "putConfig plain_server bridge (plain_request c tag) a =
      (a', ConfigSaved (configETag plain_server (kept_fields previous c)) (kept_fields previous c) w)"
proof -
  obtain a1 where run: "save_and_apply plain_server previous (kept_fields previous c) (\<lambda>x. x) a = (a1, Saved)"
    using plain_saves [OF assms(2)] by blast
  have "Validate (kept_fields previous c) = None" using assms(2) by (simp add: storable_def)
  then show thesis
    using assms(1,3,4) run that
    by (auto simp: putConfig_def plain_request_def Let_def plain_server_def plain_manager_def)
qed

theorem refused_change_changes_nothing_witness:
  "\<exists>a. stored plain_server (fst (putConfig plain_server None \<lparr>cr_body = Inl ''x'', cr_if_match = [], cr_force = []\<rparr> a))
     = Inr Default"
proof -
  obtain data where data: "stored plain_server (appliance_with data) = Inr Default"
    using plain_stored [OF Default_storable] by blast
  let ?a = "fst (Apply plain_manager (appliance_with data))"
  have "Apply plain_manager (appliance_with data) = (?a, None)"
    using plain_Apply data by (simp add: stored_def plain_server_def plain_manager_def prod_eq_iff)
  from Apply_in_force [OF plain_apart this] obtain c where
      "Load (mg_os plain_manager) (ap_store (appliance_with data), ap_files (appliance_with data)) = Inr c"
      "in_force plain_manager ?a c"
    by blast
  then have force: "in_force plain_manager ?a Default"
    using data by (simp add: stored_def plain_server_def)
  have stored: "stored plain_server ?a = Inr Default"
    using stored_Apply [of plain_server "appliance_with data"] plain_apart data by (simp add: plain_server_def)
  let ?rq = "\<lparr>cr_body = Inl ''x'', cr_if_match = [], cr_force = []\<rparr>"
  have "putConfig plain_server None ?rq ?a = (?a, Failure 400 ''x'')" by (simp add: putConfig_def)
  from refused_change_changes_nothing [OF _ stored _ _ this] force plain_apart Default_storable
  have "stored plain_server ?a = Inr Default" by (simp add: plain_server_def)
  with \<open>putConfig plain_server None ?rq ?a = _\<close> show ?thesis by (intro exI [of _ ?a]) simp
qed

lemma kept_Default [simp]: "kept_fields Default Default = Default"
  by (simp add: kept_fields_def)

lemma same_guard [simp]: "config_guard rq bridge c c = None"
  by (simp add: config_guard_def)


definition with_bridge :: config where
  "with_bridge = Default\<lparr>cg_grbl := (cg_grbl Default)\<lparr>grbl_backend := BackendLaserbridged\<rparr>\<rparr>"

lemma with_bridge_valid: "Validate with_bridge = None"
  by code_simp

lemma with_bridge_storable: "storable table with_bridge"
  unfolding storable_def
  by (intro conjI with_bridge_valid short_config_fits)
    (simp add: text_values_def with_bridge_def Default_def BackendLaserbridged_def OnDisconnectReset_def)


definition cutting :: status where
  "cutting = (Status idle_bridge)\<lparr>st_machine := (st_machine (Status idle_bridge))\<lparr>mc_state := StateRun\<rparr>\<rparr>"


end
