(* ===== verification/Accounts.thy ===== *)
theory Accounts
  imports GoLib
begin

text \<open>
  The password of the appliance: \<open>StoredPasswordHash\<close>, \<open>PasswordIsDefault\<close>, \<open>VerifyPassword\<close>,
  \<open>SetPassword\<close> and \<open>replaceShadowHash\<close> of \<open>backend/internal/runtime/runtime.go\<close> over the text of
  the account database. The program \<open>cryptpw\<close> is an argument: from the salt it is given, if any,
  and its standard input to its output or an error. Comparing two strings in constant time is
  comparing them.
\<close>

section \<open>The account database\<close>

definition colon :: byte where "colon = CHR '':''"
definition newline :: byte where "newline = CHR 0x0A"
definition dollar :: byte where "dollar = CHR ''$''"

definition SSHUser :: string where "SSHUser = ''laserbridge''"

definition DefaultPasswordHash :: string where
  "DefaultPasswordHash =
     ''$6$LaserBridgeOS$5w7ZyIhzoG.NAVmvorgxpRKC.XGg6qvMpguJYnLjUmnnR6l/4K22zqUDEJzxDLz70DhXx89G6igxNYJLXeczQ0''"

datatype account_error =
    NoDatabase string | NoEntry | UnsupportedFormat | NoRunner | HashFailed string | UnusableHash | NotWritten string

definition account_line :: "string \<Rightarrow> string \<Rightarrow> bool" where
  "account_line user line \<longleftrightarrow>
     (let parts = split_string line colon in 2 \<le> length parts \<and> parts ! 0 = user)"

definition StoredPasswordHash :: "string + string \<Rightarrow> account_error + string" where
  "StoredPasswordHash file =
     (case file of
        Inl e \<Rightarrow> Inl (NoDatabase e)
      | Inr shadow \<Rightarrow>
          (case filter (account_line SSHUser) (split_string shadow newline) of
             [] \<Rightarrow> Inl NoEntry
           | line # _ \<Rightarrow> Inr (split_string line colon ! 1)))"

definition PasswordIsDefault :: "string + string \<Rightarrow> bool" where
  "PasswordIsDefault file = (StoredPasswordHash file = Inr DefaultPasswordHash)"

type_synonym cryptpw = "string option \<Rightarrow> string \<Rightarrow> string + string"

definition VerifyPassword :: "cryptpw option \<Rightarrow> string + string \<Rightarrow> string \<Rightarrow> account_error + bool" where
  "VerifyPassword crypt file candidate =
     (case StoredPasswordHash file of
        Inl e \<Rightarrow> Inl e
      | Inr stored \<Rightarrow>
          (let parts = split_string stored dollar
           in if length parts \<noteq> 4 \<or> parts ! 1 \<noteq> ''6'' then Inl UnsupportedFormat
              else
                (case crypt of
                   None \<Rightarrow> Inl NoRunner
                 | Some run \<Rightarrow>
                     (case run (Some (parts ! 2)) (candidate @ [newline]) of
                        Inl e \<Rightarrow> Inl (HashFailed e)
                      | Inr out \<Rightarrow> Inr (trim_space out = stored)))))"

definition replace_line :: "string \<Rightarrow> string \<Rightarrow> string \<Rightarrow> string" where
  "replace_line user hash line =
     (if account_line user line then join ((split_string line colon)[1 := hash]) [colon] else line)"

definition replaceShadowHash :: "string \<Rightarrow> string \<Rightarrow> string \<Rightarrow> string \<times> bool" where
  "replaceShadowHash shadow user hash =
     (let lines = split_string shadow newline
      in (join (map (replace_line user hash) lines) [newline], list_ex (account_line user) lines))"

definition usable_hash :: "string \<Rightarrow> bool" where
  "usable_hash h \<longleftrightarrow> has_prefix h ''$6$'' \<and> \<not> contains_any h [colon, CHR '' '', newline]"

definition SetPassword ::
    "cryptpw option \<Rightarrow> string option \<Rightarrow> string \<Rightarrow> string + string \<Rightarrow>
     (string + string) \<times> account_error option" where
  \<comment> \<open>whether the file can be replaced is the second argument\<close>
  "SetPassword crypt write_error password file =
     (case (case crypt of None \<Rightarrow> Inl NoRunner
              | Some run \<Rightarrow> map_sum HashFailed id (run None (password @ [newline]))) of
        Inl e \<Rightarrow> (file, Some e)
      | Inr out \<Rightarrow>
          (let hash = trim_space out
           in if \<not> usable_hash hash then (file, Some UnusableHash)
              else
                (case file of
                   Inl e \<Rightarrow> (file, Some (NoDatabase e))
                 | Inr shadow \<Rightarrow>
                     (case replaceShadowHash shadow SSHUser hash of
                        (_, False) \<Rightarrow> (file, Some NoEntry)
                      | (updated, True) \<Rightarrow>
                          (case write_error of
                             Some e \<Rightarrow> (file, Some (NotWritten e))
                           | None \<Rightarrow> (Inr updated, None))))))"

section \<open>Facts\<close>

lemma map_sum_eq:
  assumes "map_sum f id s = r"
  obtains (left) e where "s = Inl e" "r = Inl (f e)" | (right) x where "s = Inr x" "r = Inr x"
  using assms by (cases s) auto

definition clean_hash :: "string \<Rightarrow> bool" where
  "clean_hash h \<longleftrightarrow> colon \<notin> set h \<and> newline \<notin> set h"

lemma usable_hash_clean: "usable_hash h \<Longrightarrow> clean_hash h"
  by (auto simp: usable_hash_def clean_hash_def contains_any_def list_ex_iff)

lemma replaced_parts:
  assumes "account_line user line" and "colon \<notin> set hash"
  shows "split_string (replace_line user hash line) colon = (split_string line colon)[1 := hash]"
proof -
  have "\<forall>p \<in> set ((split_string line colon)[1 := hash]). colon \<notin> set p"
    using assms(2) split_parts [of line colon] set_update_subset_insert [of _ 1 hash] by blast
  then show ?thesis using assms(1) by (simp add: replace_line_def split_joined)
qed

lemma set_join: "set (join ps sep) \<subseteq> \<Union> (set ` set ps) \<union> set sep"
  by (induction ps sep rule: join.induct) auto

lemma replace_line_newline:
  assumes "newline \<notin> set line" and "clean_hash hash"
  shows "newline \<notin> set (replace_line user hash line)"
proof (cases "account_line user line")
  case True
  have "set p \<subseteq> set line" if "p \<in> set (split_string line colon)" for p
    using that by (induction line arbitrary: p) (auto split: list.splits if_splits, fastforce+)
  then have "newline \<notin> \<Union> (set ` set ((split_string line colon)[1 := hash]))"
    using assms set_update_subset_insert [of "split_string line colon" 1 hash]
    by (fastforce simp: clean_hash_def)
  then show ?thesis
    using set_join [of "(split_string line colon)[1 := hash]" "[colon]"] True
    by (auto simp: replace_line_def colon_def newline_def)
qed (simp add: replace_line_def assms(1))

lemma replaced_lines:
  assumes "clean_hash hash"
  shows "split_string (fst (replaceShadowHash shadow user hash)) newline =
    map (replace_line user hash) (split_string shadow newline)"
proof -
  have "\<forall>l \<in> set (map (replace_line user hash) (split_string shadow newline)). newline \<notin> set l"
    using split_parts [of shadow newline] replace_line_newline [OF _ assms] by auto
  then show ?thesis by (simp add: replaceShadowHash_def Let_def split_joined)
qed

lemma account_line_replaced:
  "colon \<notin> set hash \<Longrightarrow> account_line user (replace_line user hash line) \<longleftrightarrow> account_line user line"
  using replaced_parts [of user line hash]
  by (cases "account_line user line") (auto simp: account_line_def Let_def replace_line_def)

lemma stored_replaced:
  assumes "clean_hash hash" and "snd (replaceShadowHash shadow SSHUser hash)"
  shows "StoredPasswordHash (Inr (fst (replaceShadowHash shadow SSHUser hash))) = Inr hash"
proof -
  let ?ls = "split_string shadow newline"
  have colon: "colon \<notin> set hash" using assms(1) by (simp add: clean_hash_def)
  have "filter (account_line SSHUser) (map (replace_line SSHUser hash) ?ls)
      = map (replace_line SSHUser hash) (filter (account_line SSHUser) ?ls)"
    by (simp add: filter_map o_def account_line_replaced colon)
  moreover obtain l ls where "filter (account_line SSHUser) ?ls = l # ls"
    using assms(2) by (cases "filter (account_line SSHUser) ?ls")
      (auto simp: replaceShadowHash_def Let_def list_ex_iff filter_empty_conv)
  moreover from this have "l \<in> set (filter (account_line SSHUser) ?ls)" by simp
  then have l: "account_line SSHUser l" by simp
  ultimately show ?thesis
    using replaced_parts [OF l colon] l
    by (simp add: StoredPasswordHash_def replaced_lines assms(1) account_line_def Let_def)
qed

lemma SetPassword_cases:
  assumes "SetPassword crypt we password file = (file', None)"
  obtains run shadow out where "crypt = Some run" "file = Inr shadow" "run None (password @ [newline]) = Inr out"
    "usable_hash (trim_space out)" "snd (replaceShadowHash shadow SSHUser (trim_space out))"
    "file' = Inr (fst (replaceShadowHash shadow SSHUser (trim_space out)))"
  using assms
  by (auto simp: SetPassword_def Let_def split: sum.splits if_splits prod.splits bool.splits option.splits
      elim!: map_sum_eq)

section \<open>Properties\<close>

text \<open>
  Setting the password changes the password and nothing else. The database has as many lines as
  before; a line that is not the appliance's account is the same byte for byte, the account's
  line differs in its second field only, and what is stored there is what \<open>cryptpw\<close> printed. When
  the call fails, the database is untouched.
\<close>

theorem password_change_is_local:
  "case SetPassword crypt we password file of
      (file', Some e) \<Rightarrow> file' = file
    | (file', None) \<Rightarrow>
        (\<exists>run shadow shadow' out. crypt = Some run \<and> file = Inr shadow \<and> file' = Inr shadow'
          \<and> run None (password @ [newline]) = Inr out
          \<and> StoredPasswordHash file' = Inr (trim_space out)
          \<and> split_string shadow' newline =
              map (\<lambda>l. if account_line SSHUser l
                       then join ((split_string l colon)[1 := trim_space out]) [colon] else l)
                (split_string shadow newline))"
proof (cases "SetPassword crypt we password file")
  case (Pair file' e)
  show ?thesis
  proof (cases e)
    case (Some x)
    with Pair show ?thesis
      by (auto simp: SetPassword_def Let_def split: sum.splits if_splits prod.splits bool.splits option.splits)
  next
    case None
    with Pair have "SetPassword crypt we password file = (file', None)" by simp
    then obtain run shadow out where r: "crypt = Some run" "file = Inr shadow" "run None (password @ [newline]) = Inr out"
        "usable_hash (trim_space out)" "snd (replaceShadowHash shadow SSHUser (trim_space out))"
        "file' = Inr (fst (replaceShadowHash shadow SSHUser (trim_space out)))"
      by (rule SetPassword_cases)
    note clean = usable_hash_clean [OF r(4)]
    show ?thesis
      unfolding Pair None
      using r stored_replaced [OF clean r(5)] replaced_lines [OF clean, of shadow SSHUser]
      by (simp add: replace_line_def [abs_def])
  qed
qed

text \<open>
  What is documented of \<open>cryptpw\<close>: without a salt it prints a hash of the SHA-512 form with a
  salt of its own, and given that salt and the same input it prints the same hash again.
\<close>

definition crypt_documented :: "cryptpw \<Rightarrow> bool" where
  "crypt_documented crypt \<longleftrightarrow>
     (\<forall>input out. crypt None input = Inr out \<longrightarrow>
        (\<exists>salt digest. trim_space out = join [[], ''6'', salt, digest] [dollar]
          \<and> dollar \<notin> set salt \<and> dollar \<notin> set digest \<and> crypt (Some salt) input = Inr out))"

text \<open>
  The password just set is the one that is accepted, and another one is accepted only if the
  program hashes it, under the same salt, to the very same hash.
\<close>

theorem new_password_is_accepted:
  assumes "crypt_documented crypt" and "SetPassword (Some crypt) we password file = (file', None)"
  shows "VerifyPassword (Some crypt) file' password = Inr True
    \<and> (\<forall>other. VerifyPassword (Some crypt) file' other = Inr True \<longrightarrow>
         (\<exists>salt out out'. crypt (Some salt) (password @ [newline]) = Inr out
            \<and> crypt (Some salt) (other @ [newline]) = Inr out' \<and> trim_space out' = trim_space out))"
proof -
  obtain shadow out where r: "crypt None (password @ [newline]) = Inr out"
      "usable_hash (trim_space out)" "snd (replaceShadowHash shadow SSHUser (trim_space out))"
      "file' = Inr (fst (replaceShadowHash shadow SSHUser (trim_space out)))"
    using assms(2) by (auto elim: SetPassword_cases)
  obtain salt digest where hash: "trim_space out = join [[], ''6'', salt, digest] [dollar]"
      "dollar \<notin> set salt" "dollar \<notin> set digest" "crypt (Some salt) (password @ [newline]) = Inr out"
    using assms(1) r(1) unfolding crypt_documented_def by blast
  have "split_string (trim_space out) dollar = [[], ''6'', salt, digest]"
    unfolding hash(1) using hash(2,3) by (intro split_joined) (simp_all add: dollar_def)
  moreover have "StoredPasswordHash file' = Inr (trim_space out)"
    unfolding r(4) by (rule stored_replaced [OF usable_hash_clean [OF r(2)] r(3)])
  ultimately have verify: "VerifyPassword (Some crypt) file' c =
      (case crypt (Some salt) (c @ [newline]) of
         Inl e \<Rightarrow> Inl (HashFailed e) | Inr out' \<Rightarrow> Inr (trim_space out' = trim_space out))" for c
    by (simp add: VerifyPassword_def Let_def)
  show ?thesis using hash(4) by (auto simp: verify split: sum.splits)
qed

definition toy_crypt :: cryptpw where
  "toy_crypt salt input =
     Inr (''$6$'' @ (case salt of None \<Rightarrow> ''s'' | Some s \<Rightarrow> s) @ ''$'' @ replicate (length input) (CHR ''x'') @ ''x'')"

lemma toy_crypt_documented: "crypt_documented toy_crypt"
proof -
  let ?x = "\<lambda>input. replicate (length (input :: string)) (CHR ''x'')"
  have "trim_space (CHR ''$'' # (''6$s$'' @ ?x input) @ [CHR ''x'']) =
      CHR ''$'' # (''6$s$'' @ ?x input) @ [CHR ''x'']" for input
    by (rule trim_space_solid) (simp_all add: solid_def space1_def)
  then have "\<exists>salt digest. trim_space (''$6$s$'' @ ?x input @ ''x'') = join [[], ''6'', salt, digest] [dollar]
      \<and> dollar \<notin> set salt \<and> dollar \<notin> set digest
      \<and> toy_crypt (Some salt) input = Inr (''$6$s$'' @ ?x input @ ''x'')" for input
    by (intro exI [of _ "''s''"] exI [of _ "?x input @ ''x''"]) (simp add: dollar_def toy_crypt_def)
  then show ?thesis by (simp add: crypt_documented_def toy_crypt_def)
qed

definition shipped_shadow :: string where
  "shipped_shadow = ''root:*:1'' @ [newline] @ ''laserbridge:'' @ DefaultPasswordHash @ '':2'' @ [newline]"

theorem new_password_is_accepted_witness:
  "VerifyPassword (Some toy_crypt) (fst (SetPassword (Some toy_crypt) None ''hunter22'' (Inr shipped_shadow))) ''hunter22'' = Inr True"
proof -
  have "snd (SetPassword (Some toy_crypt) None ''hunter22'' (Inr shipped_shadow)) = None" by code_simp
  then have "SetPassword (Some toy_crypt) None ''hunter22'' (Inr shipped_shadow) =
      (fst (SetPassword (Some toy_crypt) None ''hunter22'' (Inr shipped_shadow)), None)"
    by (metis prod.collapse)
  from new_password_is_accepted [OF toy_crypt_documented this] show ?thesis by simp
qed

end
