(* ===== verification/Api_Setup.thy ===== *)
theory Api_Setup
  imports Api_Config Accounts Attempts
begin

text \<open>
  \<open>backend/internal/api/setup.go\<close>: the first-boot wizard, the password and the Wi-Fi settings; and
  the guard of \<open>server.go\<close> in front of every request that changes something. A file that cannot
  be read is one that is not there: the handlers treat the two alike.
\<close>

section \<open>Passwords and keys\<close>

definition MinPasswordLength :: nat where "MinPasswordLength = 8"

definition validatePassword :: "string \<Rightarrow> string option" where
  "validatePassword v =
     (if length v < MinPasswordLength then
        Some (''password must be at least '' @ itoa (int MinPasswordLength) @ '' characters'')
      else if 128 < length v then Some ''password must be at most 128 characters''
      else if contains_any v [CHR 0x0A, CHR 0x0D, CHR 0x00, CHR '':''] then
        Some ''password must not contain colons or line breaks''
      else None)"

definition defaultPasswordIfUnchanged :: "config \<Rightarrow> string" where
  "defaultPasswordIfUnchanged c = (if sys_setup_complete (cg_system c) then [] else ''laserbridge'')"

text \<open>\<open>base64.StdEncoding\<close>: four characters of the alphabet at a time, padded with \<open>=\<close> at the end.\<close>

definition b64_value :: "byte \<Rightarrow> nat option" where
  "b64_value c =
     (let n = of_char c :: nat
      in if 65 \<le> n \<and> n \<le> 90 then Some (n - 65)
         else if 97 \<le> n \<and> n \<le> 122 then Some (n - 71)
         else if 48 \<le> n \<and> n \<le> 57 then Some (n + 4)
         else if c = CHR ''+'' then Some 62
         else if c = CHR ''/'' then Some 63
         else None)"

definition b64_bytes :: "nat \<Rightarrow> nat \<Rightarrow> nat \<Rightarrow> nat \<Rightarrow> string" where
  "b64_bytes a b c d =
     (let n = ((a * 64 + b) * 64 + c) * 64 + d
      in [char_of (n div 65536), char_of (n div 256 mod 256), char_of (n mod 256)])"

fun b64_decode :: "string \<Rightarrow> string option" where
  "b64_decode [] = Some []"
| "b64_decode (w # x # y # z # s) =
     (case (b64_value w, b64_value x) of
        (Some a, Some b) \<Rightarrow>
          (if s = [] \<and> y = CHR ''='' \<and> z = CHR ''='' then Some (take 1 (b64_bytes a b 0 0))
           else
             (case b64_value y of
                None \<Rightarrow> None
              | Some c \<Rightarrow>
                  (if s = [] \<and> z = CHR ''='' then Some (take 2 (b64_bytes a b c 0))
                   else
                     (case (b64_value z, b64_decode s) of
                        (Some d, Some rest) \<Rightarrow> Some (b64_bytes a b c d @ rest)
                      | _ \<Rightarrow> None))))
      | _ \<Rightarrow> None)"
| "b64_decode _ = None"

definition big_endian :: "string \<Rightarrow> nat" where
  "big_endian s = fold (\<lambda>c n. 256 * n + of_char c) s 0"

definition allowed_keys :: "string list" where
  "allowed_keys = [''ssh-ed25519'', ''ecdsa-sha2-nistp256'', ''ssh-rsa'']"

definition validatePublicKey :: "string \<Rightarrow> string option" where
  "validatePublicKey v =
     (if 16 * 2 ^ 10 < length v \<or> contains_any v [CHR 0x0D, CHR 0x0A] then
        Some ''SSH public key must be a single line''
      else
        (case string_fields v of
           alg # blob # _ \<Rightarrow>
             (if alg \<notin> set allowed_keys then Some ''SSH key type must be Ed25519, ECDSA P-256, or RSA''
              else
                (case b64_decode blob of
                   None \<Rightarrow> Some ''SSH public key payload is invalid''
                 | Some d \<Rightarrow>
                     if length d < 16 then Some ''SSH public key payload is invalid''
                     else
                       (let n = big_endian (take 4 d)
                        in if n < 1 \<or> length d < 4 + n \<or> take n (drop 4 d) \<noteq> alg
                           then Some ''SSH public key type does not match its payload'' else None)))
         | _ \<Rightarrow> Some ''SSH public key is invalid''))"

section \<open>Files of the set-up\<close>

definition data_file :: "web_server \<Rightarrow> string \<Rightarrow> string" where
  "data_file ws name = mg_data (ws_manager ws) @ ''/'' @ name"

definition rambootKeyPath :: string where
  "rambootKeyPath = ''/etc/laserbridge/ramboot-authorized-keys''"

definition authorizedKeys :: "string option \<Rightarrow> string \<Rightarrow> string" where
  "authorizedKeys injected key =
     (let content = key @ nl
      in case injected of
           None \<Rightarrow> content
         | Some text \<Rightarrow>
             content @ concat (map (\<lambda>l. l @ nl)
               (filter (\<lambda>l. l \<noteq> [] \<and> l \<noteq> trim_space key)
                  (map trim_space (split_string text newline)))))"

definition write_file :: "web_server \<Rightarrow> string \<Rightarrow> string \<Rightarrow> appliance \<Rightarrow> appliance \<times> bool" where
  "write_file ws p text a =
     (if os_write_error (ws_os ws) p = None then (a\<lparr>ap_files := (ap_files a)(p \<mapsto> text)\<rparr>, True)
      else (a, False))"

definition remove_file :: "string \<Rightarrow> appliance \<Rightarrow> appliance" where
  "remove_file p a = a\<lparr>ap_files := (ap_files a)(p := None)\<rparr>"

definition authorizedRestorer :: "web_server \<Rightarrow> string \<Rightarrow> string option \<Rightarrow> appliance \<Rightarrow> appliance" where
  \<comment> \<open>puts back what was read before, or takes away what was not there\<close>
  "authorizedRestorer ws p previous a =
     (case previous of None \<Rightarrow> remove_file p a | Some text \<Rightarrow> fst (write_file ws p text a))"

text \<open>The account database is a file of the appliance; \<open>cryptpw\<close> runs where commands do.\<close>

definition shadow_of :: "web_server \<Rightarrow> appliance \<Rightarrow> string + string" where
  "shadow_of ws a =
     (case ap_files a (data_file ws ''shadow'') of
        None \<Rightarrow> Inl ''no such file or directory'' | Some text \<Rightarrow> Inr text)"

definition set_password :: "web_server \<Rightarrow> cryptpw option \<Rightarrow> string \<Rightarrow> appliance \<Rightarrow> appliance \<times> account_error option" where
  "set_password ws crypt pw a =
     (let p = data_file ws ''shadow''
      in case SetPassword crypt (os_write_error (ws_os ws) p) pw (shadow_of ws a) of
           (Inr text, None) \<Rightarrow> (a\<lparr>ap_files := (ap_files a)(p \<mapsto> text)\<rparr>, None)
         | (_, e) \<Rightarrow> (a, e))"

section \<open>Case\<close>

text \<open>
  \<open>strings.ToLower\<close> and \<open>strings.ToUpper\<close> where the result has to be ASCII to be accepted: ASCII
  letters, and the runes outside ASCII with a mapping into it - the dotted capital I and the
  Kelvin sign downwards, the dotless i and the long s upwards. Any other rune stays one that is
  refused.
\<close>

fun to_lower_ascii :: "string \<Rightarrow> string" where
  "to_lower_ascii (a # b # c # s) =
     (if a = CHR 0xE2 \<and> b = CHR 0x84 \<and> c = CHR 0xAA then CHR ''k'' # to_lower_ascii s
      else if a = CHR 0xC4 \<and> b = CHR 0xB0 then CHR ''i'' # to_lower_ascii (c # s)
      else (if CHR ''A'' \<le> a \<and> a \<le> CHR ''Z'' then char_of (of_char a + 32 :: nat) else a) # to_lower_ascii (b # c # s))"
| "to_lower_ascii [a, b] =
     (if a = CHR 0xC4 \<and> b = CHR 0xB0 then ''i''
      else (if CHR ''A'' \<le> a \<and> a \<le> CHR ''Z'' then char_of (of_char a + 32 :: nat) else a) # to_lower_ascii [b])"
| "to_lower_ascii [a] = [if CHR ''A'' \<le> a \<and> a \<le> CHR ''Z'' then char_of (of_char a + 32 :: nat) else a]"
| "to_lower_ascii [] = []"

fun to_upper_ascii :: "string \<Rightarrow> string" where
  "to_upper_ascii (a # b # s) =
     (if a = CHR 0xC4 \<and> b = CHR 0xB1 then CHR ''I'' # to_upper_ascii s
      else if a = CHR 0xC5 \<and> b = CHR 0xBF then CHR ''S'' # to_upper_ascii s
      else upper a # to_upper_ascii (b # s))"
| "to_upper_ascii [a] = [upper a]"
| "to_upper_ascii [] = []"

section \<open>Wi-Fi\<close>

record wifi_request =
  wr_enabled :: bool
  wr_ssid :: string
  wr_psk :: string
  wr_country :: string
  wr_hidden :: bool

type_synonym handled = "appliance \<times> reply \<times> string list list"

definition restartNetworkSoon :: "web_server \<Rightarrow> string list list" where
  "restartNetworkSoon ws =
     (case mg_runner (ws_manager ws) of
        None \<Rightarrow> []
      | Some _ \<Rightarrow> [[''rc-service'', ''laserbridge-network'', ''restart''],
                   [''rc-service'', ''avahi-daemon'', ''restart'']])"

definition wifi_of :: "wifi_request \<Rightarrow> config \<Rightarrow> config" where
  "wifi_of rq previous =
     (let psk = (if wr_psk rq = [] \<and> wr_ssid rq = wifi_ssid (cg_wifi previous)
                 then wifi_psk (cg_wifi previous) else wr_psk rq)
      in previous\<lparr>cg_wifi :=
           \<lparr>wifi_enabled = wr_enabled rq, wifi_ssid = wr_ssid rq, wifi_psk = psk,
            wifi_country = to_upper_ascii (wr_country rq), wifi_hidden = wr_hidden rq\<rparr>\<rparr>)"

definition updateWiFi :: "web_server \<Rightarrow> string + wifi_request \<Rightarrow> appliance \<Rightarrow> handled" where
  "updateWiFi ws body a =
     (case body of
        Inl e \<Rightarrow> (a, Failure 400 e, [])
      | Inr rq \<Rightarrow>
          (case stored ws a of
             Inl e \<Rightarrow> (a, Failure 500 (store_error_text e), [])
           | Inr previous \<Rightarrow>
               (case Validate (wifi_of rq previous) of
                  Some e \<Rightarrow> (a, Failure 422 e, [])
                | None \<Rightarrow>
                    (case save_and_apply ws previous (wifi_of rq previous) (\<lambda>x. x) a of
                       (a', SaveFailed e) \<Rightarrow> (a', Failure 500 (store_error_text e), [])
                     | (a', ApplyFailed e) \<Rightarrow> (a', Failure 500 ''could not apply Wi-Fi settings'', [])
                     | (a', Saved) \<Rightarrow> (a', Done 202 ''switching-network'', restartNetworkSoon ws)))))"

section \<open>The wizard\<close>

record setup_request =
  su_hostname :: string
  su_ssid :: string
  su_psk :: string
  su_country :: string
  su_hidden :: bool
  su_generated :: bool
  su_public_key :: string
  su_password :: string

definition setup_config :: "setup_request \<Rightarrow> config \<Rightarrow> config" where
  "setup_config rq previous =
     previous\<lparr>
       cg_system := (cg_system previous)
         \<lparr>sys_hostname := to_lower_ascii (trim_space (su_hostname rq)), sys_setup_complete := True\<rparr>,
       cg_wifi := \<lparr>wifi_enabled = True, wifi_ssid = su_ssid rq, wifi_psk = su_psk rq,
                   wifi_country = to_upper_ascii (su_country rq), wifi_hidden = su_hidden rq\<rparr>\<rparr>"

definition chosen_key :: "web_server \<Rightarrow> setup_request \<Rightarrow> appliance \<Rightarrow> (int \<times> string) + string" where
  "chosen_key ws rq a =
     (let own = trim_space (su_public_key rq)
      in if su_generated rq then
           (if own \<noteq> [] then Inl (422, ''choose one SSH key option, not both'')
            else
              (case ap_files a (data_file ws ''setup/laserbridge_ed25519.pub'') of
                 None \<Rightarrow> Inl (422, ''generated SSH key is unavailable'')
               | Some text \<Rightarrow> Inr (trim_space text)))
         else Inr own)"

definition setup_problem :: "setup_request \<Rightarrow> config \<Rightarrow> string \<Rightarrow> string option" where
  "setup_problem rq previous key =
     (case (if key \<noteq> [] then validatePublicKey key else None) of
        Some e \<Rightarrow> Some e
      | None \<Rightarrow>
          (case (if su_password rq \<noteq> [] then validatePassword (su_password rq) else None) of
             Some e \<Rightarrow> Some e
           | None \<Rightarrow>
               if key = [] \<and> su_password rq = [] \<and> \<not> ssh_password (cg_ssh previous) then
                 Some ''set a password or an SSH key, otherwise nothing could log in''
               else Validate (setup_config rq previous)))"

definition ssh_words :: "setup_request \<Rightarrow> string \<Rightarrow> string" where
  "ssh_words rq hostname =
     (if su_generated rq then ''ssh -i laserbridge_ed25519 laserbridge@'' else ''ssh laserbridge@'')
     @ hostname @ ''.local''"

definition finish_setup :: "web_server \<Rightarrow> setup_request \<Rightarrow> config \<Rightarrow> string \<Rightarrow> appliance \<Rightarrow> handled" where
  \<comment> \<open>after the password: the keys, the configuration, and the private key that is not needed any more\<close>
  "finish_setup ws rq previous key a =
     (let p = data_file ws ''ssh/authorized_keys'';
          undo = authorizedRestorer ws p (ap_files a p)
      in case (if key \<noteq> [] then write_file ws p (authorizedKeys (ap_files a rambootKeyPath) key) a else (a, True)) of
           (a1, False) \<Rightarrow> (a1, Failure 500 ''could not install SSH key'', [])
         | (a1, True) \<Rightarrow>
             (case save_and_apply ws previous (setup_config rq previous) undo a1 of
                (a2, SaveFailed e) \<Rightarrow> (a2, Failure 500 ''could not save setup'', [])
              | (a2, ApplyFailed e) \<Rightarrow>
                  (a2, Failure 500 ''could not apply setup; previous configuration restored'', [])
              | (a2, Saved) \<Rightarrow>
                  (remove_file (data_file ws ''setup/laserbridge_ed25519'') a2,
                   Done 202 (ssh_words rq (sys_hostname (cg_system (setup_config rq previous)))),
                   restartNetworkSoon ws)))"

definition completeSetup ::
    "web_server \<Rightarrow> cryptpw option \<Rightarrow> string + setup_request \<Rightarrow> appliance \<Rightarrow> handled" where
  "completeSetup ws crypt body a =
     (case body of
        Inl e \<Rightarrow> (a, Failure 400 e, [])
      | Inr rq \<Rightarrow>
          (case stored ws a of
             Inl e \<Rightarrow> (a, Failure 500 (store_error_text e), [])
           | Inr previous \<Rightarrow>
               if sys_setup_complete (cg_system previous) then
                 (a, Failure 409 ''initial setup is already complete'', [])
               else
                 (case chosen_key ws rq a of
                    Inl (code, e) \<Rightarrow> (a, Failure code e, [])
                  | Inr key \<Rightarrow>
                      (case setup_problem rq previous key of
                         Some e \<Rightarrow> (a, Failure 422 e, [])
                       | None \<Rightarrow>
                           if su_password rq = [] then finish_setup ws rq previous key a
                           else if \<not> ws_has_runtime ws then
                             (a, Failure 503 ''password changes are unavailable'', [])
                           else
                             (case set_password ws crypt (su_password rq) a of
                                (a1, Some _) \<Rightarrow> (a1, Failure 500 ''could not set the password'', [])
                              | (a1, None) \<Rightarrow> finish_setup ws rq previous key a1)))))"

definition setupSSHKey :: "web_server \<Rightarrow> appliance \<Rightarrow> reply" where
  "setupSSHKey ws a =
     (case stored ws a of
        Inl e \<Rightarrow> Failure 500 (store_error_text e)
      | Inr c \<Rightarrow>
          if sys_setup_complete (cg_system c) then Failure 410 ''initial SSH key is no longer available''
          else
            (case ap_files a (data_file ws ''setup/laserbridge_ed25519'') of
               None \<Rightarrow> Failure 404 ''initial SSH key is unavailable''
             | Some key \<Rightarrow>
                 if 32 * 2 ^ 10 < length key then Failure 404 ''initial SSH key is unavailable''
                 else Done 200 key))"

section \<open>Changing the password\<close>

record password_request =
  pr_current :: string
  pr_new :: string

text \<open>The clock is read twice: when the guard is asked and when the outcome is recorded.\<close>

definition changePassword ::
    "web_server \<Rightarrow> cryptpw option \<Rightarrow> instant \<Rightarrow> instant \<Rightarrow> string + password_request \<Rightarrow>
     attempt_guard \<times> appliance \<Rightarrow> (attempt_guard \<times> appliance) \<times> reply" where
  "changePassword ws crypt asked checked body s =
     (case (body, s) of
        (Inl e, _) \<Rightarrow> (s, Failure 400 e)
      | (Inr rq, g, a) \<Rightarrow>
          if \<not> ws_has_runtime ws then (s, Failure 503 ''password changes are unavailable'')
          else
            (case validatePassword (pr_new rq) of
               Some e \<Rightarrow> (s, Failure 422 e)
             | None \<Rightarrow>
                 (case refuseTooManyAttempts asked g of
                    Some seconds \<Rightarrow>
                      (s, Failure 429 (''too many wrong passwords; try again in '' @ itoa seconds @ '' seconds''))
                  | None \<Rightarrow>
                      (case VerifyPassword crypt (shadow_of ws a) (pr_current rq) of
                         Inl _ \<Rightarrow> (s, Failure 500 ''could not check the current password'')
                       | Inr ok \<Rightarrow>
                           (let g1 = guard_record ok checked g
                            in if \<not> ok then ((g1, a), Failure 403 ''the current password is wrong'')
                               else
                                 (case set_password ws crypt (pr_new rq) a of
                                    (a1, Some _) \<Rightarrow> ((g1, a1), Failure 500 ''could not set the password'')
                                  | (a1, None) \<Rightarrow> ((g1, a1), Done 200 ''password-changed'')))))))"

end
