(* ===== verification/Api_Update.thy ===== *)
theory Api_Update
  imports Api_Setup
begin

text \<open>
  The update endpoints: \<open>backend/internal/api/update.go\<close>, which takes an upload apart and decides
  who may install it, and the signature check of \<open>backend/internal/update/update.go\<close>. Uploaded
  parts are files of the appliance while the request lasts; \<open>ssh-keygen\<close>, the zip reader and the
  decoder of the manifest are arguments.
\<close>

section \<open>Receiving the parts\<close>

text \<open>
  A part of the upload: its form name, what it carries, an error while reading or storing it, the
  name \<open>CreateTemp\<close> picks for it or why it could not, and the clock when a password is checked and
  when the outcome is recorded.
\<close>

record upload_part =
  up_name :: string
  up_data :: string
  up_fault :: "string option"
  up_temp :: "string + string"
  up_asked :: instant
  up_checked :: instant

record update_upload =
  uu_bundle :: string
  uu_signature :: string
  uu_password_accepted :: bool

definition no_upload :: update_upload where
  "no_upload = \<lparr>uu_bundle = [], uu_signature = [], uu_password_accepted = False\<rparr>"

type_synonym guarded = "attempt_guard \<times> appliance"

definition checkUpdatePassword ::
    "web_server \<Rightarrow> cryptpw option \<Rightarrow> instant \<Rightarrow> instant \<Rightarrow> string \<Rightarrow> guarded \<Rightarrow> guarded \<times> string option" where
  "checkUpdatePassword ws crypt asked checked candidate s =
     (case s of
        (g, a) \<Rightarrow>
          if \<not> ws_has_runtime ws then (s, Some ''password authorisation is unavailable'')
          else if PasswordIsDefault (shadow_of ws a) then
            (s, Some ''this appliance still has its default password; change it before installing updates with one'')
          else if 0 < guard_wait asked g then
            (s, Some (''too many wrong passwords; try again in ''
                      @ itoa ((guard_wait asked g + 500000000) div second) @ '' seconds''))
          else
            (case VerifyPassword crypt (shadow_of ws a) candidate of
               Inl _ \<Rightarrow> (s, Some ''could not check the password'')
             | Inr ok \<Rightarrow>
                 ((guard_record ok checked g, a), if ok then None else Some ''wrong password'')))"

definition password_limit :: nat where "password_limit = 1024"

definition typed_password :: "string \<Rightarrow> string" where
  \<comment> \<open>what is read of the field, without the line ending\<close>
  "typed_password raw = rev (dropWhile (\<lambda>c. c = CHR 0x0D \<or> c = CHR 0x0A) (rev (take password_limit raw)))"

definition upload_limit :: "string \<Rightarrow> nat" where
  "upload_limit name = (if name = ''bundle'' then MaxBundleSize else MaxSignatureSize)"

definition put_file :: "string \<Rightarrow> string \<Rightarrow> guarded \<Rightarrow> guarded" where
  "put_file path data s = (case s of (g, a) \<Rightarrow> (g, a\<lparr>ap_files := (ap_files a)(path \<mapsto> data)\<rparr>))"

definition drop_file :: "string \<Rightarrow> guarded \<Rightarrow> guarded" where
  "drop_file path s = (case s of (g, a) \<Rightarrow> (g, remove_file path a))"

text \<open>A file part: where it goes, the copy, and the errors that take the file away again.\<close>

definition destination_of :: "string \<Rightarrow> update_upload \<Rightarrow> string" where
  "destination_of name u = (if name = ''bundle'' then uu_bundle u else uu_signature u)"

definition with_destination :: "string \<Rightarrow> string \<Rightarrow> update_upload \<Rightarrow> update_upload" where
  "with_destination name path u =
     (if name = ''bundle'' then u\<lparr>uu_bundle := path\<rparr> else u\<lparr>uu_signature := path\<rparr>)"

definition receive_file ::
    "upload_part \<Rightarrow> update_upload \<Rightarrow> guarded \<Rightarrow> guarded \<times> update_upload \<times> string option" where
  "receive_file p u s =
     (if destination_of (up_name p) u \<noteq> [] then
        (s, u, Some (''duplicate upload field '' @ [CHR 0x22] @ up_name p @ [CHR 0x22]))
      else
        (case up_temp p of
           Inl e \<Rightarrow> (s, u, Some e)
         | Inr path \<Rightarrow>
             (let limit = upload_limit (up_name p);
                  written = take (limit + 1) (up_data p);
                  s1 = put_file path written s
              in case up_fault p of
                   Some e \<Rightarrow> (drop_file path s1, u, Some e)
                 | None \<Rightarrow>
                     if limit < length written then
                       (drop_file path s1, u, Some (up_name p @ '' exceeds the upload limit''))
                     else (s1, with_destination (up_name p) path u, None))))"

definition receive_part ::
    "web_server \<Rightarrow> cryptpw option \<Rightarrow> upload_part \<Rightarrow> update_upload \<Rightarrow> guarded \<Rightarrow> guarded \<times> update_upload \<times> string option" where
  "receive_part ws crypt p u s =
     (if up_name p = ''password'' then
        (case up_fault p of
           Some e \<Rightarrow> (s, u, Some e)
         | None \<Rightarrow>
             (case checkUpdatePassword ws crypt (up_asked p) (up_checked p) (typed_password (up_data p)) s of
                (s1, Some e) \<Rightarrow> (s1, u, Some e)
              | (s1, None) \<Rightarrow> (s1, u\<lparr>uu_password_accepted := True\<rparr>, None)))
      else if up_name p = ''bundle'' \<or> up_name p = ''signature'' then receive_file p u s
      else (s, u, Some (''unexpected upload field '' @ quote_string (ws_printable ws) (up_name p))))"

fun receive_parts ::
    "web_server \<Rightarrow> cryptpw option \<Rightarrow> upload_part list \<Rightarrow> update_upload \<Rightarrow> guarded \<Rightarrow> guarded \<times> update_upload \<times> string option" where
  "receive_parts ws crypt [] u s = (s, u, None)"
| "receive_parts ws crypt (p # ps) u s =
     (case receive_part ws crypt p u s of
        (s1, u1, None) \<Rightarrow> receive_parts ws crypt ps u1 s1
      | (s1, u1, Some e) \<Rightarrow> (s1, u1, Some e))"

text \<open>The whole loop: the parts there are, and how the stream ends.\<close>

definition receiveUpdateParts ::
    "web_server \<Rightarrow> cryptpw option \<Rightarrow> upload_part list \<Rightarrow> string option \<Rightarrow> guarded \<Rightarrow> guarded \<times> update_upload \<times> string option" where
  "receiveUpdateParts ws crypt ps broken s =
     (case receive_parts ws crypt ps no_upload s of
        (s1, u, Some e) \<Rightarrow> (s1, u, Some e)
      | (s1, u, None) \<Rightarrow>
          (s1, u,
           case broken of
             Some e \<Rightarrow> Some (''read update upload: '' @ e)
           | None \<Rightarrow> if uu_bundle u = [] then Some ''the update bundle is required'' else None))"

section \<open>The signature\<close>

definition signer_line :: "string \<Rightarrow> bool" where
  "signer_line line \<longleftrightarrow>
     line \<noteq> [] \<and> \<not> has_prefix line ''#''
     \<and> (case string_fields line of
          f # _ # _ \<Rightarrow> has_prefix f ''ssh-'' \<or> has_prefix f ''ecdsa-''
        | _ \<Rightarrow> False)"

definition allowed_signers :: "string \<Rightarrow> string list" where
  \<comment> \<open>the keys of the file, each under the one name that may sign\<close>
  "allowed_signers authorized =
     map (\<lambda>l. ''laserbridge-update '' @ l) (filter signer_line (map trim_space (scan_lines authorized)))"

definition signers_path :: "web_server \<Rightarrow> string" where
  "signers_path ws = mg_dir (ws_manager ws) @ ''/update_allowed_signers''"

text \<open>
  \<open>OpenSSHVerifier.Verify\<close>: \<open>ssh-keygen\<close> gets the file of allowed signers, the signature and the
  bundle, and its output if it says no.
\<close>

type_synonym keygen = "string \<Rightarrow> string \<Rightarrow> string \<Rightarrow> string option"

definition verify_signature ::
    "web_server \<Rightarrow> keygen \<Rightarrow> string \<Rightarrow> string \<Rightarrow> appliance \<Rightarrow> appliance \<times> string option" where
  "verify_signature ws keygen bundle signature a =
     (case ap_files a (data_file ws ''ssh/authorized_keys'') of
        None \<Rightarrow> (a, Some ''read authorized update keys'')
      | Some authorized \<Rightarrow>
          if \<exists>l \<in> set (scan_lines authorized). maxToken \<le> length l then (a, Some ''token too long'')
          else if allowed_signers authorized = [] then
            (a, Some ''no plain SSH public key is available to authorize updates'')
          else
            (case write_file ws (signers_path ws) (text_of (allowed_signers authorized)) a of
               (a1, False) \<Rightarrow> (a1, Some ''write allowed signers'')
             | (a1, True) \<Rightarrow>
                 (case keygen (text_of (allowed_signers authorized)) signature bundle of
                    None \<Rightarrow> (a1, None)
                  | Some out \<Rightarrow> (a1, Some (''update signature rejected: '' @ take 300 (trim_space out))))))"

section \<open>Installing\<close>

text \<open>
  What the handler finds besides the request: whether there is an updater and its lock is free,
  what the bridge says, whether the body is multipart and the upload directory can be made, the
  clock, and what is outside the program.
\<close>

record update_world =
  uw_updater :: bool
  uw_lock_free :: bool
  uw_bridge :: "status option"
  uw_force :: string
  uw_multipart :: bool
  uw_directory_ok :: bool
  uw_keygen :: keygen
  uw_unzip :: "string \<Rightarrow> zip_entry list option"
  uw_decode :: "string \<Rightarrow> update_manifest option"
  uw_targets_found :: bool
  uw_fault :: "(nat \<times> string) option"
  uw_now :: string

type_synonym update_system = "guarded \<times> flash"

definition file_text :: "appliance \<Rightarrow> string \<Rightarrow> string" where
  "file_text a path = (case ap_files a path of None \<Rightarrow> [] | Some t \<Rightarrow> t)"

definition install_uploaded ::
    "web_server \<Rightarrow> update_world \<Rightarrow> update_upload \<Rightarrow> appliance \<times> flash \<Rightarrow> (appliance \<times> flash) \<times> update_error option" where
  \<comment> \<open>\<open>Updater.Install\<close> on the two uploaded files\<close>
  "install_uploaded ws uw u af =
     (case af of
        (a, f) \<Rightarrow>
          (let bundle = file_text a (uu_bundle u);
               checked = uu_signature u \<noteq> [] \<and> withinSize (length bundle) MaxBundleSize
                 \<and> withinSize (length (file_text a (uu_signature u))) MaxSignatureSize;
               (a1, rejected) = (if checked then verify_signature ws (uw_keygen uw) bundle (file_text a (uu_signature u)) a
                                 else (a, None));
               ir = \<lparr>ir_bundle_size = length bundle,
                     ir_signature_size = (if uu_signature u = [] then None else Some (length (file_text a (uu_signature u)))),
                     ir_signature_ok = (rejected = None), ir_archive = uw_unzip uw bundle,
                     ir_targets_found = uw_targets_found uw, ir_fault = uw_fault uw\<rparr>;
               (f1, e) = Install (ws_sha256 ws) (uw_decode uw) ir (uw_now uw) f
           in ((a1, f1), e)))"

definition clean_up :: "update_upload \<Rightarrow> guarded \<Rightarrow> guarded" where
  \<comment> \<open>the two deferred removals\<close>
  "clean_up u s =
     (let s1 = (if uu_signature u \<noteq> [] then drop_file (uu_signature u) s else s)
      in if uu_bundle u \<noteq> [] then drop_file (uu_bundle u) s1 else s1)"

datatype update_reply =
    UpdateRefused int string
  | UpdateBusy refusal
  | UpdateRejected update_error
  | UpdateStaged update_state

definition installUpdate ::
    "web_server \<Rightarrow> cryptpw option \<Rightarrow> update_world \<Rightarrow> upload_part list \<Rightarrow> string option \<Rightarrow> update_system \<Rightarrow>
     update_system \<times> update_reply" where
  "installUpdate ws crypt uw ps broken s =
     (case s of
        ((g, a), f) \<Rightarrow>
          if \<not> uw_updater uw then (s, UpdateRefused 503 ''system updates are unavailable'')
          else
            (case stored ws a of
               Inl _ \<Rightarrow> (s, UpdateRefused 500 ''could not read appliance setup state'')
             | Inr c \<Rightarrow>
                 if \<not> sys_setup_complete (cg_system c) then
                   (s, UpdateRefused 409 ''complete first-boot setup before installing updates'')
                 else
                   (case refuseWhileBusy (uw_force uw) ''not installing an update'' (Some (grbl_backend (cg_grbl c))) (uw_bridge uw) of
                      Some r \<Rightarrow> (s, UpdateBusy r)
                    | None \<Rightarrow>
                        if \<not> uw_lock_free uw then (s, UpdateRefused 409 ''another update is already running'')
                        else if \<not> uw_multipart uw then (s, UpdateRefused 400 ''expected multipart update upload'')
                        else if \<not> uw_directory_ok uw then (s, UpdateRefused 500 ''could not prepare update storage'')
                        else
                          (case receiveUpdateParts ws crypt ps broken (g, a) of
                             (s1, u, Some e) \<Rightarrow> ((clean_up u s1, f), UpdateRefused 400 e)
                           | ((g1, a1), u, None) \<Rightarrow>
                               if uu_signature u = [] \<and> \<not> uu_password_accepted u then
                                 ((clean_up u (g1, a1), f),
                                  UpdateRefused 401 ''provide the appliance password, or a detached signature from an authorized key'')
                               else
                                 (case install_uploaded ws uw u (a1, f) of
                                    ((a2, f2), Some e) \<Rightarrow> ((clean_up u (g1, a2), f2), UpdateRejected e)
                                  | ((a2, f2), None) \<Rightarrow> ((clean_up u (g1, a2), f2), UpdateStaged (readState f2)))))))"

definition rollbackUpdate :: "update_world \<Rightarrow> flash \<Rightarrow> flash \<times> update_reply" where
  "rollbackUpdate uw f =
     (if \<not> uw_updater uw then (f, UpdateRefused 503 ''system updates are unavailable'')
      else
        (case StageRollback (uw_targets_found uw) (uw_fault uw) (uw_now uw) f of
           (f1, Inl e) \<Rightarrow> (f1, UpdateRejected e)
         | (f1, Inr _) \<Rightarrow> (f1, UpdateStaged (readState f1))))"

text \<open>What the page is told of the authorisations.\<close>

definition update_authorisations :: "web_server \<Rightarrow> appliance \<Rightarrow> bool \<times> bool" where
  \<comment> \<open>\<open>PasswordAccepted\<close> and \<open>DefaultPasswordInUse\<close>\<close>
  "update_authorisations ws a =
     (ws_has_runtime ws \<and> \<not> PasswordIsDefault (shadow_of ws a),
      ws_has_runtime ws \<and> PasswordIsDefault (shadow_of ws a))"

end
