(* ===== verification/Api_Setup_Facts.thy ===== *)
theory Api_Setup_Facts
  imports Api_Setup
begin

text \<open>
  What the handlers that change the appliance's settings keep: the stored configuration can be
  loaded and is the one in force; setting up happens once; and a password changes only for who
  knows the old one.
\<close>

section \<open>The invariant\<close>

definition settled_on :: "web_server \<Rightarrow> appliance \<Rightarrow> config \<Rightarrow> bool" where
  \<comment> \<open>this configuration is stored, can be stored again, and is the one in force\<close>
  "settled_on ws a c \<longleftrightarrow>
     apart (ws_manager ws) (ap_store a) \<and> stored ws a = Inr c \<and> storable (ws_printable ws) c
     \<and> in_force (ws_manager ws) a c"

lemma apart_cong: "so_path st = so_path st' \<Longrightarrow> apart mg st \<longleftrightarrow> apart mg st'"
  by (simp add: apart_def)

lemma settled_cong:
  assumes "settled_on ws a c" and "so_path (ap_store a') = so_path (ap_store a)"
    and "\<forall>p \<in> insert (so_path (ap_store a)) (insert (ap_ssid_file (ws_manager ws)) (set (run_names (ws_manager ws)))).
      ap_files a' p = ap_files a p"
  shows "settled_on ws a' c"
proof -
  have "stored ws a' = stored ws a"
    unfolding stored_def using assms(2,3) by (intro Load_cong) simp
  moreover have "rendered (ws_manager ws) (ap_files a') c = rendered (ws_manager ws) (ap_files a) c"
    using assms(3) by (intro rendered_cong) simp
  ultimately show ?thesis
    using assms apart_cong [OF assms(2)] by (simp add: settled_on_def in_force_iff)
qed

lemma harmless_settled: "harmless (ws_manager ws) (ap_store a) undo \<Longrightarrow> settled_on ws a c \<Longrightarrow> settled_on ws (undo a) c"
  by (rule settled_cong) (auto simp: harmless_def)

lemma save_config_path: "so_path (ap_store (fst (save_config ws c a))) = so_path (ap_store a)"
  by (cases rule: save_config_cases [of ws c a]) simp_all

lemma save_and_apply_path:
  assumes "\<And>x. ap_store (undo x) = ap_store x"
  shows "so_path (ap_store (fst (save_and_apply ws previous c undo a))) = so_path (ap_store a)"
  by (auto simp: save_and_apply_def assms save_config_path split: prod.splits option.splits)
    (metis Apply_store assms fst_conv save_config_path)+

lemma save_and_apply_settles:
  assumes before: "settled_on ws a previous" and runtime: "ws_has_runtime ws"
    and storable: "storable (ws_printable ws) c" and harmless: "harmless (ws_manager ws) (ap_store a) undo"
    and run: "save_and_apply ws previous c undo a = (a', outcome)"
  shows "settled_on ws a' (if outcome = Saved then c else previous)"
proof -
  have path: "so_path (ap_store a') = so_path (ap_store a)"
    using save_and_apply_path [of undo ws previous c a] harmless run by (simp add: harmless_def)
  have apart': "apart (ws_manager ws) (ap_store a')"
    using before apart_cong [OF path] by (simp add: settled_on_def)
  note parts = before [unfolded settled_on_def]
  show ?thesis
  proof (cases outcome)
    case Saved
    obtain a1 where a1: "save_config ws c a = (a1, None)" "Apply (ws_manager ws) a1 = (a', None)"
      using run Saved runtime by (auto simp: save_and_apply_def split: if_splits prod.splits option.splits)
    have "stored ws a1 = Inr c"
      using parts by (intro saved_is_stored [OF storable a1(1)]) (auto dest: stored_readable)
    moreover have "apart (ws_manager ws) (ap_store a1)"
      using parts apart_cong [of "ap_store a1" "ap_store a"] save_config_path [of ws c a] by (simp add: a1(1))
    ultimately have "stored ws a' = Inr c \<and> in_force (ws_manager ws) a' c"
      using Apply_in_force [OF _ a1(2)] by (auto simp: stored_def)
    then show ?thesis using Saved storable apart' by (simp add: settled_on_def)
  next
    case (SaveFailed e)
    then have "a' = undo a"
      using run by (cases rule: save_config_cases [of ws c a])
        (auto simp: save_and_apply_def split: if_splits prod.splits option.splits)
    then show ?thesis using SaveFailed harmless_settled [OF harmless before] by simp
  next
    case (ApplyFailed e)
    then have "save_and_apply ws previous c undo a = (a', ApplyFailed e)" using run by simp
    from taken_back [OF _ _ _ _ harmless this] parts
    have "stored ws a' = Inr previous \<and> in_force (ws_manager ws) a' previous" by simp
    then show ?thesis using ApplyFailed parts apart' by (simp add: settled_on_def)
  qed
qed

text \<open>The files of the set-up are none of those.\<close>

definition data_apart :: "web_server \<Rightarrow> store \<Rightarrow> bool" where
  "data_apart ws st \<longleftrightarrow>
     (\<forall>name \<in> {''shadow'', ''ssh/authorized_keys'', ''setup/laserbridge_ed25519''}.
        data_file ws name \<notin>
          insert (so_path st) (insert (ap_ssid_file (ws_manager ws)) (set (run_names (ws_manager ws)))))"

lemma data_apart_cong: "so_path st = so_path st' \<Longrightarrow> data_apart ws st \<longleftrightarrow> data_apart ws st'"
  by (simp add: data_apart_def)

lemma data_file_written:
  assumes "data_apart ws (ap_store a)" and "name \<in> {''shadow'', ''ssh/authorized_keys'', ''setup/laserbridge_ed25519''}"
    and "settled_on ws a c" and "ap_store a' = ap_store a"
    and "ap_files a' = (ap_files a)(data_file ws name := x)"
  shows "settled_on ws a' c"
  using assms by (intro settled_cong [OF assms(3)]) (auto simp: data_apart_def)

lemma write_file_cases:
  "write_file ws p t a = (a', b) \<Longrightarrow>
   ap_store a' = ap_store a \<and> (ap_files a' = ap_files a \<or> ap_files a' = (ap_files a)(p := Some t))"
  by (auto simp: write_file_def split: if_splits)

lemma restorer_harmless:
  assumes "data_apart ws st"
  shows "harmless (ws_manager ws) st (authorizedRestorer ws (data_file ws ''ssh/authorized_keys'') previous)"
  using assms
  by (auto simp: harmless_def authorizedRestorer_def remove_file_def write_file_def data_apart_def split: option.split)


text \<open>What a request to finish the set-up comes to.\<close>

lemma set_password_cases:
  "set_password ws crypt pw a = (a1, e) \<Longrightarrow>
     ap_store a1 = ap_store a \<and> (a1 = a \<or> (\<exists>t. a1 = a\<lparr>ap_files := (ap_files a)(data_file ws ''shadow'' \<mapsto> t)\<rparr>))
     \<and> (e \<noteq> None \<longrightarrow> a1 = a)"
  by (auto simp: set_password_def Let_def split: prod.splits sum.splits option.splits)

lemma finish_setup_cases:
  assumes "finish_setup ws rq previous key a = (a', r, cs)"
  obtains (unwritten) "a' = a" "r = Failure 500 ''could not install SSH key''" "cs = []"
  | (went) a1 a2 outcome where
      "a1 = (if key = [] then a
             else a\<lparr>ap_files := (ap_files a)(data_file ws ''ssh/authorized_keys'' \<mapsto> authorizedKeys (ap_files a rambootKeyPath) key)\<rparr>)"
      "save_and_apply ws previous (setup_config rq previous)
         (authorizedRestorer ws (data_file ws ''ssh/authorized_keys'') (ap_files a (data_file ws ''ssh/authorized_keys''))) a1
       = (a2, outcome)"
      "if outcome = Saved then a' = remove_file (data_file ws ''setup/laserbridge_ed25519'') a2 \<and> (\<exists>t. r = Done 202 t)
       else a' = a2 \<and> cs = [] \<and> (\<exists>e. r = Failure 500 e)"
      "key = [] \<or> os_write_error (ws_os ws) (data_file ws ''ssh/authorized_keys'') = None"
proof (cases "key \<noteq> [] \<and> os_write_error (ws_os ws) (data_file ws ''ssh/authorized_keys'') \<noteq> None")
  case True
  then have "a' = a" "r = Failure 500 ''could not install SSH key''" "cs = []"
    using assms by (auto simp: finish_setup_def write_file_def Let_def)
  then show thesis by (rule unwritten)
next
  case False
  show thesis
    by (rule went [OF refl surjective_pairing])
      (use assms False in \<open>auto simp: finish_setup_def write_file_def Let_def split: prod.splits save_outcome.splits if_splits\<close>)
qed

lemma completeSetup_cases:
  assumes "completeSetup ws crypt body a = (a', r, cs)"
  obtains (refused) code e where "a' = a" "r = Failure code e" "cs = []"
  | (went) rq previous key a1 where "body = Inr rq" "stored ws a = Inr previous"
      "\<not> sys_setup_complete (cg_system previous)" "chosen_key ws rq a = Inr key"
      "setup_problem rq previous key = None"
      "if su_password rq = [] then a1 = a else set_password ws crypt (su_password rq) a = (a1, None)"
      "finish_setup ws rq previous key a1 = (a', r, cs)"
proof (cases "\<exists>rq previous key. body = Inr rq \<and> stored ws a = Inr previous
    \<and> \<not> sys_setup_complete (cg_system previous) \<and> chosen_key ws rq a = Inr key
    \<and> setup_problem rq previous key = None")
  case False
  then have "a' = a \<and> cs = [] \<and> (\<exists>code e. r = Failure code e)"
    using assms by (cases body) (auto simp: completeSetup_def split: sum.splits if_splits option.splits)
  then show thesis using refused by blast
next
  case True
  then obtain rq previous key where ok: "body = Inr rq" "stored ws a = Inr previous"
      "\<not> sys_setup_complete (cg_system previous)" "chosen_key ws rq a = Inr key" "setup_problem rq previous key = None"
    by blast
  show thesis
  proof (cases "su_password rq = []")
    case True
    show thesis
      by (rule went [OF ok, of a]) (use True assms ok in \<open>simp_all add: completeSetup_def\<close>)
  next
    case False
    obtain a1 e where pw: "set_password ws crypt (su_password rq) a = (a1, e)" by fastforce
    show thesis
    proof (cases "ws_has_runtime ws \<and> e = None")
      case True
      show thesis
        by (rule went [OF ok, of a1]) (use False True pw assms ok in \<open>simp_all add: completeSetup_def\<close>)
    next
      case bad: False
      have "a1 = a" if "e \<noteq> None" using set_password_cases [OF pw] that by simp
      then have "a' = a \<and> cs = [] \<and> (\<exists>code e. r = Failure code e)"
        using False bad pw assms ok by (auto simp: completeSetup_def split: if_splits)
      then show thesis using refused by blast
    qed
  qed
qed

lemma password_settled:
  assumes "set_password ws crypt pw a = (a1, e)" and "settled_on ws a c" and "data_apart ws (ap_store a)"
  shows "settled_on ws a1 c"
proof (cases "a1 = a")
  case False
  then obtain t where "a1 = a\<lparr>ap_files := (ap_files a)(data_file ws ''shadow'' \<mapsto> t)\<rparr>"
    using set_password_cases [OF assms(1)] by blast
  then show ?thesis by (intro data_file_written [OF assms(3) _ assms(2), of "''shadow''" _ "Some t"]) simp_all
qed (use assms(2) in simp)

lemma finish_settles:
  assumes before: "settled_on ws a previous" and runtime: "ws_has_runtime ws" and data: "data_apart ws (ap_store a)"
    and storable: "storable (ws_printable ws) (setup_config rq previous)"
    and run: "finish_setup ws rq previous key a = (a', r, cs)"
  shows "settled_on ws a' (if \<exists>t. r = Done 202 t then setup_config rq previous else previous)
    \<and> so_path (ap_store a') = so_path (ap_store a)"
  using run
proof (cases rule: finish_setup_cases)
  case unwritten
  with before show ?thesis by simp
next
  case (went a1 a2 outcome)
  let ?p = "data_file ws ''ssh/authorized_keys''"
  have store: "ap_store a1 = ap_store a" by (simp add: went(1))
  have "settled_on ws a1 previous"
  proof (cases "key = []")
    case False
    show ?thesis
      by (rule data_file_written [OF data, of "''ssh/authorized_keys''" previous a1 "Some (authorizedKeys (ap_files a rambootKeyPath) key)"])
        (use False before in \<open>simp_all add: went(1)\<close>)
  qed (use before went(1) in simp)
  moreover have harmless: "harmless (ws_manager ws) (ap_store a1) (authorizedRestorer ws ?p (ap_files a ?p))"
    by (rule restorer_harmless) (simp add: store data)
  ultimately have a2: "settled_on ws a2 (if outcome = Saved then setup_config rq previous else previous)"
    using save_and_apply_settles [OF _ runtime storable _ went(2)] by blast
  have path: "so_path (ap_store a2) = so_path (ap_store a)"
    using save_and_apply_path [of "authorizedRestorer ws ?p (ap_files a ?p)" ws previous "setup_config rq previous" a1]
      harmless went(2) store by (simp add: harmless_def)
  show ?thesis
  proof (cases "outcome = Saved")
    case True
    have data2: "data_apart ws (ap_store a2)" by (simp add: data_apart_cong [OF path] data)
    have settled2: "settled_on ws a2 (setup_config rq previous)" using a2 True by simp
    have "settled_on ws (remove_file (data_file ws ''setup/laserbridge_ed25519'') a2) (setup_config rq previous)"
      by (rule data_file_written [OF data2 _ settled2, of "''setup/laserbridge_ed25519''" _ None]) (simp_all add: remove_file_def)
    then show ?thesis using went(3) True path by (simp add: remove_file_def)
  qed (use went(3) a2 path in auto)
qed

section \<open>Any sequence of requests\<close>

text \<open>The four requests that change the settings, and the configuration each of them asks for.\<close>

datatype api_request =
    PutConfig config_request "status option"
  | PutWiFi "string + wifi_request"
  | FinishSetup "string + setup_request"
  | NewPassword instant instant "string + password_request"

fun serve :: "web_server \<Rightarrow> cryptpw option \<Rightarrow> api_request \<Rightarrow> attempt_guard \<times> appliance \<Rightarrow> (attempt_guard \<times> appliance) \<times> reply" where
  "serve ws crypt (PutConfig rq bridge) (g, a) = (case putConfig ws bridge rq a of (a', r) \<Rightarrow> ((g, a'), r))"
| "serve ws crypt (PutWiFi body) (g, a) = (case updateWiFi ws body a of (a', r, _) \<Rightarrow> ((g, a'), r))"
| "serve ws crypt (FinishSetup body) (g, a) = (case completeSetup ws crypt body a of (a', r, _) \<Rightarrow> ((g, a'), r))"
| "serve ws crypt (NewPassword asked checked body) s = changePassword ws crypt asked checked body s"

fun asked_config :: "api_request \<Rightarrow> config \<Rightarrow> config option" where
  "asked_config (PutConfig rq _) previous =
     (case cr_body rq of Inl _ \<Rightarrow> None | Inr body \<Rightarrow> Some (kept_fields previous body))"
| "asked_config (PutWiFi body) previous = (case body of Inl _ \<Rightarrow> None | Inr rq \<Rightarrow> Some (wifi_of rq previous))"
| "asked_config (FinishSetup body) previous = (case body of Inl _ \<Rightarrow> None | Inr rq \<Rightarrow> Some (setup_config rq previous))"
| "asked_config (NewPassword _ _ _) _ = None"

text \<open>
  Requests whose configuration, if it is valid at all, can be written in lines the reader takes
  (every string up to 16000 bytes does, and a body is limited to 64 kilobytes).
\<close>

definition modest :: "web_server \<Rightarrow> api_request \<Rightarrow> appliance \<Rightarrow> bool" where
  "modest ws rq a \<longleftrightarrow>
     (\<forall>previous c. stored ws a = Inr previous \<longrightarrow> asked_config rq previous = Some c \<longrightarrow> Validate c = None \<longrightarrow>
        storable (ws_printable ws) c)"

inductive served :: "web_server \<Rightarrow> cryptpw option \<Rightarrow> attempt_guard \<times> appliance \<Rightarrow> attempt_guard \<times> appliance \<Rightarrow> bool"
  for ws crypt s0 where
  nothing: "served ws crypt s0 s0"
| one_more: "served ws crypt s0 s \<Longrightarrow> modest ws rq (snd s) \<Longrightarrow> serve ws crypt rq s = (s', r) \<Longrightarrow> served ws crypt s0 s'"

definition orderly :: "web_server \<Rightarrow> appliance \<Rightarrow> config \<Rightarrow> bool" where
  "orderly ws a c \<longleftrightarrow> settled_on ws a c \<and> data_apart ws (ap_store a)"

lemma orderlyI:
  "settled_on ws a' c' \<Longrightarrow> so_path (ap_store a') = so_path (ap_store a) \<Longrightarrow> data_apart ws (ap_store a) \<Longrightarrow> orderly ws a' c'"
  using data_apart_cong [of "ap_store a'" "ap_store a"] by (simp add: orderly_def)

lemma tried_orderly:
  assumes "orderly ws a previous" and "ws_has_runtime ws" and "storable (ws_printable ws) c"
    and "save_and_apply ws previous c (\<lambda>x. x) a = (a', outcome)"
  shows "orderly ws a' (if outcome = Saved then c else previous)"
proof (rule orderlyI)
  show "settled_on ws a' (if outcome = Saved then c else previous)"
    using assms by (intro save_and_apply_settles [OF _ assms(2,3) _ assms(4)]) (simp_all add: orderly_def harmless_def)
  show "so_path (ap_store a') = so_path (ap_store a)"
    using save_and_apply_path [of "\<lambda>x. x" ws previous c a] assms(4) by simp
qed (use assms(1) in \<open>simp add: orderly_def\<close>)

text \<open>Whatever is served, some configuration is settled on, and the set-up stays done.\<close>

definition goes_on :: "web_server \<Rightarrow> config \<Rightarrow> appliance \<Rightarrow> bool" where
  "goes_on ws c a \<longleftrightarrow>
     (\<exists>c'. orderly ws a c' \<and> (sys_setup_complete (cg_system c) \<longrightarrow> sys_setup_complete (cg_system c')))"

lemma goes_onI: "orderly ws a c' \<Longrightarrow> sys_setup_complete (cg_system c') \<longleftrightarrow> sys_setup_complete (cg_system c) \<Longrightarrow> goes_on ws c a"
  by (auto simp: goes_on_def)

lemma kept_setup [simp]: "sys_setup_complete (cg_system (kept_fields previous body)) = sys_setup_complete (cg_system previous)"
  by (simp add: kept_fields_def)

lemma wifi_setup [simp]: "cg_system (wifi_of rq previous) = cg_system previous"
  by (simp add: wifi_of_def Let_def)

lemma finished_setup [simp]: "sys_setup_complete (cg_system (setup_config rq previous))"
  by (simp add: setup_config_def)

lemma orderly_stored: "orderly ws a c \<Longrightarrow> stored ws a = Inr c"
  by (simp add: orderly_def settled_on_def)

lemma putConfig_goes_on:
  assumes "orderly ws a c" and "ws_has_runtime ws" and "modest ws (PutConfig rq bridge) a"
    and "putConfig ws bridge rq a = (a', r)"
  shows "goes_on ws c a'"
  using assms(4)
proof (cases rule: putConfig_cases)
  case refused
  then show ?thesis using assms(1) goes_onI by blast
next
  case (tried body previous c')
  have prev: "previous = c" using tried(2) orderly_stored [OF assms(1)] by simp
  have "storable (ws_printable ws) c'"
    using assms(3) tried(1,2,4,5) by (auto simp: modest_def)
  from tried_orderly [OF assms(1,2) this] tried(7) have "orderly ws a' c" by (fastforce simp: prev)
  then show ?thesis by (rule goes_onI) simp
next
  case (saved body previous c' a1 w)
  have prev: "previous = c" using saved(2) orderly_stored [OF assms(1)] by simp
  have "storable (ws_printable ws) c'"
    using assms(3) saved(1,2,4,5) by (auto simp: modest_def)
  from tried_orderly [OF assms(1,2) this] saved(7) have a1: "orderly ws a1 c'" by (fastforce simp: prev)
  have same: "ap_store a' = ap_store a1" "ap_files a' = ap_files a1"
    using saved(9) by (auto split: option.splits)
  then have "settled_on ws a' c'"
    using a1 by (intro settled_cong [of ws a1 c' a']) (simp_all add: orderly_def)
  then have "orderly ws a' c'" using a1 same(1) by (simp add: orderly_def)
  then show ?thesis by (rule goes_onI) (simp add: saved(4) prev)
qed

lemma updateWiFi_cases:
  assumes "updateWiFi ws body a = (a', r, cs)"
  obtains (refused) "a' = a" "\<forall>t. r \<noteq> Done 202 t"
  | (went) rq previous outcome where "body = Inr rq" "stored ws a = Inr previous" "Validate (wifi_of rq previous) = None"
      "save_and_apply ws previous (wifi_of rq previous) (\<lambda>x. x) a = (a', outcome)"
      "outcome = Saved \<longleftrightarrow> (\<exists>t. r = Done 202 t)"
proof (cases "\<exists>rq previous. body = Inr rq \<and> stored ws a = Inr previous \<and> Validate (wifi_of rq previous) = None")
  case False
  then have "a' = a \<and> (\<forall>t. r \<noteq> Done 202 t)"
    using assms by (cases body) (auto simp: updateWiFi_def split: sum.splits option.splits)
  then show thesis using refused by blast
next
  case True
  then obtain rq previous where ok: "body = Inr rq" "stored ws a = Inr previous" "Validate (wifi_of rq previous) = None"
    by blast
  obtain a1 outcome where run: "save_and_apply ws previous (wifi_of rq previous) (\<lambda>x. x) a = (a1, outcome)" by fastforce
  have "a1 = a' \<and> (outcome = Saved \<longleftrightarrow> (\<exists>t. r = Done 202 t))"
    using assms run by (cases outcome) (auto simp: updateWiFi_def ok)
  then show thesis using went [OF ok] run by simp
qed

lemma updateWiFi_goes_on:
  assumes "orderly ws a c" and "ws_has_runtime ws" and "modest ws (PutWiFi body) a"
    and "updateWiFi ws body a = (a', r, cs)"
  shows "goes_on ws c a'"
  using assms(4)
proof (cases rule: updateWiFi_cases)
  case refused
  then show ?thesis using assms(1) goes_onI by blast
next
  case (went rq previous outcome)
  have prev: "previous = c" using went(2) orderly_stored [OF assms(1)] by simp
  have "storable (ws_printable ws) (wifi_of rq c)"
    using assms(3) went(1-3) by (auto simp: modest_def prev)
  from tried_orderly [OF assms(1,2) this] went(4)
  have "orderly ws a' (if outcome = Saved then wifi_of rq c else c)" by (simp add: prev)
  then show ?thesis by (rule goes_onI) simp
qed

lemma completeSetup_goes_on:
  assumes "orderly ws a c" and "ws_has_runtime ws" and "modest ws (FinishSetup body) a"
    and "completeSetup ws crypt body a = (a', r, cs)"
  shows "goes_on ws c a'"
  using assms(4)
proof (cases rule: completeSetup_cases)
  case (refused code e)
  then show ?thesis using assms(1) goes_onI by blast
next
  case (went rq previous key a1)
  have prev: "previous = c" using went(2) orderly_stored [OF assms(1)] by simp
  have "Validate (setup_config rq c) = None"
    using went(5) by (auto simp: setup_problem_def prev split: option.splits if_splits)
  then have small: "storable (ws_printable ws) (setup_config rq c)"
    using assms(3) went(1,2) by (auto simp: modest_def prev)
  have "settled_on ws a1 c \<and> ap_store a1 = ap_store a"
  proof (cases "su_password rq = []")
    case False
    then show ?thesis
      using went(6) password_settled [of ws crypt "su_password rq" a a1 None c] set_password_cases assms(1)
      by (simp add: orderly_def)
  qed (use went(6) assms(1) in \<open>simp add: orderly_def\<close>)
  then have a1: "settled_on ws a1 c" "data_apart ws (ap_store a1)" using assms(1) by (simp_all add: orderly_def)
  from finish_settles [OF a1(1) assms(2) a1(2) small went(7) [unfolded prev]]
  have "orderly ws a' (if \<exists>t. r = Done 202 t then setup_config rq c else c)"
    using a1(2) by (intro orderlyI) simp_all
  then show ?thesis using went(3) prev by (auto simp: goes_on_def split: if_splits)
qed

text \<open>Changing the password: what each answer says.\<close>

lemma changePassword_cases:
  assumes "changePassword ws crypt asked checked body (g, a) = ((g', a'), r)"
  obtains (refused) "g' = g" "a' = a" "\<exists>code e. code \<noteq> 403 \<and> r = Failure code e"
  | (checked) rq ok where "body = Inr rq" "validatePassword (pr_new rq) = None" "refuseTooManyAttempts asked g = None"
      "VerifyPassword crypt (shadow_of ws a) (pr_current rq) = Inr ok" "g' = guard_record ok checked g"
      "if ok then \<exists>e. set_password ws crypt (pr_new rq) a = (a', e)
           \<and> r = (if e = None then Done 200 ''password-changed'' else Failure 500 ''could not set the password'')
       else a' = a \<and> r = Failure 403 ''the current password is wrong''"
proof (cases "\<exists>rq ok. body = Inr rq \<and> ws_has_runtime ws \<and> validatePassword (pr_new rq) = None
    \<and> refuseTooManyAttempts asked g = None \<and> VerifyPassword crypt (shadow_of ws a) (pr_current rq) = Inr ok")
  case False
  then have "g' = g \<and> a' = a \<and> (\<exists>code e. code \<noteq> 403 \<and> r = Failure code e)"
    using assms by (cases body) (auto simp: changePassword_def split: if_splits option.splits sum.splits)
  then show thesis using refused by blast
next
  case True
  then obtain rq ok where ok: "body = Inr rq" "ws_has_runtime ws" "validatePassword (pr_new rq) = None"
      "refuseTooManyAttempts asked g = None" "VerifyPassword crypt (shadow_of ws a) (pr_current rq) = Inr ok"
    by blast
  show thesis
    by (rule checked [OF ok(1,3,4,5)])
      (use assms in \<open>auto simp: changePassword_def ok Let_def split: if_splits prod.splits option.splits\<close>)
qed

lemma changePassword_goes_on:
  assumes "orderly ws a c" and "changePassword ws crypt asked checked body (g, a) = ((g', a'), r)"
  shows "goes_on ws c a'"
  using assms(2)
proof (cases rule: changePassword_cases)
  case refused
  then show ?thesis using assms(1) goes_onI by blast
next
  case (checked rq ok)
  show ?thesis
  proof (cases ok)
    case True
    then obtain e where e: "set_password ws crypt (pr_new rq) a = (a', e)" using checked(6) by auto
    then have "settled_on ws a' c" using password_settled assms(1) by (auto simp: orderly_def)
    then have "orderly ws a' c" using assms(1) set_password_cases [OF e] by (simp add: orderly_def)
    then show ?thesis by (rule goes_onI) simp
  qed (use checked(6) assms(1) goes_onI in auto)
qed

lemma serve_goes_on:
  assumes "orderly ws (snd s) c" and "ws_has_runtime ws" and "modest ws rq (snd s)" and "serve ws crypt rq s = (s', r)"
  shows "goes_on ws c (snd s')"
proof -
  obtain g a where s: "s = (g, a)" by (cases s)
  obtain g' a' where s': "s' = (g', a')" by (cases s')
  show ?thesis
  proof (cases rq)
    case (PutConfig crq bridge)
    then show ?thesis using assms putConfig_goes_on [of ws a c crq bridge] by (auto simp: s s' split: prod.splits)
  next
    case (PutWiFi body)
    then show ?thesis using assms updateWiFi_goes_on [of ws a c body] by (auto simp: s s' split: prod.splits)
  next
    case (FinishSetup body)
    then show ?thesis using assms completeSetup_goes_on [of ws a c body crypt] by (auto simp: s s' split: prod.splits)
  next
    case (NewPassword asked checked body)
    then show ?thesis using assms changePassword_goes_on [of ws a c crypt asked checked body g] by (simp add: s s')
  qed
qed

lemma served_goes_on:
  "served ws crypt s0 s \<Longrightarrow> orderly ws (snd s0) c \<Longrightarrow> ws_has_runtime ws \<Longrightarrow> goes_on ws c (snd s)"
proof (induction rule: served.induct)
  case nothing
  then show ?case by (intro goes_onI) simp_all
next
  case (one_more s rq s' r)
  then obtain c' where c': "orderly ws (snd s) c'" "sys_setup_complete (cg_system c) \<longrightarrow> sys_setup_complete (cg_system c')"
    by (auto simp: goes_on_def)
  from serve_goes_on [OF c'(1) one_more.prems(2) one_more.hyps(2,3)] c'(2) show ?case
    by (auto simp: goes_on_def)
qed

section \<open>What the set-up and the password keep\<close>

text \<open>Files that none of the handlers writes stay as they are.\<close>

lemma save_config_other:
  "p \<noteq> so_path (ap_store a) \<Longrightarrow> ap_files (fst (save_config ws c a)) p = ap_files a p"
  by (cases rule: save_config_cases [of ws c a]) simp_all

lemma save_and_apply_other:
  assumes "p \<noteq> so_path (ap_store a)" and "p \<notin> set (run_names (ws_manager ws))"
    and undo: "\<And>x. ap_store (undo x) = ap_store x" and other: "\<And>x. ap_files x p = ap_files a p \<Longrightarrow> ap_files (undo x) p = v"
    and run: "save_and_apply ws previous c undo a = (a', outcome)" and failed: "outcome \<noteq> Saved"
  shows "ap_files a' p = v"
proof -
  let ?mg = "ws_manager ws"
  let ?a1 = "fst (save_config ws c a)"
  let ?a2 = "fst (Apply ?mg ?a1)"
  have a1: "ap_files ?a1 p = ap_files a p" by (rule save_config_other) fact
  have a2: "ap_files ?a2 p = ap_files a p" using a1 by (simp add: Apply_other_files assms(2))
  have "so_path (ap_store ?a2) = so_path (ap_store a)" by (simp add: save_config_path)
  then have "ap_files (fst (save_config ws previous ?a2)) p = ap_files a p"
    using assms(1) a2 by (simp add: save_config_other)
  then have "ap_files (fst (Apply ?mg (undo (fst (save_config ws previous ?a2))))) p = v"
    by (simp add: Apply_other_files assms(2) other)
  moreover have "ap_files (undo ?a1) p = v" using other a1 .
  moreover have "a' = undo ?a1 \<or> a' = fst (Apply ?mg (undo (fst (save_config ws previous ?a2))))"
    using run failed by (auto simp: save_and_apply_def split: if_splits prod.splits option.splits)
  ultimately show ?thesis by auto
qed

lemma restored_file:
  "(case v of None \<Rightarrow> True | Some t \<Rightarrow> os_write_error (ws_os ws) p = None) \<or> ap_files x p = v \<Longrightarrow>
     ap_files (authorizedRestorer ws p v x) p = v"
  by (auto simp: authorizedRestorer_def remove_file_def write_file_def split: option.splits)

lemma restored_other: "q \<noteq> p \<Longrightarrow> ap_files (authorizedRestorer ws p v x) q = ap_files x q"
  by (simp add: authorizedRestorer_def remove_file_def write_file_def split: option.splits)

lemma restored_store [simp]: "ap_store (authorizedRestorer ws p v x) = ap_store x"
  by (simp add: authorizedRestorer_def remove_file_def write_file_def split: option.splits)

lemma failed_finish_other:
  assumes "finish_setup ws rq previous key a = (a', r, cs)" and "\<forall>t. r \<noteq> Done 202 t"
    and "p \<noteq> so_path (ap_store a)" and "p \<notin> set (run_names (ws_manager ws))"
  shows "cs = [] \<and> ap_files a' p = ap_files a p"
  using assms(1)
proof (cases rule: finish_setup_cases)
  case (went a1 a2 outcome)
  let ?q = "data_file ws ''ssh/authorized_keys''"
  have failed: "outcome \<noteq> Saved" using went(3) assms(2) by auto
  have store: "ap_store a1 = ap_store a" by (simp add: went(1))
  have restored: "ap_files (authorizedRestorer ws ?q (ap_files a ?q) x) p = ap_files a p"
    if "ap_files x p = ap_files a1 p" for x
  proof (cases "p = ?q")
    case True
    have "(case ap_files a ?q of None \<Rightarrow> True | Some t \<Rightarrow> os_write_error (ws_os ws) ?q = None) \<or> ap_files x ?q = ap_files a ?q"
      using went(1,4) that True by (auto split: option.split)
    then show ?thesis using restored_file True by blast
  next
    case False
    then have "ap_files a1 p = ap_files a p" by (simp add: went(1))
    then show ?thesis using restored_other [OF False] that by simp
  qed
  have "ap_files a2 p = ap_files a p"
    by (rule save_and_apply_other [OF _ assms(4) _ restored went(2) failed]) (use assms(3) store in simp_all)
  then show ?thesis using went(3) failed by simp
qed simp

lemma settled_run_files:
  assumes "settled_on ws a c" and "settled_on ws a' c" and "ap_files a' (ap_ssid_file (ws_manager ws)) = ap_files a (ap_ssid_file (ws_manager ws))"
    and "p \<in> set (run_names (ws_manager ws))"
  shows "ap_files a' p = ap_files a p"
  using assms rendered_cong [of "ap_files a'" "ws_manager ws" "ap_files a" c]
  by (simp add: settled_on_def in_force_iff)

lemma chosen_key_line:
  assumes "validatePublicKey key = None"
  shows "newline \<notin> set key"
  using assms by (auto simp: newline_def validatePublicKey_def contains_any_def list_ex_iff split: if_splits)

lemma set_trim_left: "set (trim_left s) \<subseteq> set s"
  by (induction s rule: trim_left.induct) (auto split: if_splits)

lemma set_trim_left_rev: "set (trim_left_rev s) \<subseteq> set s"
  by (induction s rule: trim_left_rev.induct) (auto split: if_splits)

lemma set_trim_space: "set (trim_space s) \<subseteq> set s"
  using set_trim_left [of s] set_trim_left_rev [of "rev (trim_left s)"] by (auto simp: trim_space_def)

definition also_allowed :: "string option \<Rightarrow> string \<Rightarrow> string list" where
  \<comment> \<open>the keys built into a RAM-boot image, less the chosen one\<close>
  "also_allowed injected key =
     (case injected of None \<Rightarrow> []
      | Some t \<Rightarrow> filter (\<lambda>l. l \<noteq> [] \<and> l \<noteq> trim_space key) (map trim_space (split_string t newline)))"

lemma also_allowed_newline: "l \<in> set (also_allowed injected key) \<Longrightarrow> newline \<notin> set l"
  using split_parts [of _ newline] set_trim_space by (fastforce simp: also_allowed_def split: option.splits)

lemma authorized_lines:
  assumes "newline \<notin> set key"
  shows "split_string (authorizedKeys injected key) newline = key # also_allowed injected key @ [[]]"
proof -
  have "authorizedKeys injected key = concat (map (\<lambda>l. l @ [newline]) (key # also_allowed injected key))"
    by (simp add: authorizedKeys_def also_allowed_def Let_def nl_def newline_def split: option.split)
  also have "split_string \<dots> newline = (key # also_allowed injected key) @ [[]]"
    by (rule split_terminated) (use assms also_allowed_newline in auto)
  finally show ?thesis by simp
qed

lemma ramboot_apart: "rambootKeyPath \<noteq> data_file ws ''shadow''" "rambootKeyPath \<noteq> data_file ws ''ssh/authorized_keys''"
proof -
  have "last rambootKeyPath = CHR ''s''" by (simp add: rambootKeyPath_def)
  moreover have "last (data_file ws ''shadow'') = CHR ''w''" by (simp add: data_file_def)
  moreover have "rev rambootKeyPath ! 4 \<noteq> rev (data_file ws ''ssh/authorized_keys'') ! 4"
    by (simp add: rambootKeyPath_def data_file_def)
  ultimately show "rambootKeyPath \<noteq> data_file ws ''shadow''" "rambootKeyPath \<noteq> data_file ws ''ssh/authorized_keys''"
    by fastforce+
qed

lemma saved_other:
  assumes "save_and_apply ws previous c undo a = (a', Saved)"
    and "p \<noteq> so_path (ap_store a)" and "p \<notin> set (run_names (ws_manager ws))"
  shows "ap_files a' p = ap_files a p"
proof -
  let ?a1 = "fst (save_config ws c a)"
  have "a' = ?a1 \<or> a' = fst (Apply (ws_manager ws) ?a1)"
    using assms(1) by (auto simp: save_and_apply_def split: if_splits prod.splits option.splits)
  then show ?thesis using save_config_other [OF assms(2)] by (auto simp: Apply_other_files assms(3))
qed

lemma data_apartD:
  assumes "data_apart ws st"
    and "name = ''shadow'' \<or> name = ''ssh/authorized_keys'' \<or> name = ''setup/laserbridge_ed25519''"
  shows "data_file ws name \<noteq> so_path st" "data_file ws name \<notin> set (run_names (ws_manager ws))"
    "data_file ws name \<noteq> ap_ssid_file (ws_manager ws)"
  using assms by (auto simp: data_apart_def)

lemma data_file_eq [simp]: "data_file ws name = data_file ws name' \<longleftrightarrow> name = name'"
  by (simp add: data_file_def)

section \<open>Properties\<close>


text \<open>
  The set-up is offered once. When it has been complete at some point, then after any further
  requests the wizard changes nothing and never succeeds, and the private key that was generated
  for it is not handed out any more.
\<close>

theorem setup_is_offered_once:
  assumes "served ws crypt s0 s" and "orderly ws (snd s0) c" and "ws_has_runtime ws"
    and "sys_setup_complete (cg_system c)"
  shows "fst (completeSetup ws crypt body (snd s)) = snd s
    \<and> (\<exists>code e. snd (completeSetup ws crypt body (snd s)) = (Failure code e, []) \<and> code \<in> {400, 409})
    \<and> setupSSHKey ws (snd s) = Failure 410 ''initial SSH key is no longer available''"
proof -
  obtain c' where "stored ws (snd s) = Inr c'" "sys_setup_complete (cg_system c')"
    using served_goes_on [OF assms(1-3)] assms(4) orderly_stored unfolding goes_on_def by blast
  then show ?thesis by (cases body) (simp_all add: completeSetup_def setupSSHKey_def)
qed


text \<open>
  A password changes for who knows the old one. A request to change it writes the account
  database only, and only when the guard let it be tried and the password it names was found to
  be the one stored; a wrong one is counted, and nothing else happens.
\<close>

theorem password_needs_the_old_one:
  assumes "changePassword ws crypt asked checked body (g, a) = ((g', a'), r)"
  shows "(ap_files a' \<noteq> ap_files a \<longrightarrow>
      (\<exists>rq. body = Inr rq \<and> validatePassword (pr_new rq) = None \<and> refuseTooManyAttempts asked g = None
        \<and> VerifyPassword crypt (shadow_of ws a) (pr_current rq) = Inr True))
    \<and> (\<forall>p. p \<noteq> data_file ws ''shadow'' \<longrightarrow> ap_files a' p = ap_files a p)
    \<and> (\<forall>e. r = Failure 403 e \<longrightarrow> a' = a \<and> g' = guard_record False checked g)"
  using assms
proof (cases rule: changePassword_cases)
  case refused
  then show ?thesis by auto
next
  case (checked rq ok)
  show ?thesis
  proof (cases ok)
    case True
    then obtain e where e: "set_password ws crypt (pr_new rq) a = (a', e)" "\<forall>e. r \<noteq> Failure 403 e"
      using checked(6) by (auto split: if_splits)
    have "ap_files a' p = ap_files a p" if "p \<noteq> data_file ws ''shadow''" for p
      using set_password_cases [OF e(1)] that by auto
    then show ?thesis using checked(1-4) True e(2) by simp
  qed (use checked in auto)
qed

text \<open>
  C38: who can log in after the set-up. If no key was chosen the authorized keys are those of before;
  if one was, it was validated, and the lines of the file are that key and the keys built into
  the image: no request brings in a second one. The private key that was lying ready is gone.
\<close>

theorem only_the_chosen_key_gets_in:
  assumes "data_apart ws (ap_store a)" and "completeSetup ws crypt (Inr rq) a = (a', Done 202 t, cs)"
  shows "\<exists>key. chosen_key ws rq a = Inr key
    \<and> (if key = [] then ap_files a' (data_file ws ''ssh/authorized_keys'') = ap_files a (data_file ws ''ssh/authorized_keys'')
       else validatePublicKey key = None
         \<and> (\<exists>lines. ap_files a' (data_file ws ''ssh/authorized_keys'') = Some lines
              \<and> split_string lines newline = key # also_allowed (ap_files a rambootKeyPath) key @ [[]]))
    \<and> ap_files a' (data_file ws ''setup/laserbridge_ed25519'') = None"
  using assms(2)
proof (cases rule: completeSetup_cases)
  case (went rq' previous key a0)
  let ?q = "data_file ws ''ssh/authorized_keys''"
  have a0: "ap_store a0 = ap_store a" "\<And>p. p \<noteq> data_file ws ''shadow'' \<Longrightarrow> ap_files a0 p = ap_files a p"
    using went(6) set_password_cases [of ws crypt "su_password rq'" a a0 None] by (auto split: if_splits)
  from went(7) show ?thesis
  proof (cases rule: finish_setup_cases)
    case fin: (went a1 a2 outcome)
    have saved: "outcome = Saved" and a': "a' = remove_file (data_file ws ''setup/laserbridge_ed25519'') a2"
      using fin(3) by (auto split: if_splits)
    have "ap_store a1 = ap_store a" using a0(1) by (simp add: fin(1))
    then have "ap_files a2 ?q = ap_files a1 ?q"
      using data_apartD(1,2) [OF assms(1), of "''ssh/authorized_keys''"]
      by (intro saved_other [OF fin(2) [unfolded saved]]) simp_all
    then have q: "ap_files a' ?q =
        (if key = [] then ap_files a ?q else Some (authorizedKeys (ap_files a rambootKeyPath) key))"
      using a0(2) ramboot_apart(1) by (simp add: a' remove_file_def fin(1))
    have "validatePublicKey key = None" if "key \<noteq> []"
      using went(5) that by (simp add: setup_problem_def split: option.splits)
    then show ?thesis
      using q went(1,4) chosen_key_line authorized_lines by (auto simp: a' remove_file_def)
  qed simp
qed simp_all

section \<open>Runs\<close>

lemma plain_orderly:
  assumes "storable (\<lambda>_. True) c"
  obtains a where "orderly plain_server a c" "so_path (ap_store a) = ''/data/config.yaml''" "ap_files a rambootKeyPath = None"
proof -
  obtain data where data: "stored plain_server (appliance_with data) = Inr c"
    using plain_stored [OF assms] by blast
  let ?a = "fst (Apply plain_manager (appliance_with data))"
  have applied: "Apply plain_manager (appliance_with data) = (?a, None)"
    using plain_Apply data by (simp add: stored_def plain_server_def plain_manager_def prod_eq_iff)
  from Apply_in_force [OF plain_apart applied] have "in_force plain_manager ?a c"
    using data by (auto simp: stored_def plain_server_def)
  moreover have "stored plain_server ?a = Inr c"
    using stored_Apply [of plain_server "appliance_with data"] plain_apart data by (simp add: plain_server_def)
  ultimately have "orderly plain_server ?a c"
    using assms plain_apart
    by (simp add: orderly_def settled_on_def data_apart_def data_file_def run_names_def run_file_def ap_ssid_file_def
        plain_server_def plain_manager_def appliance_with_def)
  moreover have "so_path (ap_store ?a) = ''/data/config.yaml''" by (simp add: appliance_with_def)
  moreover have "ap_files ?a rambootKeyPath = None"
    by (subst Apply_other_files)
      (simp_all add: run_names_def run_file_def plain_manager_def rambootKeyPath_def appliance_with_def)
  ultimately show thesis by (rule that)
qed

definition done_config :: config where
  "done_config = Default\<lparr>cg_system := (cg_system Default)\<lparr>sys_setup_complete := True\<rparr>\<rparr>"

lemma done_storable: "storable table done_config"
proof -
  have "Validate done_config = None" by code_simp
  then show ?thesis
    unfolding storable_def
    by (intro conjI short_config_fits) (simp_all add: text_values_def done_config_def Default_def BackendSer2net_def OnDisconnectReset_def)
qed


theorem setup_is_offered_once_witness:
  "\<exists>a. setupSSHKey plain_server a = Failure 410 ''initial SSH key is no longer available''"
proof -
  obtain a where a: "orderly plain_server a done_config" using plain_orderly [OF done_storable] by blast
  have "served plain_server None (no_attempts, a) (no_attempts, a)" by (rule nothing)
  from setup_is_offered_once [OF this, of done_config] a show ?thesis
    by (auto simp: plain_server_def done_config_def)
qed

text \<open>A first set-up with a key, where the disk takes everything and where it does not take the configuration.\<close>

definition first_key :: string where
  "first_key = ''ssh-ed25519 AAAAC3NzaC1lZDI1NTE5AAAA''"

definition first_setup :: setup_request where
  "first_setup =
     \<lparr>su_hostname = ''Shop'', su_ssid = ''barn'', su_psk = ''hunter2hunter2'', su_country = ''de'', su_hidden = False,
      su_generated = False, su_public_key = first_key, su_password = []\<rparr>"

definition full_server :: web_server where
  "full_server = plain_server\<lparr>ws_manager := plain_manager\<lparr>mg_os := quiet_os
     \<lparr>os_write_error := (\<lambda>p. if p = ''/data/config.yaml'' then Some ''no space left on device'' else None)\<rparr>\<rparr>\<rparr>"

lemma first_key_fields: "string_fields first_key = [''ssh-ed25519'', ''AAAAC3NzaC1lZDI1NTE5AAAA'']"
  by code_simp

lemma first_key_payload:
  "b64_decode ''AAAAC3NzaC1lZDI1NTE5AAAA'' =
     Some ([CHR 0x00, CHR 0x00, CHR 0x00, CHR 0x0B] @ ''ssh-ed25519'' @ [CHR 0x00, CHR 0x00, CHR 0x00])"
  by (simp add: b64_value_def b64_bytes_def char_of_def bit_Suc_0_iff)

lemma first_key_valid: "validatePublicKey first_key = None" "trim_space first_key = first_key" "first_key \<noteq> []"
proof -
  have "\<not> 16 * 2 ^ 10 < length first_key" "\<not> contains_any first_key [CHR 0x0D, CHR 0x0A]"
    by (simp_all add: first_key_def contains_any_def)
  then show "validatePublicKey first_key = None"
    by (simp add: validatePublicKey_def first_key_fields first_key_payload [simplified append.simps]
        allowed_keys_def big_endian_def del: b64_decode.simps)
  show "trim_space first_key = first_key" "first_key \<noteq> []" by code_simp+
qed

lemma first_valid: "Validate (setup_config first_setup Default) = None"
  by code_simp

lemma first_storable: "storable table (setup_config first_setup Default)"
proof -
  have "to_lower_ascii (trim_space ''Shop'') = ''shop''" "to_upper_ascii ''de'' = ''DE''" by code_simp+
  then show ?thesis
    unfolding storable_def
    by (intro conjI first_valid short_config_fits)
      (simp_all add: text_values_def setup_config_def first_setup_def Default_def BackendSer2net_def OnDisconnectReset_def)
qed

lemma first_goes:
  assumes "stored ws a = Inr Default"
  shows "completeSetup ws crypt (Inr first_setup) a = finish_setup ws first_setup Default first_key a"
proof -
  have "chosen_key ws first_setup a = Inr first_key"
    by (simp add: chosen_key_def first_setup_def first_key_valid(2))
  moreover have "setup_problem first_setup Default first_key = None"
    using first_valid by (simp add: setup_problem_def first_key_valid) (simp add: first_setup_def)
  moreover have "\<not> sys_setup_complete (cg_system Default)" "su_password first_setup = []"
    by (simp_all add: Default_def first_setup_def)
  ultimately show ?thesis by (simp add: completeSetup_def assms)
qed

lemma full_orderly: "orderly plain_server a c \<Longrightarrow> orderly full_server a c"
  by (simp add: orderly_def settled_on_def data_apart_def data_file_def stored_def Load_def in_force_iff apart_def
      run_names_def run_file_def ap_ssid_file_def rendered_def full_server_def plain_server_def plain_manager_def quiet_os_def)

lemma full_fails:
  assumes "orderly full_server a Default" and path: "so_path (ap_store a) = ''/data/config.yaml''"
  shows "\<exists>a'. completeSetup full_server None (Inr first_setup) a = (a', Failure 500 ''could not save setup'', [])"
proof -
  have disk: "os_write_error (ws_os full_server) p = (if p = ''/data/config.yaml'' then Some ''no space left on device'' else None)" for p
    by (simp add: full_server_def)
  have fails: "\<exists>x' e. save_and_apply full_server previous c undo x = (x', SaveFailed e)"
    if "so_path (ap_store x) = ''/data/config.yaml''" for c x undo previous
    using that disk
    by (cases rule: save_config_cases [of full_server c x]) (auto simp: save_and_apply_def)
  let ?q = "data_file full_server ''ssh/authorized_keys''"
  let ?t = "authorizedKeys (ap_files a rambootKeyPath) first_key"
  let ?a1 = "a\<lparr>ap_files := (ap_files a)(?q \<mapsto> ?t)\<rparr>"
  have "?q = ''/data/ssh/authorized_keys''"
    by (simp add: data_file_def full_server_def plain_manager_def)
  then have "write_file full_server ?q ?t a = (?a1, True)" by (simp add: write_file_def disk)
  moreover obtain a2 e where "save_and_apply full_server Default (setup_config first_setup Default)
      (authorizedRestorer full_server ?q (ap_files a ?q)) ?a1 = (a2, SaveFailed e)"
    using fails [of ?a1] path by fastforce
  ultimately show ?thesis
    using first_key_valid(3)
    by (simp add: first_goes [OF orderly_stored [OF assms(1)]] finish_setup_def Let_def)
qed


lemma plain_write: "write_file plain_server p t a = (a\<lparr>ap_files := (ap_files a)(p \<mapsto> t)\<rparr>, True)"
  by (simp add: write_file_def plain_server_def plain_manager_def quiet_os_def)

theorem only_the_chosen_key_gets_in_witness:
  "\<exists>a lines. ap_files (fst (completeSetup plain_server None (Inr first_setup) a)) ''/data/ssh/authorized_keys'' = Some lines
     \<and> split_string lines newline = [first_key, []]"
proof -
  obtain a where a: "orderly plain_server a Default" "ap_files a rambootKeyPath = None"
    using plain_orderly [OF Default_storable] by blast
  let ?q = "data_file plain_server ''ssh/authorized_keys''"
  obtain a2 where "save_and_apply plain_server Default (setup_config first_setup Default)
      (authorizedRestorer plain_server ?q (ap_files a ?q))
      (fst (write_file plain_server ?q (authorizedKeys (ap_files a rambootKeyPath) first_key) a)) = (a2, Saved)"
    using plain_saves [OF first_storable] by blast
  then obtain a' t cs where run: "completeSetup plain_server None (Inr first_setup) a = (a', Done 202 t, cs)"
    using first_key_valid(3)
    by (auto simp: first_goes [OF orderly_stored [OF a(1)]] finish_setup_def Let_def plain_write)
  have "data_apart plain_server (ap_store a)" using a(1) by (simp add: orderly_def)
  from only_the_chosen_key_gets_in [OF this run]
  have "\<exists>lines. ap_files a' ?q = Some lines \<and> split_string lines newline = first_key # also_allowed None first_key @ [[]]"
    using a(2) first_key_valid by (auto simp: chosen_key_def first_setup_def)
  moreover have "?q = ''/data/ssh/authorized_keys''"
    by (simp add: data_file_def plain_server_def plain_manager_def)
  ultimately show ?thesis using run by (intro exI [of _ a]) (simp add: also_allowed_def)
qed

theorem password_needs_the_old_one_witness:
  "snd (changePassword plain_server (Some toy_crypt) 0 0 (Inr \<lparr>pr_current = ''guess'', pr_new = ''hunter22''\<rparr>)
      (no_attempts, (appliance_with [])\<lparr>ap_files := [''/data/shadow'' \<mapsto> shipped_shadow]\<rparr>))
     = Failure 403 ''the current password is wrong''
   \<and> fst (fst (changePassword plain_server (Some toy_crypt) 0 0 (Inr \<lparr>pr_current = ''guess'', pr_new = ''hunter22''\<rparr>)
      (no_attempts, (appliance_with [])\<lparr>ap_files := [''/data/shadow'' \<mapsto> shipped_shadow]\<rparr>)))
     = guard_record False 0 no_attempts"
proof -
  let ?rq = "\<lparr>pr_current = ''guess'', pr_new = ''hunter22''\<rparr>"
  let ?a = "(appliance_with [])\<lparr>ap_files := [''/data/shadow'' \<mapsto> shipped_shadow]\<rparr>"
  obtain g' a' r where run: "changePassword plain_server (Some toy_crypt) 0 0 (Inr ?rq) (no_attempts, ?a) = ((g', a'), r)"
    by (metis surj_pair)
  have "shadow_of plain_server ?a = Inr shipped_shadow"
    by (simp add: shadow_of_def data_file_def plain_server_def plain_manager_def)
  moreover have "VerifyPassword (Some toy_crypt) (Inr shipped_shadow) ''guess'' = Inr False"
    "validatePassword ''hunter22'' = None" "refuseTooManyAttempts 0 no_attempts = None"
    by code_simp+
  ultimately have "r = Failure 403 ''the current password is wrong''"
    using run by (simp add: changePassword_def plain_server_def Let_def)
  with password_needs_the_old_one [OF run] run show ?thesis by simp
qed

end
