(* ===== verification/Api_Update_Facts.thy ===== *)
theory Api_Update_Facts
  imports Api_Update Api_Setup_Facts Update_Facts
begin

text \<open>
  What holds of the update endpoints: nothing of an upload stays behind, and firmware is written
  only for who has an authorized key or knows the password.
\<close>

section \<open>What has been received\<close>

text \<open>
  What \<open>os.CreateTemp\<close> promises: a file that was not there, in the directory it was asked for.
\<close>

definition upload_file :: "web_server \<Rightarrow> string \<Rightarrow> bool" where
  "upload_file ws path \<longleftrightarrow> (\<exists>rest. path = data_file ws (''update/uploads/'' @ rest))"

definition temps :: "upload_part list \<Rightarrow> string list" where
  "temps ps = concat (map (\<lambda>p. case up_temp p of Inl _ \<Rightarrow> [] | Inr path \<Rightarrow> [path]) ps)"

definition fresh_temps :: "web_server \<Rightarrow> appliance \<Rightarrow> upload_part list \<Rightarrow> bool" where
  "fresh_temps ws a ps \<longleftrightarrow>
     distinct (temps ps) \<and> (\<forall>path \<in> set (temps ps). upload_file ws path \<and> ap_files a path = None)"

lemma temps_Nil [simp]: "temps [] = []"
  by (simp add: temps_def)

lemma temps_append [simp]: "temps (ps @ qs) = temps ps @ temps qs"
  by (simp add: temps_def)

lemma temps_single [simp]: "temps [p] = (case up_temp p of Inl _ \<Rightarrow> [] | Inr path \<Rightarrow> [path])"
  by (simp add: temps_def)

lemma upload_file_other: "upload_file ws path \<Longrightarrow> path \<noteq> data_file ws ''shadow''"
  "upload_file ws path \<Longrightarrow> path \<noteq> data_file ws ''ssh/authorized_keys''" "upload_file ws path \<Longrightarrow> path \<noteq> []"
  by (auto simp: upload_file_def data_file_def)

definition stored_part :: "appliance \<Rightarrow> upload_part list \<Rightarrow> string \<Rightarrow> string \<Rightarrow> bool" where
  "stored_part a ps name path \<longleftrightarrow>
     (\<exists>p \<in> set ps. up_name p = name \<and> up_temp p = Inr path \<and> ap_files a path = Some (up_data p))"

definition right_password :: "web_server \<Rightarrow> cryptpw option \<Rightarrow> appliance \<Rightarrow> upload_part list \<Rightarrow> bool" where
  "right_password ws crypt a ps \<longleftrightarrow>
     (\<exists>p \<in> set ps. up_name p = ''password'' \<and> \<not> PasswordIsDefault (shadow_of ws a)
        \<and> VerifyPassword crypt (shadow_of ws a) (typed_password (up_data p)) = Inr True)"

definition uploaded :: "update_upload \<Rightarrow> string set" where
  "uploaded u = {path. path \<noteq> [] \<and> (path = uu_bundle u \<or> path = uu_signature u)}"

definition received :: "web_server \<Rightarrow> cryptpw option \<Rightarrow> appliance \<Rightarrow> upload_part list \<Rightarrow> guarded \<Rightarrow> update_upload \<Rightarrow> bool" where
  "received ws crypt a0 ps s u \<longleftrightarrow>
     ap_store (snd s) = ap_store a0
     \<and> (\<forall>path. path \<notin> uploaded u \<longrightarrow> ap_files (snd s) path = ap_files a0 path)
     \<and> (uu_bundle u \<noteq> [] \<longrightarrow> stored_part (snd s) ps ''bundle'' (uu_bundle u) \<and> uu_bundle u \<noteq> uu_signature u)
     \<and> (uu_signature u \<noteq> [] \<longrightarrow> stored_part (snd s) ps ''signature'' (uu_signature u))
     \<and> (uu_password_accepted u \<longrightarrow> right_password ws crypt a0 ps)"

lemma stored_part_temps: "stored_part a ps name path \<Longrightarrow> path \<in> set (temps ps)"
  by (force simp: stored_part_def temps_def)

lemma stored_part_more: "stored_part a ps name path \<Longrightarrow> stored_part a (ps @ qs) name path"
  by (auto simp: stored_part_def)

lemma right_password_more: "right_password ws crypt a ps \<Longrightarrow> right_password ws crypt a (ps @ qs)"
  by (auto simp: right_password_def)

lemma received_more: "received ws crypt a0 ps s u \<Longrightarrow> received ws crypt a0 (ps @ qs) s u"
  by (auto simp: received_def stored_part_more right_password_more)

lemma received_kept:
  assumes "received ws crypt a0 ps s u" and "fresh_temps ws a0 ps" and "\<not> upload_file ws path"
  shows "ap_files (snd s) path = ap_files a0 path"
proof -
  have "path \<notin> uploaded u"
    using assms stored_part_temps by (fastforce simp: uploaded_def received_def fresh_temps_def)
  then show ?thesis using assms(1) by (simp add: received_def)
qed

lemma received_shadow:
  assumes "received ws crypt a0 ps s u" and "fresh_temps ws a0 ps"
  shows "shadow_of ws (snd s) = shadow_of ws a0"
proof -
  have "\<not> upload_file ws (data_file ws ''shadow'')" using upload_file_other(1) by blast
  then show ?thesis using received_kept [OF assms] by (simp add: shadow_of_def)
qed

lemma checked_password:
  assumes "checkUpdatePassword ws crypt asked checked candidate s = (s1, e)"
  shows "snd s1 = snd s" and "e = None \<Longrightarrow> \<not> PasswordIsDefault (shadow_of ws (snd s))
    \<and> VerifyPassword crypt (shadow_of ws (snd s)) candidate = Inr True"
  using assms by (auto simp: checkUpdatePassword_def split: prod.splits if_splits sum.splits)

lemma received_guard: "snd s1 = snd s \<Longrightarrow> received ws crypt a0 ps s u \<Longrightarrow> received ws crypt a0 ps s1 u"
  by (simp add: received_def)

lemma received_password:
  "received ws crypt a0 ps s u \<Longrightarrow> right_password ws crypt a0 ps \<Longrightarrow> received ws crypt a0 ps s (u\<lparr>uu_password_accepted := True\<rparr>)"
  by (simp add: received_def uploaded_def)

lemma received_with_file:
  assumes "received ws crypt a0 ps s u" and "destination_of name u = []" and "name = ''bundle'' \<or> name = ''signature''"
    and "path \<noteq> []" and "path \<noteq> uu_bundle u" and "path \<noteq> uu_signature u"
    and "ap_files (snd s1) = (ap_files (snd s))(path \<mapsto> data)" and "ap_store (snd s1) = ap_store (snd s)"
    and mine: "stored_part (snd s1) ps name path"
  shows "received ws crypt a0 ps s1 (with_destination name path u)"
proof -
  have others: "stored_part (snd s1) ps n q" if "stored_part (snd s) ps n q" "q \<noteq> path" for n q
    using that by (auto simp: stored_part_def assms(7))
  from assms(3) show ?thesis
  proof
    assume name: "name = ''bundle''"
    have "uploaded u \<subseteq> uploaded (u\<lparr>uu_bundle := path\<rparr>)" "path \<in> uploaded (u\<lparr>uu_bundle := path\<rparr>)"
      using assms(2,4) name by (auto simp: uploaded_def destination_of_def)
    then have "\<forall>q. q \<notin> uploaded (u\<lparr>uu_bundle := path\<rparr>) \<longrightarrow> ap_files (snd s1) q = ap_files a0 q"
      using assms(1,7) by (auto simp: received_def)
    then show ?thesis
      using assms(1,6,8) mine name others [of "''signature''" "uu_signature u"]
      by (simp add: received_def with_destination_def)
  next
    assume name: "name = ''signature''"
    have "uploaded u \<subseteq> uploaded (u\<lparr>uu_signature := path\<rparr>)" "path \<in> uploaded (u\<lparr>uu_signature := path\<rparr>)"
      using assms(2,4) name by (auto simp: uploaded_def destination_of_def)
    then have "\<forall>q. q \<notin> uploaded (u\<lparr>uu_signature := path\<rparr>) \<longrightarrow> ap_files (snd s1) q = ap_files a0 q"
      using assms(1,7) by (auto simp: received_def)
    then show ?thesis
      using assms(1,5,8) mine name others [of "''bundle''" "uu_bundle u"]
      by (simp add: received_def with_destination_def)
  qed
qed

lemma receive_file_received:
  assumes before: "received ws crypt a0 ps s u" and fresh: "fresh_temps ws a0 (ps @ [p])"
    and name: "up_name p = ''bundle'' \<or> up_name p = ''signature''"
    and run: "receive_file p u s = (s1, u1, e)"
  shows "received ws crypt a0 (ps @ [p]) s1 u1"
proof (cases "destination_of (up_name p) u = [] \<and> (\<exists>path. up_temp p = Inr path)")
  case False
  then have "s1 = s" "u1 = u" using run by (auto simp: receive_file_def split: sum.splits if_splits)
  then show ?thesis using received_more [OF before] by simp
next
  case True
  then obtain path where path: "destination_of (up_name p) u = []" "up_temp p = Inr path" by blast
  have new: "path \<noteq> []" "path \<noteq> uu_bundle u" "path \<noteq> uu_signature u" "ap_files a0 path = None"
    using fresh before stored_part_temps upload_file_other(3) [of ws path]
    by (auto simp: fresh_temps_def path(2) received_def)
  let ?limit = "upload_limit (up_name p)"
  show ?thesis
  proof (cases "up_fault p = None \<and> length (up_data p) \<le> ?limit")
    case False
    then have "s1 = drop_file path (put_file path (take (?limit + 1) (up_data p)) s)" "u1 = u"
      using run path by (auto simp: receive_file_def Let_def split: option.splits if_splits)
    moreover have "ap_files (snd s) path = None"
      using before new by (simp add: received_def uploaded_def)
    then have "ap_files (snd (drop_file path (put_file path d s))) = ap_files (snd s)" for d
      by (auto simp: drop_file_def put_file_def remove_file_def fun_upd_idem split: prod.split)
    moreover have "ap_store (snd (drop_file path (put_file path d s))) = ap_store (snd s)" for d
      by (simp add: drop_file_def put_file_def remove_file_def split: prod.split)
    ultimately show ?thesis
      using received_more [OF before, of "[p]"] by (simp add: received_def stored_part_def)
  next
    case True
    then have s1: "s1 = put_file path (up_data p) s" "u1 = with_destination (up_name p) path u"
      using run path by (auto simp: receive_file_def Let_def)
    have files: "ap_files (snd s1) = (ap_files (snd s))(path \<mapsto> up_data p)" "ap_store (snd s1) = ap_store (snd s)"
      by (simp_all add: s1 put_file_def split: prod.split)
    have mine: "stored_part (snd s1) (ps @ [p]) (up_name p) path"
      using path(2) by (auto simp: stored_part_def files)
    show ?thesis
      unfolding s1(2)
      by (rule received_with_file [OF received_more [OF before] path(1) name new(1-3) files mine])
  qed
qed

lemma receive_part_received:
  assumes before: "received ws crypt a0 ps s u" and fresh: "fresh_temps ws a0 (ps @ [p])"
    and run: "receive_part ws crypt p u s = (s1, u1, e)"
  shows "received ws crypt a0 (ps @ [p]) s1 u1"
proof (cases "up_name p = ''password''")
  case True
  have "fresh_temps ws a0 ps" using fresh by (simp add: fresh_temps_def)
  note shadow = received_shadow [OF before this]
  obtain s2 e2 where c: "checkUpdatePassword ws crypt (up_asked p) (up_checked p) (typed_password (up_data p)) s = (s2, e2)"
    by fastforce
  have snd: "snd s1 = snd s"
    using run True c checked_password(1) [OF c] by (auto simp: receive_part_def split: option.splits)
  have "u1 = u \<or> (u1 = u\<lparr>uu_password_accepted := True\<rparr> \<and> e2 = None)"
    using run True c by (auto simp: receive_part_def split: option.splits)
  moreover have "right_password ws crypt a0 (ps @ [p])" if "e2 = None"
    using checked_password(2) [OF c that] True by (auto simp: right_password_def shadow)
  ultimately show ?thesis
    using received_guard [OF snd received_more [OF before, of "[p]"]] received_password [of ws crypt a0 "ps @ [p]" s1 u] by auto
next
  case False
  show ?thesis
  proof (cases "up_name p = ''bundle'' \<or> up_name p = ''signature''")
    case True
    then show ?thesis using run False receive_file_received [OF before fresh True] by (simp add: receive_part_def)
  next
    case other: False
    then show ?thesis using run False received_more [OF before] by (auto simp: receive_part_def)
  qed
qed

lemma receive_parts_received:
  assumes "received ws crypt a0 qs s u" and "fresh_temps ws a0 (qs @ ps)"
    and "receive_parts ws crypt ps u s = (s1, u1, e)"
  shows "received ws crypt a0 (qs @ ps) s1 u1"
  using assms
proof (induction ps arbitrary: qs s u)
  case (Cons p ps)
  obtain s2 u2 e2 where one: "receive_part ws crypt p u s = (s2, u2, e2)" by (metis prod_cases3)
  have "fresh_temps ws a0 (qs @ [p])" using Cons.prems(2) temps_append [of "[p]" ps] by (auto simp: fresh_temps_def)
  from receive_part_received [OF Cons.prems(1) this one]
  have mid: "received ws crypt a0 (qs @ [p]) s2 u2" .
  show ?case
  proof (cases e2)
    case None
    then show ?thesis using Cons.IH [OF mid] Cons.prems(2,3) one by simp
  next
    case (Some x)
    then show ?thesis using Cons.prems(3) one received_more [OF mid, of ps] by simp
  qed
qed simp

lemma received_start: "received ws crypt a [] (g, a) no_upload"
  by (simp add: received_def no_upload_def)

lemma receiveUpdateParts_received:
  assumes "fresh_temps ws a ps" and "receiveUpdateParts ws crypt ps broken (g, a) = (s1, u, e)"
  shows "received ws crypt a ps s1 u"
  using assms receive_parts_received [OF received_start, of ws a ps crypt g]
  by (auto simp: receiveUpdateParts_def split: prod.splits option.splits)

lemma received_bundle:
  "receiveUpdateParts ws crypt ps broken s = (s1, u, None) \<Longrightarrow> uu_bundle u \<noteq> []"
  by (auto simp: receiveUpdateParts_def split: prod.splits option.splits if_splits)

section \<open>Installing\<close>

lemma clean_up_files:
  "ap_files (snd (clean_up u s)) path = (if path \<in> uploaded u then None else ap_files (snd s) path)"
  by (auto simp: clean_up_def drop_file_def remove_file_def uploaded_def Let_def split: prod.splits)

lemma clean_up_received:
  assumes "received ws crypt a ps s u" and "fresh_temps ws a ps"
    and "\<forall>q. q \<noteq> x \<longrightarrow> ap_files a2 q = ap_files (snd s) q" and "path \<noteq> x"
  shows "ap_files (snd (clean_up u (g, a2))) path = ap_files a path"
proof (cases "path \<in> uploaded u")
  case True
  then have "ap_files a path = None"
    using assms(1,2) stored_part_temps by (fastforce simp: uploaded_def received_def fresh_temps_def)
  then show ?thesis using True by (simp add: clean_up_files)
next
  case False
  then show ?thesis using assms by (simp add: clean_up_files received_def)
qed

lemma verify_signature_cases:
  assumes "verify_signature ws keygen bundle signature a = (a1, rejected)"
  shows "\<forall>q. q \<noteq> signers_path ws \<longrightarrow> ap_files a1 q = ap_files a q"
    and "rejected = None \<Longrightarrow> \<exists>authorized. ap_files a (data_file ws ''ssh/authorized_keys'') = Some authorized
        \<and> allowed_signers authorized \<noteq> [] \<and> keygen (text_of (allowed_signers authorized)) signature bundle = None"
  using assms
  by (auto simp: verify_signature_def write_file_def split: option.splits if_splits)

lemma install_uploaded_cases:
  assumes "install_uploaded ws uw u (a, f) = ((a1, f1), e)"
  obtains (quiet) "f1 = f" "\<forall>q. q \<noteq> signers_path ws \<longrightarrow> ap_files a1 q = ap_files a q"
  | (trusted) "uu_signature u = []" "a1 = a"
  | (signed) authorized where "\<forall>q. q \<noteq> signers_path ws \<longrightarrow> ap_files a1 q = ap_files a q"
      "ap_files a (data_file ws ''ssh/authorized_keys'') = Some authorized" "allowed_signers authorized \<noteq> []"
      "uw_keygen uw (text_of (allowed_signers authorized)) (file_text a (uu_signature u)) (file_text a (uu_bundle u)) = None"
proof -
  let ?b = "file_text a (uu_bundle u)" and ?s = "file_text a (uu_signature u)"
  let ?checked = "uu_signature u \<noteq> [] \<and> withinSize (length ?b) MaxBundleSize \<and> withinSize (length ?s) MaxSignatureSize"
  obtain a2 rejected where v: "(if ?checked then verify_signature ws (uw_keygen uw) ?b ?s a else (a, None)) = (a2, rejected)"
    by fastforce
  have a1: "a1 = a2" using assms v by (auto simp: install_uploaded_def Let_def split: prod.splits)
  have keep: "\<forall>q. q \<noteq> signers_path ws \<longrightarrow> ap_files a1 q = ap_files a q"
    using v verify_signature_cases(1) by (auto simp: a1 split: if_splits)
  show thesis
  proof (cases "uu_signature u = []")
    case True
    then have "a1 = a" using v a1 by simp
    with True show thesis by (rule trusted)
  next
    case False
    show thesis
    proof (cases "?checked \<and> rejected = None")
      case True
      with v have "verify_signature ws (uw_keygen uw) ?b ?s a = (a2, None)" by simp
      from verify_signature_cases(2) [OF this] signed [OF keep] show thesis by blast
    next
      case bad: False
      have "f1 = f"
        using assms v bad False
        by (auto simp: install_uploaded_def Let_def Install_def split: if_splits prod.splits)
      then show thesis using keep by (rule quiet)
    qed
  qed
qed

text \<open>A request that gets as far as its upload.\<close>

lemma installUpdate_cases:
  assumes "installUpdate ws crypt uw ps broken ((g, a), f) = (((g', a'), f'), r)"
  obtains (refused) "g' = g" "a' = a" "f' = f" "\<forall>st. r \<noteq> UpdateStaged st"
  | (rejected) c s1 u e where "stored ws a = Inr c" "sys_setup_complete (cg_system c)"
      "receiveUpdateParts ws crypt ps broken (g, a) = (s1, u, e)" "(g', a') = clean_up u s1" "f' = f"
      "\<forall>st. r \<noteq> UpdateStaged st"
  | (went) c a1 u a2 e where "stored ws a = Inr c" "sys_setup_complete (cg_system c)"
      "refuseWhileBusy (uw_force uw) ''not installing an update'' (Some (grbl_backend (cg_grbl c))) (uw_bridge uw) = None"
      "uw_lock_free uw" "receiveUpdateParts ws crypt ps broken (g, a) = ((g', a1), u, None)"
      "uu_signature u \<noteq> [] \<or> uu_password_accepted u" "install_uploaded ws uw u (a1, f) = ((a2, f'), e)"
      "(g', a') = clean_up u (g', a2)" "(\<exists>st. r = UpdateStaged st) \<longleftrightarrow> e = None"
proof (cases "\<exists>c. stored ws a = Inr c \<and> sys_setup_complete (cg_system c) \<and> uw_updater uw \<and> uw_lock_free uw \<and> uw_multipart uw
    \<and> uw_directory_ok uw
    \<and> refuseWhileBusy (uw_force uw) ''not installing an update'' (Some (grbl_backend (cg_grbl c))) (uw_bridge uw) = None")
  case False
  then have "g' = g \<and> a' = a \<and> f' = f \<and> (\<forall>st. r \<noteq> UpdateStaged st)"
    using assms by (auto simp: installUpdate_def split: if_splits sum.splits option.splits)
  then show thesis using refused by blast
next
  case True
  then obtain c where c: "stored ws a = Inr c" "sys_setup_complete (cg_system c)" "uw_updater uw" "uw_lock_free uw"
      "uw_multipart uw" "uw_directory_ok uw"
      "refuseWhileBusy (uw_force uw) ''not installing an update'' (Some (grbl_backend (cg_grbl c))) (uw_bridge uw) = None"
    by blast
  obtain g1 a1 u e where rc: "receiveUpdateParts ws crypt ps broken (g, a) = ((g1, a1), u, e)" by (metis prod.collapse)
  show thesis
  proof (cases "e = None \<and> (uu_signature u \<noteq> [] \<or> uu_password_accepted u)")
    case False
    then have "(g', a') = clean_up u (g1, a1) \<and> f' = f \<and> (\<forall>st. r \<noteq> UpdateStaged st)"
      using assms rc by (cases e) (auto simp: installUpdate_def c)
    then show thesis using rejected [OF c(1,2) rc] by blast
  next
    case True
    obtain a2 f2 e2 where run: "install_uploaded ws uw u (a1, f) = ((a2, f2), e2)" by (metis prod.collapse)
    have "(g', a') = clean_up u (g1, a2)" "f' = f2" "(\<exists>st. r = UpdateStaged st) \<longleftrightarrow> e2 = None"
      using assms rc run True by (cases e2; auto simp: installUpdate_def c)+
    moreover have "fst (clean_up u (g1, a2)) = g1" by (simp add: clean_up_def drop_file_def Let_def)
    ultimately show thesis using went [OF c(1,2,7,4), of a1 u a2 e2] rc run True by (metis fst_conv)
  qed
qed

section \<open>Properties\<close>


text \<open>
  Nothing of an upload stays behind. Whatever becomes of the request, every file of the
  appliance is as it was - the uploads are gone, the account database and the keys untouched -
  except for the list of allowed signers written for \<open>ssh-keygen\<close>.
\<close>

theorem uploads_leave_nothing_behind:
  assumes "fresh_temps ws a ps" and "installUpdate ws crypt uw ps broken ((g, a), f) = (((g', a'), f'), r)"
    and "path \<noteq> signers_path ws"
  shows "ap_files a' path = ap_files a path"
  using assms(2)
proof (cases rule: installUpdate_cases)
  case (rejected c s1 u e)
  note rec = receiveUpdateParts_received [OF assms(1) rejected(3)]
  have "ap_files (snd (clean_up u (fst s1, snd s1))) path = ap_files a path"
    by (rule clean_up_received [OF rec assms(1) _ assms(3)]) simp
  then show ?thesis using rejected(4) by (metis prod.collapse snd_conv)
next
  case (went c a1 u a2 e)
  note rec = receiveUpdateParts_received [OF assms(1) went(5)]
  have "\<forall>q. q \<noteq> signers_path ws \<longrightarrow> ap_files a2 q = ap_files (snd (g', a1)) q"
    using went(7) by (cases rule: install_uploaded_cases) simp_all
  from clean_up_received [OF rec assms(1) this assms(3)]
  have "ap_files (snd (clean_up u (g', a2))) path = ap_files a path" .
  then show ?thesis using went(8) by (metis snd_conv)
qed simp

section \<open>A run\<close>

definition demo_server :: web_server where "demo_server = plain_server\<lparr>ws_sha256 := demo_sha256\<rparr>"

definition demo_world :: update_world where
  "demo_world =
     \<lparr>uw_updater = True, uw_lock_free = True, uw_bridge = None, uw_force = [], uw_multipart = True,
      uw_directory_ok = True, uw_keygen = (\<lambda>_ _ _. None), uw_unzip = (\<lambda>_. ir_archive demo_request),
      uw_decode = (\<lambda>_. Some demo_manifest), uw_targets_found = True, uw_fault = None, uw_now = ''2026-01-01''\<rparr>"

definition demo_part :: "string \<Rightarrow> string \<Rightarrow> upload_part" where
  "demo_part name data =
     \<lparr>up_name = name, up_data = data, up_fault = None, up_temp = Inr (data_file demo_server (''update/uploads/'' @ name)),
      up_asked = 0, up_checked = 0\<rparr>"

definition demo_parts :: "upload_part list" where
  "demo_parts = [demo_part ''bundle'' ''PK'', demo_part ''signature'' ''SSHSIG'']"

definition demo_appliance :: "string \<Rightarrow> appliance" where
  "demo_appliance data =
     (appliance_with data)\<lparr>ap_files := (ap_files (appliance_with data))
        (''/data/ssh/authorized_keys'' \<mapsto> first_key @ nl)\<rparr>"

lemma demo_stored: "stored demo_server (demo_appliance data) = stored plain_server (appliance_with data)"
  unfolding stored_def
  by (simp add: demo_server_def demo_appliance_def) (rule Load_cong, simp add: appliance_with_def)

lemma demo_fresh: "fresh_temps demo_server (demo_appliance data) demo_parts"
  by (auto simp: fresh_temps_def temps_def demo_parts_def demo_part_def upload_file_def data_file_def demo_server_def
      plain_server_def plain_manager_def demo_appliance_def appliance_with_def)

lemma demo_signers: "allowed_signers (first_key @ nl) = [''laserbridge-update '' @ first_key]"
proof -
  have "scan_lines (first_key @ nl) = [first_key]" by code_simp
  moreover have "signer_line first_key" by code_simp
  ultimately show ?thesis by (simp add: allowed_signers_def first_key_valid(2))
qed

lemma demo_received:
  "\<exists>a1. receiveUpdateParts demo_server None demo_parts None (no_attempts, demo_appliance data) =
     ((no_attempts, a1),
      \<lparr>uu_bundle = ''/data/update/uploads/bundle'', uu_signature = ''/data/update/uploads/signature'',
       uu_password_accepted = False\<rparr>, None)
   \<and> ap_files a1 ''/data/update/uploads/bundle'' = Some ''PK''
   \<and> ap_files a1 ''/data/update/uploads/signature'' = Some ''SSHSIG''
   \<and> ap_files a1 ''/data/ssh/authorized_keys'' = Some (first_key @ nl)"
  by (simp add: receiveUpdateParts_def demo_parts_def demo_part_def receive_part_def receive_file_def no_upload_def
      destination_of_def with_destination_def upload_limit_def MaxBundleSize_def MaxSignatureSize_def Let_def
      put_file_def data_file_def demo_server_def plain_server_def plain_manager_def demo_appliance_def)

lemma demo_write: "write_file demo_server p t a = (a\<lparr>ap_files := (ap_files a)(p \<mapsto> t)\<rparr>, True)"
  by (simp add: write_file_def demo_server_def plain_server_def plain_manager_def quiet_os_def)

lemma demo_uploaded:
  assumes "ap_files a1 ''/data/update/uploads/bundle'' = Some ''PK''"
    and "ap_files a1 ''/data/update/uploads/signature'' = Some ''SSHSIG''"
    and "ap_files a1 ''/data/ssh/authorized_keys'' = Some (first_key @ nl)"
  shows "\<exists>a2. install_uploaded demo_server demo_world
      \<lparr>uu_bundle = ''/data/update/uploads/bundle'', uu_signature = ''/data/update/uploads/signature'',
       uu_password_accepted = False\<rparr> (a1, demo_flash)
    = ((a2, fst (demo_install demo_request demo_flash)), None)"
proof -
  have lines: "scan_lines (first_key @ nl) = [first_key]" by code_simp
  have short: "length first_key < maxToken" by (simp add: first_key_def maxToken_def)
  have path: "data_file demo_server ''ssh/authorized_keys'' = ''/data/ssh/authorized_keys''"
    by (simp add: data_file_def demo_server_def plain_server_def plain_manager_def)
  have "\<exists>a2. verify_signature demo_server (\<lambda>_ _ _. None) ''PK'' ''SSHSIG'' a1 = (a2, None)"
    using short by (simp add: verify_signature_def path assms(3) lines demo_signers not_le demo_write)
  then obtain a2 where a2: "verify_signature demo_server (\<lambda>_ _ _. None) ''PK'' ''SSHSIG'' a1 = (a2, None)" by blast
  let ?ir = "\<lparr>ir_bundle_size = length ''PK'', ir_signature_size = Some (length ''SSHSIG''), ir_signature_ok = True,
      ir_archive = ir_archive demo_request, ir_targets_found = True, ir_fault = None\<rparr>"
  have run: "Install demo_sha256 (\<lambda>_. Some demo_manifest) ?ir ''2026-01-01'' demo_flash
      = (fst (demo_install demo_request demo_flash), None)"
    using demo_opened demo_install_complete [of demo_flash]
    by (simp add: Install_def withinSize_def MaxBundleSize_def MaxSignatureSize_def carry_through_def)
  have "ws_sha256 demo_server = demo_sha256" by (simp add: demo_server_def)
  then show ?thesis
    using a2 run
    by (simp add: install_uploaded_def file_text_def assms demo_world_def withinSize_def MaxBundleSize_def
        MaxSignatureSize_def Let_def)
qed

lemma demo_run:
  assumes "stored plain_server (appliance_with data) = Inr done_config"
  obtains g' a' where "installUpdate demo_server None demo_world demo_parts None ((no_attempts, demo_appliance data), demo_flash)
    = (((g', a'), fst (demo_install demo_request demo_flash)), UpdateStaged (readState (fst (demo_install demo_request demo_flash))))"
proof -
  obtain a1 where a1: "receiveUpdateParts demo_server None demo_parts None (no_attempts, demo_appliance data) =
     ((no_attempts, a1),
      \<lparr>uu_bundle = ''/data/update/uploads/bundle'', uu_signature = ''/data/update/uploads/signature'',
       uu_password_accepted = False\<rparr>, None)"
   "ap_files a1 ''/data/update/uploads/bundle'' = Some ''PK''"
   "ap_files a1 ''/data/update/uploads/signature'' = Some ''SSHSIG''"
   "ap_files a1 ''/data/ssh/authorized_keys'' = Some (first_key @ nl)"
    using demo_received by blast
  obtain a2 where a2: "install_uploaded demo_server demo_world
      \<lparr>uu_bundle = ''/data/update/uploads/bundle'', uu_signature = ''/data/update/uploads/signature'',
       uu_password_accepted = False\<rparr> (a1, demo_flash)
    = ((a2, fst (demo_install demo_request demo_flash)), None)"
    using demo_uploaded [OF a1(2-4)] by blast
  have free: "refuseWhileBusy [] what (Some backend) None = None" for what backend
    by (simp add: refuseWhileBusy_def machineBusy_def)
  have "sys_setup_complete (cg_system done_config)" by (simp add: done_config_def)
  moreover have "uw_updater demo_world" "uw_lock_free demo_world" "uw_multipart demo_world" "uw_directory_ok demo_world"
      "uw_force demo_world = []" "uw_bridge demo_world = None"
    by (simp_all add: demo_world_def)
  ultimately show thesis
    using that assms a1(1) a2 free by (simp add: installUpdate_def demo_stored) (metis prod.collapse)
qed


theorem uploads_leave_nothing_behind_witness:
  "\<exists>data. ap_files (snd (fst (fst (installUpdate demo_server None demo_world demo_parts None
      ((no_attempts, demo_appliance data), demo_flash))))) ''/data/update/uploads/bundle'' = None"
proof -
  obtain data where data: "stored plain_server (appliance_with data) = Inr done_config"
    using plain_stored [OF done_storable] by blast
  obtain g' a' where run: "installUpdate demo_server None demo_world demo_parts None ((no_attempts, demo_appliance data), demo_flash)
      = (((g', a'), fst (demo_install demo_request demo_flash)), UpdateStaged (readState (fst (demo_install demo_request demo_flash))))"
    by (rule demo_run [OF data])
  have "''/data/update/uploads/bundle'' \<noteq> signers_path demo_server"
    by (simp add: signers_path_def demo_server_def plain_server_def plain_manager_def)
  from uploads_leave_nothing_behind [OF demo_fresh run this] run show ?thesis
    by (intro exI [of _ data]) (simp add: demo_appliance_def appliance_with_def)
qed

end
