(* ===== verification/Api_Server.thy ===== *)
theory Api_Server
  imports Api_Setup
begin

text \<open>
  The door of the web backend, \<open>backend/internal/api/server.go\<close>: which request goes to which
  handler, the guard in front of everything that changes something, the session that hands out
  its token, and the handlers for services, the reboot and the log. A request is what the guard
  reads of it; \<open>net/url\<close> and the Unicode table of case folding are arguments.
\<close>

section \<open>Requests\<close>

record http_request =
  hq_method :: string
  hq_path :: string
  hq_fetch_site :: string
  hq_origin :: string
  hq_host :: string
  hq_cookie :: "string option"
  hq_token :: string

text \<open>\<open>strings.EqualFold\<close>: rune by rune, up to the case folding of the table.\<close>

function runes_of :: "string \<Rightarrow> nat list" where
  "runes_of [] = []"
| "runes_of (a # t) = (case decode_rune a t of (r, w) \<Rightarrow> r # runes_of (drop (w - 1) t))"
  by pat_completeness auto
termination
  by (relation "measure length") auto

definition equal_fold :: "(nat \<Rightarrow> nat) \<Rightarrow> string \<Rightarrow> string \<Rightarrow> bool" where
  "equal_fold fd s t \<longleftrightarrow> map fd (runes_of s) = map fd (runes_of t)"

text \<open>\<open>url.Parse\<close>: scheme and host, or an error.\<close>

type_synonym url_parser = "string \<Rightarrow> (string \<times> string) option"

definition sameOrigin :: "(nat \<Rightarrow> nat) \<Rightarrow> url_parser \<Rightarrow> http_request \<Rightarrow> bool" where
  "sameOrigin fd parse rq \<longleftrightarrow>
     (if equal_fold fd (hq_fetch_site rq) ''cross-site'' then False
      else if hq_origin rq = [] then True
      else
        (case parse (hq_origin rq) of
           None \<Rightarrow> False
         | Some (scheme, host) \<Rightarrow>
             equal_fold fd host (hq_host rq) \<and> (scheme = ''http'' \<or> scheme = ''https'')))"

text \<open>\<open>ConstantTimeCompare\<close> takes as long for every pair of one length; its answer is equality.\<close>

definition mutation :: "(nat \<Rightarrow> nat) \<Rightarrow> url_parser \<Rightarrow> http_request \<Rightarrow> (int \<times> string) option" where
  \<comment> \<open>the refusal, or none\<close>
  "mutation fd parse rq =
     (if \<not> sameOrigin fd parse rq then Some (403, ''cross-origin request rejected'')
      else
        (case hq_cookie rq of
           None \<Rightarrow> Some (403, ''invalid CSRF token'')
         | Some cookie \<Rightarrow>
             if hq_token rq = [] \<or> length cookie \<noteq> length (hq_token rq) \<or> cookie \<noteq> hq_token rq
             then Some (403, ''invalid CSRF token'') else None))"

section \<open>The session\<close>

definition b64url_char :: "nat \<Rightarrow> byte" where
  "b64url_char n = ''ABCDEFGHIJKLMNOPQRSTUVWXYZabcdefghijklmnopqrstuvwxyz0123456789-_'' ! n"

text \<open>\<open>base64.RawURLEncoding\<close>: three bytes become four characters, without padding.\<close>

fun b64url :: "string \<Rightarrow> string" where
  "b64url (a # b # c # s) =
     (let n = (of_char a * 256 + of_char b) * 256 + of_char c :: nat
      in [b64url_char (n div 262144), b64url_char (n div 4096 mod 64), b64url_char (n div 64 mod 64), b64url_char (n mod 64)]
         @ b64url s)"
| "b64url [a, b] =
     (let n = of_char a * 256 + of_char b :: nat
      in [b64url_char (n div 1024), b64url_char (n div 16 mod 64), b64url_char (n mod 16 * 4)])"
| "b64url [a] = (let n = of_char a :: nat in [b64url_char (n div 4), b64url_char (n mod 4 * 16)])"
| "b64url [] = []"

definition session :: "string option \<Rightarrow> http_request \<Rightarrow> (int \<times> string) + (string \<times> string option)" where
  \<comment> \<open>the token of the answer, and the cookie it sets; the argument is 32 random bytes or none\<close>
  "session random rq =
     (case hq_cookie rq of
        Some v \<Rightarrow>
          if 32 \<le> length v then Inr (v, None)
          else (case random of None \<Rightarrow> Inl (500, ''could not create session'') | Some r \<Rightarrow> Inr (b64url r, Some (b64url r)))
      | None \<Rightarrow> (case random of None \<Rightarrow> Inl (500, ''could not create session'') | Some r \<Rightarrow> Inr (b64url r, Some (b64url r))))"

section \<open>Routing\<close>

datatype endpoint =
    E_session | E_setupStatus | E_setupSSHKey | E_completeSetup | E_updateWiFi | E_wifiScan
  | E_updateStatus | E_installUpdate | E_rollbackUpdate | E_status | E_devices | E_grblStatus
  | E_grblJournal | E_grblConsole | E_grblControl | E_getConfig | E_putConfig | E_serviceAction
  | E_reboot | E_changePassword | E_logs | E_portal | E_static

record route =
  rt_method :: string
  rt_path :: string
  rt_guarded :: bool
  rt_endpoint :: endpoint

definition routes :: "route list" where
  "routes =
     map (\<lambda>(m, p, g, e). \<lparr>rt_method = m, rt_path = p, rt_guarded = g, rt_endpoint = e\<rparr>)
       [(''GET'', ''/api/session'', False, E_session),
        (''GET'', ''/api/setup'', False, E_setupStatus),
        (''POST'', ''/api/setup/ssh-key'', True, E_setupSSHKey),
        (''POST'', ''/api/setup/complete'', True, E_completeSetup),
        (''PUT'', ''/api/wifi'', True, E_updateWiFi),
        (''GET'', ''/api/wifi/scan'', False, E_wifiScan),
        (''GET'', ''/api/update/status'', False, E_updateStatus),
        (''POST'', ''/api/update/install'', True, E_installUpdate),
        (''POST'', ''/api/update/rollback'', True, E_rollbackUpdate),
        (''GET'', ''/api/status'', False, E_status),
        (''GET'', ''/api/devices'', False, E_devices),
        (''GET'', ''/api/grbl'', False, E_grblStatus),
        (''GET'', ''/api/grbl/journal'', False, E_grblJournal),
        (''GET'', ''/api/grbl/console'', False, E_grblConsole),
        (''POST'', ''/api/grbl/control/{command}'', True, E_grblControl),
        (''GET'', ''/api/config'', False, E_getConfig),
        (''PUT'', ''/api/config'', True, E_putConfig),
        (''POST'', ''/api/services/{service}/{action}'', True, E_serviceAction),
        (''POST'', ''/api/system/reboot'', True, E_reboot),
        (''PUT'', ''/api/system/password'', True, E_changePassword),
        (''GET'', ''/api/logs'', False, E_logs),
        (''GET'', ''/generate_204'', False, E_portal),
        (''GET'', ''/hotspot-detect.html'', False, E_portal),
        (''GET'', ''/connecttest.txt'', False, E_portal),
        (''GET'', ''/ncsi.txt'', False, E_portal)]"

text \<open>
  How \<open>http.ServeMux\<close> matches: segment by segment, a name in braces takes any segment that is not
  empty; a pattern for \<open>GET\<close> takes \<open>HEAD\<close> as well.
\<close>

definition wildcard :: "string \<Rightarrow> bool" where
  "wildcard p \<longleftrightarrow> has_prefix p ''{''"

definition path_matches :: "string \<Rightarrow> string \<Rightarrow> bool" where
  "path_matches pattern path \<longleftrightarrow>
     list_all2 (\<lambda>p s. if wildcard p then s \<noteq> [] else p = s)
       (split_string pattern (CHR ''/'')) (split_string path (CHR ''/''))"

definition method_matches :: "string \<Rightarrow> string \<Rightarrow> bool" where
  "method_matches pattern m \<longleftrightarrow> m = pattern \<or> (pattern = ''GET'' \<and> m = ''HEAD'')"

definition route_matches :: "http_request \<Rightarrow> route \<Rightarrow> bool" where
  "route_matches rq r \<longleftrightarrow> method_matches (rt_method r) (hq_method rq) \<and> path_matches (rt_path r) (hq_path rq)"

datatype outcome = Refused int string | ServedBy endpoint | NoRoute

definition Handler :: "(nat \<Rightarrow> nat) \<Rightarrow> url_parser \<Rightarrow> string \<Rightarrow> http_request \<Rightarrow> outcome" where
  "Handler fd parse webroot rq =
     (case filter (route_matches rq) routes of
        r # _ \<Rightarrow>
          (if rt_guarded r then
             (case mutation fd parse rq of
                Some (code, e) \<Rightarrow> Refused code e
              | None \<Rightarrow> ServedBy (rt_endpoint r))
           else ServedBy (rt_endpoint r))
      | [] \<Rightarrow> if webroot \<noteq> [] then ServedBy E_static else NoRoute)"

definition single :: "string \<Rightarrow> string" where
  \<comment> \<open>in single quotes\<close>
  "single s = [CHR 0x27] @ s @ [CHR 0x27]"

definition securityHeaders :: "string \<Rightarrow> (string \<times> string) list" where
  "securityHeaders path =
     [(''X-Content-Type-Options'', ''nosniff''), (''X-Frame-Options'', ''DENY''), (''Referrer-Policy'', ''no-referrer''),
      (''Content-Security-Policy'',
       ''default-src '' @ single ''self'' @ ''; img-src '' @ single ''self'' @ '' http:; style-src '' @ single ''self''
        @ ''; script-src '' @ single ''self'' @ ''; connect-src '' @ single ''self'' @ ''; frame-ancestors '' @ single ''none'' )]
     @ (if has_prefix path ''/api/'' then [(''Cache-Control'', ''no-store'')] else [])"

section \<open>Services and the log\<close>

definition allowed_services :: "string list" where
  "allowed_services =
     [''ser2net'', ''laserbridged'', ''ustreamer'', ''sshd'', ''avahi-daemon'', ''laserbridge-web'', ''laserbridge-watchdog'']"

definition allowed_actions :: "string list" where
  "allowed_actions = [''start'', ''stop'', ''restart'']"

definition serviceAction :: "runner option \<Rightarrow> string \<Rightarrow> string \<Rightarrow> string list list \<times> reply" where
  "serviceAction runs service action =
     (if service \<notin> set allowed_services \<or> action \<notin> set allowed_actions then
        ([], Failure 404 ''unknown service action'')
      else
        (case runs of
           None \<Rightarrow> ([], Failure 503 ''service control is unavailable'')
         | Some run \<Rightarrow>
             (let c = [''rc-service'', service, action]
              in ([c], case run c of
                         Some (_, out) \<Rightarrow> Failure 500 (trim_space out)
                       | None \<Rightarrow> Done 200 ''ok''))))"

definition reboot :: "runner option \<Rightarrow> string \<Rightarrow> string option \<Rightarrow> status option \<Rightarrow> string list list \<times> reply" where
  "reboot runs force backend bridge =
     (if runs = None then ([], Failure 503 ''reboot is unavailable'')
      else
        (case refuseWhileBusy force ''not rebooting'' backend bridge of
           Some r \<Rightarrow> ([], Busy r)
         | None \<Rightarrow> ([[''reboot'']], Done 202 ''rebooting'')))"

definition tail_lines :: "string \<Rightarrow> nat \<Rightarrow> string list" where
  "tail_lines content limit = last_n limit (split_string (trim_space content) (CHR 0x0A))"

definition log_limit :: "string \<Rightarrow> nat" where
  "log_limit raw =
     (if raw = [] then 200
      else (case atoi raw of (n, None) \<Rightarrow> if 1 \<le> n \<and> n \<le> 1000 then nat n else 200 | _ \<Rightarrow> 200))"

definition logs :: "string option \<Rightarrow> (string + string) option \<Rightarrow> string \<Rightarrow> (int \<times> string) + string list" where
  \<comment> \<open>the file on \<open>/data\<close>, and what \<open>logread\<close> answers where commands can be run\<close>
  "logs file logread raw =
     (case file of
        Some content \<Rightarrow> Inr (tail_lines content (log_limit raw))
      | None \<Rightarrow>
          (case logread of
             None \<Rightarrow> Inr []
           | Some (Inl _) \<Rightarrow> Inl (500, ''could not read logs'')
           | Some (Inr out) \<Rightarrow> Inr (tail_lines out (log_limit raw))))"

section \<open>Facts\<close>

lemma mutation_iff:
  "mutation fd parse rq = None \<longleftrightarrow>
     sameOrigin fd parse rq \<and> hq_token rq \<noteq> [] \<and> hq_cookie rq = Some (hq_token rq)"
  by (auto simp: mutation_def split: option.splits)

lemma sameOrigin_cookie [simp]:
  "sameOrigin fd parse (rq\<lparr>hq_cookie := c, hq_token := t\<rparr>) = sameOrigin fd parse rq"
  by (simp add: sameOrigin_def split: option.splits)

lemma sameOriginD:
  assumes "sameOrigin fd parse rq"
  shows "hq_fetch_site rq \<noteq> ''cross-site''"
    and "hq_origin rq = [] \<or> (\<exists>scheme host. parse (hq_origin rq) = Some (scheme, host)
      \<and> equal_fold fd host (hq_host rq) \<and> scheme \<in> {''http'', ''https''})"
  using assms by (auto simp: sameOrigin_def equal_fold_def split: if_splits option.splits)

text \<open>Endpoints that only read.\<close>

definition reading :: "endpoint set" where
  "reading =
     {E_session, E_setupStatus, E_wifiScan, E_updateStatus, E_status, E_devices, E_grblStatus,
      E_grblJournal, E_grblConsole, E_getConfig, E_logs, E_portal, E_static}"

lemma routes_guarded:
  "\<forall>r \<in> set routes. rt_endpoint r \<notin> reading \<longrightarrow> rt_guarded r \<and> rt_method r \<in> {''POST'', ''PUT''}"
  by (simp add: routes_def reading_def)

lemma served_route:
  assumes "Handler fd parse webroot rq = ServedBy e" and "e \<noteq> E_static"
  obtains r where "r \<in> set routes" "route_matches rq r" "rt_endpoint r = e"
    "rt_guarded r \<longrightarrow> mutation fd parse rq = None"
proof (cases "filter (route_matches rq) routes")
  case Nil
  then show thesis using assms by (simp add: Handler_def split: if_splits)
next
  case (Cons r rs)
  then have "r \<in> set (filter (route_matches rq) routes)" by simp
  moreover have "rt_endpoint r = e" "rt_guarded r \<longrightarrow> mutation fd parse rq = None"
    using assms(1) Cons by (auto simp: Handler_def split: if_splits option.splits)
  ultimately show thesis by (intro that [of r]) simp_all
qed

section \<open>Properties\<close>

text \<open>
  C14: whatever changes something has to show the token. A request that reaches an endpoint that does
  more than read is a \<open>POST\<close> or a \<open>PUT\<close>, carries in its header the very token of its cookie, was
  not marked as coming from another site by the browser, and, if it names an origin, names this
  host.
\<close>

theorem changes_need_the_token:
  assumes "Handler fd parse webroot rq = ServedBy e" and "e \<notin> reading"
  shows "hq_method rq \<in> {''POST'', ''PUT''} \<and> hq_token rq \<noteq> [] \<and> hq_cookie rq = Some (hq_token rq)
    \<and> hq_fetch_site rq \<noteq> ''cross-site''
    \<and> (hq_origin rq = [] \<or> (\<exists>scheme host. parse (hq_origin rq) = Some (scheme, host)
        \<and> equal_fold fd host (hq_host rq) \<and> scheme \<in> {''http'', ''https''}))"
proof -
  have "e \<noteq> E_static" using assms(2) by (auto simp: reading_def)
  from served_route [OF assms(1) this] obtain r where r: "r \<in> set routes" "route_matches rq r" "rt_endpoint r = e"
    "rt_guarded r \<longrightarrow> mutation fd parse rq = None" .
  then have "rt_guarded r" "rt_method r \<in> {''POST'', ''PUT''}" using routes_guarded assms(2) by auto
  then show ?thesis
    using r(2,4) sameOriginD [of fd parse rq] unfolding mutation_iff route_matches_def method_matches_def by auto
qed

lemma b64url_not_Nil: "s \<noteq> [] \<Longrightarrow> b64url s \<noteq> []"
  by (cases s rule: b64url.cases) (simp_all add: Let_def)

lemma session_cases:
  assumes "session random rq = Inr (token, cookie)"
  obtains (old) "hq_cookie rq = Some token" "32 \<le> length token" "cookie = None"
  | (new) r where "random = Some r" "token = b64url r" "cookie = Some (b64url r)"
  using assms by (auto simp: session_def split: option.splits if_splits)

text \<open>
  The session opens the door. The token it answers with is never empty, and a request that
  comes back with it and with the cookie the browser then has is let through by the guard, if it
  is of the same origin.
\<close>

theorem session_opens_the_door:
  assumes "session random rq = Inr (token, cookie)" and "\<forall>r. random = Some r \<longrightarrow> r \<noteq> []"
    and "hq_cookie again = (case cookie of None \<Rightarrow> hq_cookie rq | Some c \<Rightarrow> Some c)" and "hq_token again = token"
    and "sameOrigin fd parse again"
  shows "token \<noteq> [] \<and> mutation fd parse again = None"
  using assms(1)
proof (cases rule: session_cases)
  case old
  then have "token \<noteq> []" by auto
  then show ?thesis using old assms(3-5) by (simp add: mutation_iff)
next
  case (new r)
  then have "token \<noteq> []" using assms(2) b64url_not_Nil by simp
  then show ?thesis using new assms(3-5) by (simp add: mutation_iff)
qed

text \<open>What may be asked of the services, and that none of it asks whether the machine is at work.\<close>

lemma service_action_commands:
  "fst (serviceAction (Some run) service action) =
     (if service \<in> set allowed_services \<and> action \<in> set allowed_actions then [[''rc-service'', service, action]] else [])"
  by (simp add: serviceAction_def Let_def)

lemma bridge_stopped_at_work:
  "machineBusy (Some BackendLaserbridged) (Some st) = (True, why) \<Longrightarrow>
     snd (reboot (Some run) [] (Some BackendLaserbridged) (Some st)) \<noteq> Done 202 ''rebooting''
     \<and> fst (serviceAction (Some run) ''laserbridged'' ''stop'') = [[''rc-service'', ''laserbridged'', ''stop'']]"
  by (simp add: service_action_commands allowed_services_def allowed_actions_def reboot_def refuseWhileBusy_def)

lemma logs_newest:
  "logs file logread raw = Inr ls \<Longrightarrow> length ls \<le> 1000"
proof -
  have "log_limit raw \<le> 1000" by (auto simp: log_limit_def split: prod.splits option.splits)
  then show "logs file logread raw = Inr ls \<Longrightarrow> length ls \<le> 1000"
    by (auto simp: logs_def tail_lines_def split: option.splits sum.splits)
qed

section \<open>A run\<close>

definition page_request :: http_request where
  "page_request =
     \<lparr>hq_method = ''PUT'', hq_path = ''/api/config'', hq_fetch_site = ''same-origin'', hq_origin = ''http://shop.local'',
      hq_host = ''shop.local'', hq_cookie = Some ''token'', hq_token = ''token''\<rparr>"

definition plain_parse :: url_parser where
  "plain_parse s = (if has_prefix s ''http://'' then Some (''http'', trim_prefix s ''http://'') else None)"

theorem changes_need_the_token_witness:
  "Handler id plain_parse [] page_request = ServedBy E_putConfig \<and> hq_cookie page_request = Some ''token''"
proof -
  have run: "Handler id plain_parse [] page_request = ServedBy E_putConfig" by code_simp
  from changes_need_the_token [OF this] have "hq_cookie page_request = Some (hq_token page_request)"
    by (simp add: reading_def)
  with run show ?thesis by (simp add: page_request_def)
qed

theorem session_opens_the_door_witness:
  "mutation id plain_parse (page_request\<lparr>hq_cookie := Some (b64url ''secret''), hq_token := b64url ''secret''\<rparr>) = None"
proof -
  let ?rq = "page_request\<lparr>hq_cookie := Some (b64url ''secret''), hq_token := b64url ''secret''\<rparr>"
  have "session (Some ''secret'') (page_request\<lparr>hq_cookie := None\<rparr>) = Inr (b64url ''secret'', Some (b64url ''secret''))"
    by (simp add: session_def)
  from session_opens_the_door [OF this, of ?rq id plain_parse]
  have "sameOrigin id plain_parse ?rq \<Longrightarrow> mutation id plain_parse ?rq = None" by simp
  moreover have "sameOrigin id plain_parse page_request" by code_simp
  ultimately show ?thesis by simp
qed

end
