(* ===== verification/Go_Lines.thy ===== *)
theory Go_Lines
  imports Appliance
begin

text \<open>
  Facts about lines, words and blanks that the components which read text share: what trimming
  and \<open>strings.Fields\<close> do to a line that was put together from words.
\<close>

section \<open>A trimmed line\<close>

lemma no_space_ends_in_newline [simp]: "\<not> space2 a (CHR 0x0A)" "\<not> space3 a (CHR 0x0A) c" "\<not> space3 a b (CHR 0x0A)"
  by (simp_all add: space2_def space3_def)

lemma trim_left_length: "length (trim_left s) \<le> length s"
  by (induction s rule: trim_left.induct) auto

lemma trim_left_again: "trim_left (trim_left s) = trim_left s"
  by (induction s rule: trim_left.induct) auto

lemma trim_left_rev_again: "trim_left_rev (trim_left_rev s) = trim_left_rev s"
  by (induction s rule: trim_left_rev.induct) auto

lemma trim_left_rev_suffix: "suffix (trim_left_rev s) s"
  by (induction s rule: trim_left_rev.induct) (simp_all add: suffix_Cons)

lemma trim_left_stuck:
  "trim_left v = v \<longleftrightarrow>
     (case v of [] \<Rightarrow> True | [a] \<Rightarrow> \<not> space1 a | [a, b] \<Rightarrow> \<not> space1 a \<and> \<not> space2 a b
      | a # b # c # _ \<Rightarrow> \<not> space1 a \<and> \<not> space2 a b \<and> \<not> space3 a b c)"
proof (cases v rule: trim_left.cases)
  case (3 a b)
  then show ?thesis using trim_left_length [of "[b]"] by (auto dest: arg_cong [of _ _ length])
next
  case (4 a b c s)
  have "trim_left (b # c # s) \<noteq> a # b # c # s" "trim_left (c # s) \<noteq> a # b # c # s" "trim_left s \<noteq> a # b # c # s"
    using trim_left_length [of "b # c # s"] trim_left_length [of "c # s"] trim_left_length [of s]
    by (auto dest: arg_cong [of _ _ length])
  then show ?thesis using 4 by simp
qed simp_all

lemma trim_left_prefix: "trim_left (p @ q) = p @ q \<Longrightarrow> trim_left p = p"
  unfolding trim_left_stuck by (auto split: list.splits simp: append_eq_Cons_conv)

lemma trim_left_line: "trim_left p = p \<Longrightarrow> p \<noteq> [] \<Longrightarrow> trim_left (p @ nl) = p @ nl"
  unfolding trim_left_stuck nl_def by (auto split: list.splits simp: append_eq_Cons_conv)

lemma trim_left_rev_newline: "trim_left_rev (CHR 0x0A # s) = trim_left_rev s"
proof (cases s)
  case (Cons b r)
  then show ?thesis by (cases r) (simp_all add: space1_def)
qed (simp add: space1_def)

lemma trim_space_line:
  assumes "trim_space t \<noteq> []"
  shows "trim_space (trim_space t @ nl) = trim_space t"
proof -
  let ?u = "trim_space t" and ?r = "rev (trim_left t)"
  obtain p where "?r = p @ trim_left_rev ?r" using trim_left_rev_suffix [of ?r] by (auto simp: suffix_def)
  then have "trim_left t = ?u @ rev p" unfolding trim_space_def by (metis rev_append rev_rev_ident)
  then have "trim_left ?u = ?u" using trim_left_again trim_left_prefix by metis
  then have "trim_left (?u @ nl) = ?u @ nl" using assms by (rule trim_left_line)
  then have "trim_space (?u @ nl) = rev (trim_left_rev (rev (?u @ nl)))" by (simp only: trim_space_def [of "?u @ nl"])
  also have "\<dots> = rev (trim_left_rev (rev ?u))" by (simp add: nl_def trim_left_rev_newline)
  also have "\<dots> = ?u" by (simp add: trim_space_def trim_left_rev_again)
  finally show ?thesis .
qed

section \<open>Words on a line\<close>

lemma fields_from_space: "space1 a \<Longrightarrow> fields_from w (a # s) = word_done w @ fields_from [] s"
proof (cases s)
  case (Cons b t)
  assume "space1 a"
  with Cons show ?thesis by (cases t) simp_all
qed (simp add: word_done_def)

lemma fields_from_solid: "solid a \<Longrightarrow> fields_from w (a # s) = fields_from (w @ [a]) s"
proof (cases s)
  case (Cons b t)
  assume "solid a"
  moreover from this have "\<not> space1 a" by (simp add: solid_def)
  ultimately show ?thesis using Cons by (cases t) simp_all
qed (simp add: word_done_def solid_def)

definition word_like :: "string \<Rightarrow> bool" where
  "word_like s \<longleftrightarrow> s \<noteq> [] \<and> (\<forall>c \<in> set s. solid c)"

lemma fields_from_word: "\<forall>c \<in> set s. solid c \<Longrightarrow> fields_from w (s @ t) = fields_from (w @ s) t"
  by (induction s arbitrary: w) (simp_all add: fields_from_solid)

lemma blank_space: "space1 (CHR '' '')"
  by (simp add: space1_def)

lemma fields_words:
  "\<forall>x \<in> set ws. word_like x \<Longrightarrow> string_fields (join ws '' '') = ws"
proof (induction ws)
  case (Cons x ws)
  then have x: "\<forall>c \<in> set x. solid c" "x \<noteq> []" and rest: "string_fields (join ws '' '') = ws"
    by (simp_all add: word_like_def)
  show ?case
  proof (cases ws)
    case Nil
    then show ?thesis using fields_from_word [OF x(1), of "[]" "[]"] x(2) by (simp add: string_fields_def word_done_def)
  next
    case (Cons y ys)
    then have "join (x # ws) '' '' = x @ CHR '' '' # join ws '' ''" by simp
    then show ?thesis
      using fields_from_word [OF x(1), of "[]" "CHR '' '' # join ws '' ''"] rest x(2) blank_space
      by (simp add: string_fields_def word_done_def fields_from_space)
  qed
qed (simp add: string_fields_def word_done_def)

lemma fields_indented: "string_fields (replicate n (CHR '' '') @ s) = string_fields s"
  by (induction n) (simp_all add: string_fields_def fields_from_space blank_space word_done_def)

section \<open>Lines of words\<close>

lemma word_no_newline: "word_like s \<Longrightarrow> CHR 0x0A \<notin> set s"
  by (auto simp: word_like_def solid_def space1_def)

lemma join_no_newline: "\<forall>w \<in> set ws. CHR 0x0A \<notin> set w \<Longrightarrow> CHR 0x0A \<notin> set (join ws '' '')"
  by (induction ws "'' ''" rule: join.induct) auto

lemma split_two: "split_string (s @ c # t) c = split_string s c @ split_string t c"
  by (induction s) (auto split: list.splits)

lemma digit_solid: "dec_digit c \<Longrightarrow> solid c"
  by (auto simp: dec_digit_def digit_of_def solid_def space1_def Let_def split: if_splits)

lemma number_word: "0 \<le> n \<Longrightarrow> word_like (itoa n)"
  using dec_digits [of n] by (auto simp: word_like_def itoa_def list_all_iff dest: digit_solid)

lemma two_words:
  assumes "word_like w" and "word_like n"
  shows "string_fields (w @ '' '' @ n @ nl) = [w, n]"
proof -
  have "fields_from w ('' '' @ n @ nl) = [w] @ fields_from [] (n @ nl)"
    using assms(1) by (simp add: fields_from_space blank_space word_done_def word_like_def)
  moreover have "fields_from n nl = [n]" using assms(2) by (simp add: nl_def space1_def word_done_def word_like_def)
  ultimately show ?thesis
    using fields_from_word [of w "[]" "'' '' @ n @ nl"] fields_from_word [of n "[]" nl] assms
    by (simp add: string_fields_def word_like_def)
qed

lemma first_word: "word_like w \<Longrightarrow> string_fields (w @ '' '' @ t) = w # string_fields t"
  using fields_from_word [of w "[]" "'' '' @ t"]
  by (simp add: string_fields_def word_like_def fields_from_space blank_space word_done_def)

end
