(* ===== verification/First_Boot.thy ===== *)
theory First_Boot
  imports Accounts Api_Setup Go_Lines
begin

text \<open>
  What a boot prepares, \<open>InitData\<close> of \<open>backend/internal/runtime/runtime.go\<close>, and the command line
  of the camera. The operation is a list of steps, each of which may end it with an error;
  \<open>ssh-keygen\<close>, the random bytes, and what the operating system says to a change of a mode are
  arguments.
\<close>

section \<open>Steps\<close>

datatype boot_error =
    NoDirectory string | ModeRefused string | StoreFailed store_error | NoTemplate | NotWritten string
  | NoRunner string | KeygenFailed string string | NoPublicKey | NoRandom | NotApplied apply_error

record boot_world =
  bt_keygen :: "string \<Rightarrow> string + string \<times> string"
  bt_chmod_error :: "string \<Rightarrow> string option"
  bt_random :: "string option"
  bt_printable :: "nat \<Rightarrow> bool"

type_synonym boot_step = "appliance \<Rightarrow> appliance \<times> boot_error option"

fun run_steps :: "boot_step list \<Rightarrow> boot_step" where
  "run_steps [] a = (a, None)"
| "run_steps (s # ss) a =
     (case s a of
        (a', None) \<Rightarrow> run_steps ss a'
      | (a', Some e) \<Rightarrow> (a', Some e))"

definition mg_path :: "manager \<Rightarrow> string \<Rightarrow> string" where
  "mg_path mg name = mg_data mg @ ''/'' @ name"

definition boot_write :: "manager \<Rightarrow> string \<Rightarrow> string \<Rightarrow> boot_step" where
  "boot_write mg path content a =
     (if os_write_error (mg_os mg) path = None then (a\<lparr>ap_files := (ap_files a)(path \<mapsto> content)\<rparr>, None)
      else (a, Some (NotWritten path)))"

definition make_directories :: "manager \<Rightarrow> boot_world \<Rightarrow> boot_step" where
  "make_directories mg bw a =
     (a, case os_mkdir_error (mg_os mg) of
           Some e \<Rightarrow> Some (NoDirectory e)
         | None \<Rightarrow> map_option ModeRefused (bt_chmod_error bw (mg_path mg ''ssh'')))"

definition ensure_store :: "manager \<Rightarrow> boot_world \<Rightarrow> boot_step" where
  "ensure_store mg bw a =
     (case Ensure (bt_printable bw) (mg_os mg) (ap_store a, ap_files a) of
        ((st, fs), _, e) \<Rightarrow> (a\<lparr>ap_store := st, ap_files := fs\<rparr>, map_option StoreFailed e))"

definition ShadowTemplate :: string where "ShadowTemplate = ''/etc/laserbridge/shadow.default''"

definition seed_accounts :: "manager \<Rightarrow> boot_step" where
  "seed_accounts mg a =
     (case ap_files a (mg_path mg ''shadow'') of
        Some _ \<Rightarrow> (a, None)
      | None \<Rightarrow>
          (case ap_files a ShadowTemplate of
             None \<Rightarrow> (a, Some NoTemplate)
           | Some content \<Rightarrow> boot_write mg (mg_path mg ''shadow'') content a))"

definition generate_key :: "manager \<Rightarrow> boot_world \<Rightarrow> string list \<Rightarrow> string \<Rightarrow> boot_step" where
  \<comment> \<open>\<open>ssh-keygen\<close> writes the key and its public half; the options are those of the call\<close>
  "generate_key mg bw options key a =
     (case ap_files a key of
        Some _ \<Rightarrow> (a, None)
      | None \<Rightarrow>
          (case mg_runner mg of
             None \<Rightarrow> (a, Some (NoRunner key))
           | Some _ \<Rightarrow>
               (let a1 = a\<lparr>ap_ran := ap_ran a @ [[''ssh-keygen'', ''-q'', ''-t'', ''ed25519'', ''-N'', []] @ options @ [''-f'', key]]\<rparr>
                in case bt_keygen bw key of
                     Inl out \<Rightarrow> (a1, Some (KeygenFailed key (trim_space out)))
                   | Inr (private, public) \<Rightarrow>
                       (a1\<lparr>ap_files := (ap_files a1)(key \<mapsto> private, key @ ''.pub'' \<mapsto> public)\<rparr>, None))))"

definition host_key :: "manager \<Rightarrow> string" where "host_key mg = mg_path mg ''ssh/ssh_host_ed25519_key''"
definition client_key :: "manager \<Rightarrow> string" where "client_key mg = mg_path mg ''setup/laserbridge_ed25519''"
definition authorized_path :: "manager \<Rightarrow> string" where "authorized_path mg = mg_path mg ''ssh/authorized_keys''"

definition touch_authorized :: "manager \<Rightarrow> boot_world \<Rightarrow> boot_step" where
  "touch_authorized mg bw a =
     (let p = authorized_path mg
      in case ap_files a p of
           None \<Rightarrow>
             (case os_write_error (mg_os mg) p of
                Some e \<Rightarrow> (a, Some (NotWritten p))
              | None \<Rightarrow> (a\<lparr>ap_files := (ap_files a)(p \<mapsto> [])\<rparr>, map_option ModeRefused (bt_chmod_error bw p)))
         | Some _ \<Rightarrow> (a, map_option ModeRefused (bt_chmod_error bw p)))"

definition authorize_initial :: "manager \<Rightarrow> boot_step" where
  "authorize_initial mg a =
     (let p = authorized_path mg
      in if trim_space (case ap_files a p of None \<Rightarrow> [] | Some t \<Rightarrow> t) \<noteq> [] then (a, None)
         else
           (case ap_files a (client_key mg @ ''.pub'') of
              None \<Rightarrow> (a, Some NoPublicKey)
            | Some public \<Rightarrow> boot_write mg p (trim_space public @ nl) a))"

definition name_access_point :: "manager \<Rightarrow> boot_world \<Rightarrow> boot_step" where
  "name_access_point mg bw a =
     (case ap_files a (ap_ssid_file mg) of
        Some _ \<Rightarrow> (a, None)
      | None \<Rightarrow>
          (case bt_random bw of
             None \<Rightarrow> (a, Some NoRandom)
           | Some r \<Rightarrow> boot_write mg (ap_ssid_file mg) (''LaserBridge-'' @ map upper (hex_text r) @ nl) a))"

definition hand_over_home :: "manager \<Rightarrow> boot_step" where
  "hand_over_home mg a =
     (case mg_runner mg of
        None \<Rightarrow> (a, None)
      | Some _ \<Rightarrow>
          (a\<lparr>ap_ran := ap_ran a @ [[''chown'', ''-R'', ''laserbridge:laserbridge'', mg_path mg ''home/laserbridge'']]\<rparr>, None))"

definition apply_step :: "manager \<Rightarrow> boot_step" where
  "apply_step mg a = (case Apply mg a of (a', e) \<Rightarrow> (a', map_option NotApplied e))"

definition boot_steps :: "manager \<Rightarrow> boot_world \<Rightarrow> boot_step list" where
  "boot_steps mg bw =
     [make_directories mg bw, ensure_store mg bw, seed_accounts mg,
      generate_key mg bw [] (host_key mg), touch_authorized mg bw,
      generate_key mg bw [''-C'', ''laserbridge-initial''] (client_key mg), authorize_initial mg,
      name_access_point mg bw, hand_over_home mg, apply_step mg]"

definition InitData :: "manager \<Rightarrow> boot_world \<Rightarrow> appliance \<Rightarrow> appliance \<times> boot_error option" where
  "InitData mg bw = run_steps (boot_steps mg bw)"

section \<open>The camera\<close>

text \<open>\<open>strings.ToUpper\<close> is that of ASCII here: no other rune has \<open>M\<close>, \<open>J\<close>, \<open>P\<close> or \<open>G\<close> as its capital.\<close>

definition UstreamerArgs :: "config \<Rightarrow> string \<Rightarrow> string list" where
  "UstreamerArgs c format =
     (let k = cg_camera c
      in [''--device='' @ cam_device k, ''--format='' @ format, ''--resolution='' @ cam_resolution k,
          ''--desired-fps='' @ itoa (cam_fps k), ''--host=0.0.0.0'', ''--port='' @ itoa (cam_port k),
          ''--device-timeout=5'', ''--device-error-delay=1'', ''--quality='' @ itoa (cam_quality k)])"

definition camera_format :: "config \<Rightarrow> (string option) option \<Rightarrow> string" where
  \<comment> \<open>the second argument: no runner, or the output of \<open>v4l2-ctl\<close> if it succeeded\<close>
  "camera_format c formats =
     (if cam_format (cg_camera c) = ''MJPEG'' then
        (case formats of
           Some (Some out) \<Rightarrow> if contains_string (map upper out) ''MJPG'' then ''MJPEG'' else ''YUYV''
         | _ \<Rightarrow> ''MJPEG'')
      else cam_format (cg_camera c))"

definition RunUstreamer :: "store_error + config \<Rightarrow> (string option) option \<Rightarrow> store_error + string list" where
  "RunUstreamer loaded formats =
     map_sum id (\<lambda>c. [''/usr/bin/ustreamer'', ''ustreamer''] @ UstreamerArgs c (camera_format c formats)) loaded"

section \<open>Facts\<close>

lemma run_steps_append:
  "run_steps (ss @ ts) a =
     (case run_steps ss a of (a', None) \<Rightarrow> run_steps ts a' | (a', Some e) \<Rightarrow> (a', Some e))"
  by (induction ss arbitrary: a) (auto split: prod.split option.split)

text \<open>A step that keeps what is so of a file, and the place of the configuration.\<close>

definition keeps :: "string \<Rightarrow> string \<Rightarrow> (string option \<Rightarrow> bool) \<Rightarrow> boot_step \<Rightarrow> bool" where
  "keeps cfg p P s \<longleftrightarrow>
     (\<forall>a. so_path (ap_store a) = cfg \<longrightarrow>
        so_path (ap_store (fst (s a))) = cfg \<and> (P (ap_files a p) \<longrightarrow> P (ap_files (fst (s a)) p)))"

definition untouched :: "manager \<Rightarrow> string \<Rightarrow> string \<Rightarrow> bool" where
  \<comment> \<open>not a file that is written anew at every boot: the configuration, the rendered files\<close>
  "untouched mg cfg p \<longleftrightarrow> p \<noteq> cfg \<and> p \<noteq> broken_name cfg \<and> p \<notin> set (run_names mg)"

lemma run_keeps: "\<forall>s \<in> set ss. keeps cfg p P s \<Longrightarrow> keeps cfg p P (run_steps ss)"
proof (induction ss)
  case (Cons s ss)
  then have one: "keeps cfg p P s" and rest: "keeps cfg p P (run_steps ss)" by simp_all
  show ?case
    unfolding keeps_def
  proof (intro allI impI)
    fix a :: appliance
    assume "so_path (ap_store a) = cfg"
    then have step: "so_path (ap_store (fst (s a))) = cfg \<and> (P (ap_files a p) \<longrightarrow> P (ap_files (fst (s a)) p))"
      using one by (simp add: keeps_def)
    obtain b e where "s a = (b, e)" by (cases "s a")
    then show "so_path (ap_store (fst (run_steps (s # ss) a))) = cfg
        \<and> (P (ap_files a p) \<longrightarrow> P (ap_files (fst (run_steps (s # ss) a)) p))"
      using rest step by (cases e) (simp_all add: keeps_def)
  qed
qed (simp add: keeps_def)

lemma keeps_directories: "keeps cfg p P (make_directories mg bw)"
  by (simp add: keeps_def make_directories_def)

lemma keeps_home: "keeps cfg p P (hand_over_home mg)"
  by (simp add: keeps_def hand_over_home_def split: option.split)

lemma keeps_accounts:
  "p \<noteq> mg_path mg ''shadow'' \<or> (\<exists>t. P = (\<lambda>x. x = Some t)) \<Longrightarrow> keeps cfg p P (seed_accounts mg)"
  by (auto simp: keeps_def seed_accounts_def boot_write_def split: option.split)

lemma keeps_touch:
  "p \<noteq> authorized_path mg \<or> (\<exists>t. P = (\<lambda>x. x = Some t)) \<Longrightarrow> keeps cfg p P (touch_authorized mg bw)"
  by (auto simp: keeps_def touch_authorized_def Let_def split: option.split)

lemma keeps_name:
  "p \<noteq> ap_ssid_file mg \<or> (\<exists>t. P = (\<lambda>x. x = Some t)) \<Longrightarrow> keeps cfg p P (name_access_point mg bw)"
  by (auto simp: keeps_def name_access_point_def boot_write_def split: option.split)

lemma keeps_authorize:
  "p \<noteq> authorized_path mg \<or> (\<exists>t. P = (\<lambda>x. x = Some t) \<and> trim_space t \<noteq> []) \<Longrightarrow> keeps cfg p P (authorize_initial mg)"
  by (auto simp: keeps_def authorize_initial_def boot_write_def Let_def split: option.split)

lemma keeps_key:
  assumes "p \<noteq> key @ ''.pub''" and "p \<noteq> key \<or> (\<exists>t. P = (\<lambda>x. x = Some t))"
  shows "keeps cfg p P (generate_key mg bw options key)"
  using assms by (auto simp: keeps_def generate_key_def Let_def split: option.split sum.split prod.split)

lemma Ensure_keeps:
  assumes "Ensure table os (st, fs) = ((st', fs'), q, e)"
  shows "so_path st' = so_path st \<and> (\<forall>p. p \<noteq> so_path st \<longrightarrow> p \<noteq> broken_name (so_path st) \<longrightarrow> fs' p = fs p)"
  using assms
  by (auto simp: Ensure_def saveLocked_def Let_def split: option.splits sum.splits prod.splits if_splits)

lemma keeps_store: "untouched mg cfg p \<Longrightarrow> keeps cfg p P (ensure_store mg bw)"
  unfolding keeps_def ensure_store_def untouched_def
  by (auto split: prod.split dest!: Ensure_keeps)

lemma keeps_apply: "untouched mg cfg p \<Longrightarrow> keeps cfg p P (apply_step mg)"
  using Apply_other_files [of p mg]
  by (auto simp: keeps_def apply_step_def untouched_def split: prod.split) (metis Apply_store fst_conv)+

lemmas names = mg_path_def host_key_def client_key_def authorized_path_def ap_ssid_file_def

definition lasting :: "manager \<Rightarrow> string list" where
  \<comment> \<open>what makes an appliance itself\<close>
  "lasting mg = [mg_path mg ''shadow'', host_key mg, client_key mg, ap_ssid_file mg, authorized_path mg]"

lemma lasting_apart:
  "p \<in> set (lasting mg) \<Longrightarrow> p \<noteq> host_key mg @ ''.pub'' \<and> p \<noteq> client_key mg @ ''.pub''"
  by (auto simp: lasting_def names)

lemma step_keeps:
  assumes "s \<in> set (boot_steps mg bw)" and "untouched mg cfg p" and "p \<in> set (lasting mg)"
    and "p = authorized_path mg \<Longrightarrow> trim_space t \<noteq> []"
  shows "keeps cfg p (\<lambda>x. x = Some t) s"
proof -
  have "keeps cfg p (\<lambda>x. x = Some t) (authorize_initial mg)" using assms(4) by (intro keeps_authorize) blast
  moreover have "keeps cfg p (\<lambda>x. x = Some t) (generate_key mg bw options (host_key mg))"
    "keeps cfg p (\<lambda>x. x = Some t) (generate_key mg bw options (client_key mg))" for options
    using lasting_apart [OF assms(3)] by (auto intro!: keeps_key)
  moreover have "keeps cfg p (\<lambda>x. x = Some t) (seed_accounts mg)"
    "keeps cfg p (\<lambda>x. x = Some t) (touch_authorized mg bw)" "keeps cfg p (\<lambda>x. x = Some t) (name_access_point mg bw)"
    by (auto intro!: keeps_accounts keeps_touch keeps_name)
  ultimately show ?thesis
    using assms(1) keeps_directories keeps_home keeps_store [OF assms(2)] keeps_apply [OF assms(2)]
    by (auto simp: boot_steps_def)
qed

lemma run_steps_split:
  assumes "run_steps (ss @ s # ts) a = (a', None)"
  obtains b c where "run_steps ss a = (b, None)" "s b = (c, None)" "run_steps ts c = (a', None)"
  using assms by (auto simp: run_steps_append split: prod.splits option.splits)

lemma generate_store: "ap_store (fst (generate_key mg bw options key a)) = ap_store a"
  by (simp add: generate_key_def Let_def split: option.split sum.split prod.split)

lemma path_step:
  assumes "s \<in> set (boot_steps mg bw)"
  shows "so_path (ap_store (fst (s a))) = so_path (ap_store a)"
proof -
  have "so_path (ap_store (fst (ensure_store mg bw a))) = so_path (ap_store a)"
    by (auto simp: ensure_store_def split: prod.split dest: Ensure_keeps)
  moreover have "ap_store (fst (apply_step mg a)) = ap_store a"
    by (cases "Apply mg a") (use Apply_store [of mg a] in \<open>simp add: apply_step_def\<close>)
  moreover have "ap_store (fst (seed_accounts mg a)) = ap_store a"
    "ap_store (fst (touch_authorized mg bw a)) = ap_store a"
    "ap_store (fst (authorize_initial mg a)) = ap_store a"
    "ap_store (fst (name_access_point mg bw a)) = ap_store a"
    "ap_store (fst (hand_over_home mg a)) = ap_store a"
    "ap_store (fst (make_directories mg bw a)) = ap_store a"
    by (simp_all add: seed_accounts_def touch_authorized_def authorize_initial_def name_access_point_def
        hand_over_home_def make_directories_def boot_write_def Let_def split: option.split)
  ultimately show ?thesis using assms generate_store by (auto simp: boot_steps_def)
qed

lemma path_kept:
  "set ss \<subseteq> set (boot_steps mg bw) \<Longrightarrow> so_path (ap_store (fst (run_steps ss a))) = so_path (ap_store a)"
proof (induction ss arbitrary: a)
  case (Cons s ss)
  obtain b e where "s a = (b, e)" by (cases "s a")
  then show ?case using Cons path_step [of s mg bw a] by (cases e) simp_all
qed simp

text \<open>From a step to the end of the boot.\<close>

lemma kept_to_the_end:
  assumes "run_steps ts c = (a', None)" and "set ts \<subseteq> set (boot_steps mg bw)"
    and "so_path (ap_store c) = cfg" and "untouched mg cfg p" and "p \<in> set (lasting mg)"
    and "p = authorized_path mg \<Longrightarrow> trim_space t \<noteq> []" and "ap_files c p = Some t"
  shows "ap_files a' p = Some t"
proof -
  have "keeps cfg p (\<lambda>x. x = Some t) (run_steps ts)"
    using assms(2,4-6) by (intro run_keeps ballI step_keeps) auto
  then show ?thesis using assms(1,3,7) by (force simp: keeps_def)
qed

lemma left_by_a_step:
  assumes "InitData mg bw a = (a', None)" and "boot_steps mg bw = ss @ s # ts"
    and "untouched mg (so_path (ap_store a)) p" and "p \<in> set (lasting mg)" and "p \<noteq> authorized_path mg"
    and "\<And>b c. s b = (c, None) \<Longrightarrow> ap_files c p \<noteq> None"
  shows "ap_files a' p \<noteq> None"
proof -
  obtain b c where run: "run_steps ss a = (b, None)" "s b = (c, None)" "run_steps ts c = (a', None)"
    using assms(1,2) run_steps_split unfolding InitData_def by metis
  obtain t where "ap_files c p = Some t" using assms(6) run(2) by blast
  moreover have "run_steps (ss @ [s]) a = (c, None)" using run(1,2) by (simp add: run_steps_append)
  then have "so_path (ap_store c) = so_path (ap_store a)"
    using path_kept [of "ss @ [s]" mg bw a] assms(2) by auto
  ultimately have "ap_files a' p = Some t"
    using kept_to_the_end [OF run(3), of mg bw "so_path (ap_store a)" p t] assms(2-5) by (simp add: subset_insertI2 subset_iff)
  then show ?thesis by simp
qed

lemma boot_left:
  assumes "InitData mg bw a = (a', None)" and "untouched mg (so_path (ap_store a)) p"
  shows "p = mg_path mg ''shadow'' \<Longrightarrow> ap_files a' p \<noteq> None"
    and "p = host_key mg \<Longrightarrow> ap_files a' p \<noteq> None"
    and "p = client_key mg \<Longrightarrow> ap_files a' p \<noteq> None"
    and "p = ap_ssid_file mg \<Longrightarrow> ap_files a' p \<noteq> None"
proof -
  note step = left_by_a_step [OF assms(1) _ assms(2)]
  have "boot_steps mg bw = [make_directories mg bw, ensure_store mg bw] @ seed_accounts mg # drop 3 (boot_steps mg bw)"
    by (simp add: boot_steps_def)
  then show "p = mg_path mg ''shadow'' \<Longrightarrow> ap_files a' p \<noteq> None"
    by (rule step) (auto simp: lasting_def names seed_accounts_def boot_write_def split: option.splits if_splits)
  have "boot_steps mg bw = take 3 (boot_steps mg bw) @ generate_key mg bw [] (host_key mg) # drop 4 (boot_steps mg bw)"
    by (simp add: boot_steps_def)
  then show "p = host_key mg \<Longrightarrow> ap_files a' p \<noteq> None"
    by (rule step)
      (auto simp: lasting_def names generate_key_def Let_def split: option.splits sum.splits if_splits)
  have "boot_steps mg bw = take 5 (boot_steps mg bw)
      @ generate_key mg bw [''-C'', ''laserbridge-initial''] (client_key mg) # drop 6 (boot_steps mg bw)"
    by (simp add: boot_steps_def)
  then show "p = client_key mg \<Longrightarrow> ap_files a' p \<noteq> None"
    by (rule step)
      (auto simp: lasting_def names generate_key_def Let_def split: option.splits sum.splits if_splits)
  have "boot_steps mg bw = take 7 (boot_steps mg bw) @ name_access_point mg bw # drop 8 (boot_steps mg bw)"
    by (simp add: boot_steps_def)
  then show "p = ap_ssid_file mg \<Longrightarrow> ap_files a' p \<noteq> None"
    by (rule step)
      (auto simp: lasting_def names name_access_point_def boot_write_def split: option.splits if_splits)
qed

text \<open>What the authorized keys are after a boot that went through.\<close>

definition visible_file :: "string option \<Rightarrow> bool" where
  \<comment> \<open>a file that is missing is as good as one that says something\<close>
  "visible_file x \<longleftrightarrow> (\<forall>t. x = Some t \<longrightarrow> trim_space t \<noteq> [])"

lemma keeps_public:
  assumes "s \<in> set (take 6 (boot_steps mg bw))" and "untouched mg cfg (client_key mg @ ''.pub'')"
    and "\<And>key private public. bt_keygen bw key = Inr (private, public) \<Longrightarrow> trim_space public \<noteq> []"
  shows "keeps cfg (client_key mg @ ''.pub'') visible_file s"
proof -
  let ?p = "client_key mg @ ''.pub''"
  have "keeps cfg ?p visible_file (generate_key mg bw [] (host_key mg))"
    by (intro keeps_key) (auto simp: names)
  moreover have "keeps cfg ?p visible_file (generate_key mg bw options (client_key mg))" for options
    using assms(3)
    by (auto simp: keeps_def generate_key_def Let_def visible_file_def split: option.split sum.split prod.split)
  moreover have "keeps cfg ?p visible_file (seed_accounts mg)" "keeps cfg ?p visible_file (touch_authorized mg bw)"
    by (auto intro!: keeps_accounts keeps_touch simp: names)
  ultimately show ?thesis
    using assms(1) keeps_directories keeps_store [OF assms(2)] by (auto simp: boot_steps_def)
qed

lemma boot_authorizes:
  assumes "InitData mg bw a = (a', None)"
    and "untouched mg (so_path (ap_store a)) (authorized_path mg)"
    and "untouched mg (so_path (ap_store a)) (client_key mg @ ''.pub'')"
    and "\<And>key private public. bt_keygen bw key = Inr (private, public) \<Longrightarrow> trim_space public \<noteq> []"
    and "visible_file (ap_files a (client_key mg @ ''.pub''))"
  shows "\<exists>t. ap_files a' (authorized_path mg) = Some t \<and> trim_space t \<noteq> []"
proof -
  let ?pre = "take 6 (boot_steps mg bw)" and ?cfg = "so_path (ap_store a)" and ?q = "authorized_path mg"
  have "boot_steps mg bw = ?pre @ authorize_initial mg # drop 7 (boot_steps mg bw)"
    by (simp add: boot_steps_def)
  then obtain b c where run: "run_steps ?pre a = (b, None)" "authorize_initial mg b = (c, None)"
      "run_steps (drop 7 (boot_steps mg bw)) c = (a', None)"
    using assms(1) run_steps_split unfolding InitData_def by metis
  have "keeps ?cfg (client_key mg @ ''.pub'') visible_file (run_steps ?pre)"
    using assms(3,4) by (intro run_keeps ballI keeps_public) auto
  then have public: "visible_file (ap_files b (client_key mg @ ''.pub''))" and "so_path (ap_store b) = ?cfg"
    using run(1) assms(5) by (force simp: keeps_def)+
  moreover have "ap_store c = ap_store b"
    using run(2) by (auto simp: authorize_initial_def boot_write_def Let_def split: if_splits option.splits)
  ultimately have path: "so_path (ap_store c) = ?cfg" by simp
  obtain t where t: "ap_files c ?q = Some t" "trim_space t \<noteq> []"
    using run(2) public
    by (auto simp: authorize_initial_def boot_write_def Let_def visible_file_def trim_space_line
        split: if_splits option.splits)
  have "ap_files a' ?q = Some t"
    by (rule kept_to_the_end [OF run(3) set_drop_subset path assms(2)]) (simp_all add: lasting_def t)
  with t(2) show ?thesis by blast
qed

lemma boot_applies:
  assumes "InitData mg bw a = (a', None)" and "apart mg (ap_store a)"
  shows "\<exists>c. Load (mg_os mg) (ap_store a', ap_files a') = Inr c \<and> in_force mg a' c"
proof -
  have "boot_steps mg bw = take 9 (boot_steps mg bw) @ apply_step mg # []" by (simp add: boot_steps_def)
  then obtain b where b: "run_steps (take 9 (boot_steps mg bw)) a = (b, None)" "apply_step mg b = (a', None)"
    using assms(1) run_steps_split unfolding InitData_def by (metis run_steps.simps(1) prod.inject)
  have "so_path (ap_store b) = so_path (ap_store a)"
    using path_kept [OF set_take_subset, of 9 mg bw a] b(1) by simp
  then have "apart mg (ap_store b)" using assms(2) by (simp add: apart_def)
  moreover have "Apply mg b = (a', None)" using b(2) by (auto simp: apply_step_def split: prod.splits)
  ultimately show ?thesis using Apply_in_force by blast
qed

text \<open>The private key that \<open>completeSetup\<close> removes as not needed any more is made again at the next boot.\<close>

lemma initial_key_is_back:
  assumes "InitData mg bw (remove_file (client_key mg) a) = (a', None)"
    and "untouched mg (so_path (ap_store a)) (client_key mg)"
  shows "ap_files a' (client_key mg) \<noteq> None"
  using boot_left(3) [OF assms(1)] assms(2) by (simp add: remove_file_def)

section \<open>Properties\<close>

text \<open>
  C18: a boot overwrites nothing of what makes the appliance itself: the account database, the host
  key, the authorized keys - unless there is none in the file - the initial key and the name of
  the access point are byte for byte what they were, however far the boot came.
\<close>

theorem boot_keeps_what_is_there:
  assumes "untouched mg (so_path (ap_store a)) p" and "p \<in> set (lasting mg)"
    and "ap_files a p = Some t" and "p = authorized_path mg \<Longrightarrow> trim_space t \<noteq> []"
  shows "ap_files (fst (InitData mg bw a)) p = Some t"
proof -
  have "keeps (so_path (ap_store a)) p (\<lambda>x. x = Some t) (InitData mg bw)"
    unfolding InitData_def by (intro run_keeps ballI) (rule step_keeps [OF _ assms(1,2,4)])
  then show ?thesis using assms(3) by (simp add: keeps_def)
qed


section \<open>Runs\<close>

definition new_appliance :: "string \<Rightarrow> appliance" where
  "new_appliance data =
     (appliance_with data)\<lparr>ap_files := [''/data/config.yaml'' \<mapsto> data, ShadowTemplate \<mapsto> shipped_shadow]\<rparr>"

definition plain_boot :: boot_world where
  "plain_boot =
     \<lparr>bt_keygen = (\<lambda>key. Inr (''private'', ''ssh-ed25519'')), bt_chmod_error = (\<lambda>_. None),
      bt_random = Some ''abc'', bt_printable = (\<lambda>_. True)\<rparr>"

lemma plain_lasting:
  "p \<in> set (lasting plain_manager @ [client_key plain_manager @ ''.pub'']) \<Longrightarrow> untouched plain_manager ''/data/config.yaml'' p"
  by (auto simp: untouched_def lasting_def names plain_manager_def run_names_def run_file_def broken_name_def)

lemma new_appliance_boots:
  assumes "ParseYAML data = Inr (c, [])"
  shows "\<exists>a'. InitData plain_manager plain_boot (new_appliance data) = (a', None)"
proof -
  have load: "Load quiet_os (st, fs) = Inr c" if "so_path st = ''/data/config.yaml''" "fs ''/data/config.yaml'' = Some data" for st fs
    using assms that by (simp add: Load_def quiet_os_def)
  have applied: "apply_step plain_manager b = (fst (Apply plain_manager b), None)"
    if "so_path (ap_store b) = ''/data/config.yaml''" "ap_files b ''/data/config.yaml'' = Some data" for b
    using plain_Apply [OF load [where st = "ap_store b" and fs = "ap_files b", OF that]]
    by (cases "Apply plain_manager b") (simp add: apply_step_def)
  have mg: "mg_data plain_manager = ''/data''" "mg_runner plain_manager = Some (\<lambda>_. None)"
    "os_mkdir_error (mg_os plain_manager) = None" "os_write_error (mg_os plain_manager) p = None"
    "os_read_error (mg_os plain_manager) = None" for p
    by (simp_all add: plain_manager_def quiet_os_def)
  show ?thesis
    using assms
    by (simp add: InitData_def boot_steps_def make_directories_def ensure_store_def Ensure_def seed_accounts_def
        boot_write_def generate_key_def touch_authorized_def authorize_initial_def name_access_point_def
        hand_over_home_def new_appliance_def appliance_with_def plain_boot_def names ShadowTemplate_def
        Let_def mg applied)
qed

theorem boot_keeps_what_is_there_witness:
  "ap_files (fst (InitData plain_manager plain_boot
      ((new_appliance [])\<lparr>ap_files := [''/data/ssh/authorized_keys'' \<mapsto> ''ssh-ed25519 AAAA'']\<rparr>))) ''/data/ssh/authorized_keys''
     = Some ''ssh-ed25519 AAAA''"
proof -
  let ?a = "(new_appliance [])\<lparr>ap_files := [''/data/ssh/authorized_keys'' \<mapsto> ''ssh-ed25519 AAAA'']\<rparr>"
  have q: "''/data/ssh/authorized_keys'' = authorized_path plain_manager"
    by (simp add: names plain_manager_def)
  moreover have "authorized_path plain_manager \<in> set (lasting plain_manager)" by (simp add: lasting_def)
  moreover have "so_path (ap_store ?a) = ''/data/config.yaml''" by (simp add: new_appliance_def appliance_with_def)
  moreover have "trim_space ''ssh-ed25519 AAAA'' \<noteq> []" by code_simp
  ultimately show ?thesis
    using plain_lasting by (intro boot_keeps_what_is_there) simp_all
qed


end
