(* ===== verification/Journal_File.thy ===== *)
theory Journal_File
  imports Journal Config_Facts
begin

text \<open>
  The file behind the journal, \<open>load\<close> and \<open>appendBatch\<close> of \<open>backend/internal/proxy/journal.go\<close>: one
  line of JSON for each notable event, a file that is turned over before it grows past its limit,
  and the reading of both generations at the next start. What the disk says to each call and
  \<open>encoding/json\<close> are arguments.
\<close>

section \<open>Writing\<close>

definition journalMaxBytes :: nat where "journalMaxBytes = 262144"

type_synonym journal_texts = "string \<Rightarrow> string option"

text \<open>What becomes of one append: all of it, the file cannot be opened, or the write stops early.\<close>

datatype append_answer = Whole | NotOpened | Torn nat

record disk_world =
  dk_mkdir :: bool
  dk_stat :: bool
  dk_append :: "nat \<Rightarrow> append_answer"
  dk_rename :: "nat \<Rightarrow> bool"

text \<open>The files, the size as the writer believes it, and how many calls the disk has answered.\<close>

record journal_store =
  js_files :: journal_texts
  js_size :: int
  js_calls :: nat

definition rotated :: "string \<Rightarrow> string" where "rotated path = path @ ''.1''"

definition content :: "journal_texts \<Rightarrow> string \<Rightarrow> string" where
  "content fs path = (case fs path of None \<Rightarrow> [] | Some t \<Rightarrow> t)"

definition journal_flush :: "disk_world \<Rightarrow> string \<Rightarrow> string \<Rightarrow> journal_store \<Rightarrow> journal_store" where
  "journal_flush dw path out s =
     (if out = [] then s
      else
        (let s1 = s\<lparr>js_calls := js_calls s + 1\<rparr>; fs = js_files s
         in case dk_append dw (js_calls s) of
              NotOpened \<Rightarrow> s1
            | Whole \<Rightarrow> s1\<lparr>js_files := fs(path \<mapsto> content fs path @ out), js_size := js_size s + int (length out)\<rparr>
            | Torn n \<Rightarrow> s1\<lparr>js_files := fs(path \<mapsto> content fs path @ take n out)\<rparr>))"

definition rotate :: "disk_world \<Rightarrow> string \<Rightarrow> journal_store \<Rightarrow> journal_store option" where
  \<comment> \<open>a file that is not there is not an error; any other is\<close>
  "rotate dw path s =
     (case js_files s path of
        None \<Rightarrow> Some (s\<lparr>js_size := 0\<rparr>)
      | Some t \<Rightarrow>
          if dk_rename dw (js_calls s) then
            Some (s\<lparr>js_files := (js_files s)(rotated path \<mapsto> t, path := None), js_size := 0, js_calls := js_calls s + 1\<rparr>)
          else None)"

fun append_events ::
    "(event \<Rightarrow> string option) \<Rightarrow> disk_world \<Rightarrow> string \<Rightarrow> event list \<Rightarrow> string \<Rightarrow> journal_store \<Rightarrow> journal_store" where
  "append_events json dw path [] out s = journal_flush dw path out s"
| "append_events json dw path (e # es) out s =
     (case json e of
        None \<Rightarrow> append_events json dw path es out s
      | Some text \<Rightarrow>
          (let line = text @ [CHR 0x0A]
           in if int journalMaxBytes < js_size s + int (length out + length line) then
                (let s1 = journal_flush dw path out s
                 in case rotate dw path s1 of
                      None \<Rightarrow> s1\<lparr>js_calls := js_calls s1 + 1\<rparr>
                    | Some s2 \<Rightarrow> append_events json dw path es line s2)
              else append_events json dw path es (out @ line) s))"

definition appendBatch ::
    "(event \<Rightarrow> string option) \<Rightarrow> disk_world \<Rightarrow> string \<Rightarrow> event list \<Rightarrow> journal_store \<Rightarrow> journal_store" where
  "appendBatch json dw path es s =
     (if es = [] \<or> \<not> dk_mkdir dw then s
      else if js_size s = 0 then
        (if dk_stat dw then append_events json dw path es [] (s\<lparr>js_size := int (length (content (js_files s) path))\<rparr>)
         else s)
      else append_events json dw path es [] s)"

text \<open>A turn of the writer: the queue leaves as a batch, and the batch goes to the file.\<close>

definition write_out ::
    "(event \<Rightarrow> string option) \<Rightarrow> disk_world \<Rightarrow> string \<Rightarrow> journal \<times> journal_store \<Rightarrow> journal \<times> journal_store" where
  "write_out json dw path js =
     (case js of (j, s) \<Rightarrow> (case write_turn j of (j', batch) \<Rightarrow> (j', appendBatch json dw path batch s)))"

section \<open>Reading\<close>

definition journal_token :: nat where
  \<comment> \<open>the buffer of the scanner; a line that does not fit ends the reading of its file\<close>
  "journal_token = 1048576"

definition read_line :: "(string \<Rightarrow> event option) \<Rightarrow> string \<Rightarrow> event list" where
  "read_line parse l =
     (let line = trim_space (drop_cr l)
      in if line = [] then [] else (case parse line of None \<Rightarrow> [] | Some e \<Rightarrow> [e]))"

definition read_events :: "(string \<Rightarrow> event option) \<Rightarrow> string \<Rightarrow> event list" where
  "read_events parse text =
     concat (map (read_line parse) (takeWhile (\<lambda>l. length l < journal_token) (scan_lines text)))"

definition keep_read :: "event \<Rightarrow> event list \<Rightarrow> event list" where
  "keep_read e es = (if journalDepth < length (es @ [e]) then tl (es @ [e]) else es @ [e])"

definition loaded_events :: "(string \<Rightarrow> event option) \<Rightarrow> journal_texts \<Rightarrow> string \<Rightarrow> event list" where
  "loaded_events parse fs path =
     fold keep_read (read_events parse (content fs (rotated path)) @ read_events parse (content fs path)) []"

definition journal_load :: "(string \<Rightarrow> event option) \<Rightarrow> journal_texts \<Rightarrow> string \<Rightarrow> journal \<Rightarrow> journal" where
  "journal_load parse fs path j = fold push (loaded_events parse fs path) j"

text \<open>\<open>NewJournal\<close> with a path, whole: the ring as earlier runs left it.\<close>

definition OpenJournal :: "(string \<Rightarrow> event option) \<Rightarrow> journal_texts \<Rightarrow> string \<Rightarrow> journal" where
  "OpenJournal parse fs path =
     (if path \<noteq> [] then journal_load parse fs path (NewJournal path) else NewJournal path)"

section \<open>The bound\<close>

definition no_torn_write :: "disk_world \<Rightarrow> bool" where
  "no_torn_write dw \<longleftrightarrow> (\<forall>n. dk_append dw n = Whole \<or> dk_append dw n = NotOpened)"

definition short_lines :: "(event \<Rightarrow> string option) \<Rightarrow> bool" where
  "short_lines json \<longleftrightarrow> (\<forall>e t. json e = Some t \<longrightarrow> length t < journalMaxBytes)"

definition counted :: "string \<Rightarrow> journal_store \<Rightarrow> bool" where
  \<comment> \<open>the writer knows the size, and neither generation is too long\<close>
  "counted path s \<longleftrightarrow>
     js_size s = int (length (content (js_files s) path))
     \<and> length (content (js_files s) (rotated path)) \<le> journalMaxBytes"

lemma rotated_apart [simp]: "rotated path \<noteq> path" "path \<noteq> rotated path"
  by (simp_all add: rotated_def)

lemma content_upd [simp]: "content (fs(p \<mapsto> t)) q = (if q = p then t else content fs q)"
  "content (fs(p := None)) q = (if q = p then [] else content fs q)"
  by (simp_all add: content_def)

lemma flush_counted:
  assumes "no_torn_write dw" and "counted path s"
  shows "counted path (journal_flush dw path out s)
    \<and> length (content (js_files (journal_flush dw path out s)) path) \<le> length (content (js_files s) path) + length out"
  using assms unfolding no_torn_write_def
  by (cases "dk_append dw (js_calls s)") (auto simp: journal_flush_def counted_def Let_def dest: spec [of _ "js_calls s"])

lemma rotate_counted:
  assumes "counted path s" and "length (content (js_files s) path) \<le> journalMaxBytes" and "rotate dw path s = Some s'"
  shows "counted path s' \<and> content (js_files s') path = []"
  using assms by (auto simp: rotate_def counted_def content_def split: option.splits if_splits)

lemma append_events_bounded:
  assumes "no_torn_write dw" and "short_lines json" and "counted path s"
    and "length (content (js_files s) path) + length out \<le> journalMaxBytes"
  shows "counted path (append_events json dw path es out s)
    \<and> length (content (js_files (append_events json dw path es out s)) path) \<le> journalMaxBytes"
  using assms(3,4)
proof (induction es arbitrary: out s)
  case Nil
  then show ?case using flush_counted [OF assms(1), of path s out] by simp
next
  case (Cons e es)
  show ?case
  proof (cases "json e")
    case (Some t)
    let ?line = "t @ [CHR 0x0A]" and ?s1 = "journal_flush dw path out s"
    have line: "length ?line \<le> journalMaxBytes" using Some assms(2) unfolding short_lines_def by (fastforce simp: Suc_le_eq)
    have s1: "counted path ?s1" "length (content (js_files ?s1) path) \<le> journalMaxBytes"
      using flush_counted [OF assms(1) Cons.prems(1), of out] Cons.prems(2) by simp_all
    show ?thesis
    proof (cases "int journalMaxBytes < js_size s + int (length out + length ?line)")
      case True
      show ?thesis
      proof (cases "rotate dw path ?s1")
        case None
        then show ?thesis using s1 True Some by (simp add: Let_def counted_def)
      next
        case (Some s2)
        then have "counted path s2" "content (js_files s2) path = []"
          using rotate_counted [OF s1 Some] by simp_all
        then show ?thesis
          using Cons.IH [of s2 ?line] line True Some \<open>json e = Some t\<close> by (simp add: Let_def)
      qed
    next
      case False
      then have "length (content (js_files s) path) + length (out @ ?line) \<le> journalMaxBytes"
        using Cons.prems(1) by (simp add: counted_def)
      then show ?thesis
        using Cons.IH [of s "out @ ?line"] Cons.prems(1) False Some by (simp add: Let_def)
    qed
  qed (use Cons in simp)
qed

definition within_limits :: "string \<Rightarrow> journal_store \<Rightarrow> bool" where
  "within_limits path s \<longleftrightarrow>
     (js_size s = 0 \<or> js_size s = int (length (content (js_files s) path)))
     \<and> length (content (js_files s) path) \<le> journalMaxBytes
     \<and> length (content (js_files s) (rotated path)) \<le> journalMaxBytes"

lemma appendBatch_within_limits:
  assumes "no_torn_write dw" and "short_lines json" and "within_limits path s"
  shows "within_limits path (appendBatch json dw path es s)"
proof -
  have go: "within_limits path (append_events json dw path es [] s')"
    if "counted path s'" "length (content (js_files s') path) \<le> journalMaxBytes" for s'
    using append_events_bounded [OF assms(1,2) that(1), of "[]" es] that(2)
    by (simp add: within_limits_def counted_def)
  have "counted path (s\<lparr>js_size := int (length (content (js_files s) path))\<rparr>)" "js_size s \<noteq> 0 \<Longrightarrow> counted path s"
    using assms(3) by (auto simp: counted_def within_limits_def)
  then show ?thesis
    using assms(3) go by (auto simp: appendBatch_def within_limits_def)
qed

section \<open>What is on the disk\<close>

definition reliable :: "disk_world \<Rightarrow> bool" where
  "reliable dw \<longleftrightarrow> dk_mkdir dw \<and> dk_stat dw \<and> (\<forall>n. dk_append dw n = Whole \<and> dk_rename dw n)"

definition event_lines :: "(event \<Rightarrow> string option) \<Rightarrow> event list \<Rightarrow> string" where
  "event_lines json es = concat (map (\<lambda>e. the (json e) @ [CHR 0x0A]) es)"

lemma event_lines_simps [simp]:
  "event_lines json [] = []" "event_lines json (es @ fs) = event_lines json es @ event_lines json fs"
  "event_lines json (e # es) = the (json e) @ CHR 0x0A # event_lines json es"
  "event_lines json es = [] \<longleftrightarrow> es = []"
  by (cases es; simp add: event_lines_def)+

definition kept :: "(event \<Rightarrow> string option) \<Rightarrow> string \<Rightarrow> event list \<Rightarrow> event list \<Rightarrow> journal_store \<Rightarrow> bool" where
  \<comment> \<open>of all events, the pending ones not yet written: what was lost went when there was enough left\<close>
  "kept json path es pending s \<longleftrightarrow>
     js_size s = int (length (content (js_files s) path))
     \<and> (\<exists>lost k1 k2. es = lost @ k1 @ k2 @ pending
          \<and> content (js_files s) (rotated path) = event_lines json k1 \<and> content (js_files s) path = event_lines json k2
          \<and> (lost = [] \<or> journalMaxBytes < length (event_lines json (k1 @ k2 @ pending))))"

lemma flush_kept:
  assumes "reliable dw" and "kept json path es pending s"
  shows "kept json path es [] (journal_flush dw path (event_lines json pending) s)"
    and "content (js_files (journal_flush dw path (event_lines json pending) s)) path =
      content (js_files s) path @ event_lines json pending"
proof -
  obtain lost k1 k2 where k: "js_size s = int (length (content (js_files s) path))" "es = lost @ k1 @ k2 @ pending"
      "content (js_files s) (rotated path) = event_lines json k1" "content (js_files s) path = event_lines json k2"
      "lost = [] \<or> journalMaxBytes < length (event_lines json (k1 @ k2 @ pending))"
    using assms(2) unfolding kept_def by blast
  show content: "content (js_files (journal_flush dw path (event_lines json pending) s)) path =
      content (js_files s) path @ event_lines json pending"
    using assms(1) by (simp add: journal_flush_def reliable_def Let_def)
  have "js_size (journal_flush dw path (event_lines json pending) s) =
      int (length (content (js_files (journal_flush dw path (event_lines json pending) s)) path))"
    "content (js_files (journal_flush dw path (event_lines json pending) s)) (rotated path) = event_lines json k1"
    using assms(1) k(1,3) by (simp_all add: journal_flush_def reliable_def Let_def)
  then show "kept json path es [] (journal_flush dw path (event_lines json pending) s)"
    unfolding kept_def using k(2,4,5) content
    by (intro conjI exI [of _ lost] exI [of _ k1] exI [of _ "k2 @ pending"]) simp_all
qed

lemma rotate_kept:
  assumes "reliable dw" and "kept json path es [] s"
    and "journalMaxBytes < length (content (js_files s) path) + length (event_lines json [e])"
  shows "\<exists>s'. rotate dw path s = Some s' \<and> kept json path (es @ [e]) [e] s'"
proof -
  obtain lost k1 k2 where k: "es = lost @ k1 @ k2" "content (js_files s) (rotated path) = event_lines json k1"
      "content (js_files s) path = event_lines json k2"
      "lost = [] \<or> journalMaxBytes < length (event_lines json (k1 @ k2))"
    using assms(2) unfolding kept_def by auto
  show ?thesis
  proof (cases "js_files s path")
    case None
    then have "k2 = []" using k(3) [symmetric] by (simp add: content_def)
    have "kept json path (es @ [e]) [e] (s\<lparr>js_size := 0\<rparr>)"
      unfolding kept_def using k None \<open>k2 = []\<close>
      by (intro conjI exI [of _ lost] exI [of _ k1] exI [of _ "[]"]) (auto simp: content_def)
    then show ?thesis using None by (simp add: rotate_def)
  next
    case (Some t)
    then have t: "t = event_lines json k2" using k(3) by (simp add: content_def)
    let ?s = "s\<lparr>js_files := (js_files s)(rotated path \<mapsto> t, path := None), js_size := 0, js_calls := js_calls s + 1\<rparr>"
    have "kept json path (es @ [e]) [e] ?s"
      unfolding kept_def using k(1,3) t assms(3)
      by (intro conjI exI [of _ "lost @ k1"] exI [of _ k2] exI [of _ "[]"]) simp_all
    then show ?thesis using Some assms(1) by (simp add: rotate_def reliable_def)
  qed
qed

lemma append_events_kept:
  assumes "reliable dw" and "kept json path es0 pending s" and "\<forall>e \<in> set es. json e \<noteq> None"
  shows "kept json path (es0 @ es) [] (append_events json dw path es (event_lines json pending) s)"
  using assms(2,3)
proof (induction es arbitrary: es0 pending s)
  case Nil
  then show ?case using flush_kept(1) [OF assms(1) Nil(1)] by simp
next
  case (Cons e es)
  obtain t where t: "json e = Some t" using Cons.prems(2) by auto
  let ?line = "t @ [CHR 0x0A]" and ?out = "event_lines json pending"
  have line: "event_lines json [e] = ?line" using t by simp
  have size: "js_size s = int (length (content (js_files s) path))" using Cons.prems(1) by (simp add: kept_def)
  show ?case
  proof (cases "int journalMaxBytes < js_size s + int (length ?out + length ?line)")
    case True
    note flushed = flush_kept [OF assms(1) Cons.prems(1)]
    have "journalMaxBytes < length (content (js_files (journal_flush dw path ?out s)) path) + length (event_lines json [e])"
      using True size line by (simp add: flushed(2))
    from rotate_kept [OF assms(1) flushed(1) this] obtain s2 where
      s2: "rotate dw path (journal_flush dw path ?out s) = Some s2" "kept json path (es0 @ [e]) [e] s2" by blast
    then show ?thesis
      using Cons.IH [OF s2(2)] Cons.prems(2) t True line by (simp add: Let_def)
  next
    case False
    obtain lost k1 k2 where k: "es0 = lost @ k1 @ k2 @ pending"
        "content (js_files s) (rotated path) = event_lines json k1" "content (js_files s) path = event_lines json k2"
        "lost = [] \<or> journalMaxBytes < length (event_lines json (k1 @ k2 @ pending))"
      using Cons.prems(1) unfolding kept_def by blast
    have "kept json path (es0 @ [e]) (pending @ [e]) s"
      unfolding kept_def using k size
      by (intro conjI exI [of _ lost] exI [of _ k1] exI [of _ k2]) auto
    then show ?thesis
      using Cons.IH [of "es0 @ [e]" "pending @ [e]" s] Cons.prems(2) t False line by (simp add: Let_def)
  qed
qed

lemma appendBatch_kept:
  assumes "reliable dw" and "kept json path es0 [] s" and "\<forall>e \<in> set es. json e \<noteq> None"
  shows "kept json path (es0 @ es) [] (appendBatch json dw path es s)"
proof -
  have "s\<lparr>js_size := int (length (content (js_files s) path))\<rparr> = s" using assms(2) by (simp add: kept_def)
  then show ?thesis
    using assms append_events_kept [OF assms(1,2,3)] by (auto simp: appendBatch_def reliable_def)
qed

lemma batches_kept:
  assumes "reliable dw"
  shows "kept json path es0 [] s \<Longrightarrow> \<forall>e \<in> set (concat bs). json e \<noteq> None \<Longrightarrow>
    kept json path (es0 @ concat bs) [] (fold (appendBatch json dw path) bs s)"
proof (induction bs arbitrary: es0 s)
  case (Cons b bs)
  then have "kept json path (es0 @ b) [] (appendBatch json dw path b s)"
    using appendBatch_kept [OF assms] by auto
  from Cons.IH [OF this] Cons.prems(2) show ?case by simp
qed simp

section \<open>What is read back\<close>

text \<open>
  What is relied on of \<open>encoding/json\<close> for these events: an object on one line, which is read back
  as the event it was written from. (A text that is not UTF-8 would not be.)
\<close>

definition json_documented ::
    "(event \<Rightarrow> string option) \<Rightarrow> (string \<Rightarrow> event option) \<Rightarrow> event list \<Rightarrow> bool" where
  "json_documented json parse es \<longleftrightarrow>
     (\<forall>e \<in> set es. \<exists>m. json e = Some (''{'' @ m @ ''}'') \<and> CHR 0x0A \<notin> set m \<and> length m + 2 < journal_token
        \<and> parse (''{'' @ m @ ''}'') = Some e)"

lemma braces [simp]: "trim_space (drop_cr (''{'' @ m @ ''}'')) = ''{'' @ m @ ''}''"
proof -
  have "solid CHR ''{''" "solid CHR ''}''" by code_simp+
  then show ?thesis using drop_cr_solid [of "''{'' @ m @ ''}''"] trim_space_ends [of "''{'' @ m @ ''}''"] by simp
qed

lemma read_event_line:
  assumes "json_documented json parse es" and "e \<in> set es"
  shows "read_line parse (the (json e)) = [e]" and "CHR 0x0A \<notin> set (the (json e))"
    and "length (the (json e)) < journal_token" and "json e \<noteq> None"
proof -
  obtain m where m: "json e = Some (''{'' @ m @ ''}'')" "CHR 0x0A \<notin> set m" "length m + 2 < journal_token"
      "parse (''{'' @ m @ ''}'') = Some e"
    using assms unfolding json_documented_def by blast
  show "read_line parse (the (json e)) = [e]" using m(1,4) braces [of m] by (simp add: read_line_def Let_def del: braces)
  show "CHR 0x0A \<notin> set (the (json e))" "length (the (json e)) < journal_token" "json e \<noteq> None"
    using m(1-3) by simp_all
qed

lemma scan_event_lines:
  assumes "json_documented json parse es"
  shows "scan_lines (event_lines json es) = map (\<lambda>e. the (json e)) es"
  using scan_terminated [of "map (\<lambda>e. the (json e)) es"] read_event_line(2) [OF assms]
  by (simp add: event_lines_def comp_def)

lemma read_event_lines:
  assumes "json_documented json parse es"
  shows "read_events parse (event_lines json es) = es"
proof -
  have "takeWhile (\<lambda>l. length l < journal_token) (map (\<lambda>e. the (json e)) es) = map (\<lambda>e. the (json e)) es"
    using read_event_line(3) [OF assms] by (simp add: takeWhile_eq_all_conv)
  moreover have "concat (map (read_line parse) (map (\<lambda>e. the (json e)) es)) = es"
    using read_event_line(1) [OF assms] by (induction es) simp_all
  ultimately show ?thesis by (simp only: read_events_def scan_event_lines [OF assms])
qed

lemma keep_read_last_n:
  assumes "length es \<le> journalDepth"
  shows "keep_read e es = last_n journalDepth (es @ [e])"
proof (cases "length es < journalDepth")
  case False
  then have "length es = journalDepth" using assms by simp
  moreover from this have "tl (es @ [e]) = tl es @ [e]" by (cases es) (simp_all add: journalDepth_def)
  ultimately show ?thesis by (simp add: keep_read_def last_n_snoc_full journalDepth_def)
qed (simp add: keep_read_def)

interpretation reading: bounded_log keep_read "\<lambda>es. es" "\<lambda>es. length es \<le> journalDepth" journalDepth
  by standard (simp_all add: keep_read_last_n, simp_all add: journalDepth_def)

lemma loaded_newest:
  "loaded_events parse fs path =
     last_n journalDepth (read_events parse (content fs (rotated path)) @ read_events parse (content fs path))"
  unfolding loaded_events_def reading.push_all_def [symmetric] by (subst reading.view_push_all) simp_all

lemma OpenJournal_view:
  "path \<noteq> [] \<Longrightarrow> ring_view (OpenJournal parse fs path) = loaded_events parse fs path"
  using ring.view_push_all [of "NewJournal path" "loaded_events parse fs path"]
  by (simp add: OpenJournal_def journal_load_def ring.push_all_def loaded_newest)

text \<open>A line cut short by a loss of power costs itself and the next: nothing ends it before that is appended.\<close>

lemma scan_event_lines_then:
  assumes "json_documented json parse es"
  shows "scan_lines (event_lines json es @ t) = map (\<lambda>e. the (json e)) es @ scan_lines t"
proof -
  have "split_string (event_lines json es @ t) (CHR 0x0A) = map (\<lambda>e. the (json e)) es @ split_string t (CHR 0x0A)"
    using assms
  proof (induction es)
    case (Cons e es)
    then have "CHR 0x0A \<notin> set (the (json e))" using read_event_line(2) [OF Cons.prems] by simp
    moreover have "json_documented json parse es" using Cons.prems by (simp add: json_documented_def)
    ultimately show ?case using Cons.IH by (simp add: split_append)
  qed simp
  then show ?thesis by (simp add: scan_lines_def butlast_append Let_def)
qed

lemma read_events_then:
  assumes "json_documented json parse es"
  shows "read_events parse (event_lines json es @ t) = es @ read_events parse t"
proof -
  have "takeWhile (\<lambda>l. length l < journal_token) (map (\<lambda>e. the (json e)) es @ scan_lines t) =
      map (\<lambda>e. the (json e)) es @ takeWhile (\<lambda>l. length l < journal_token) (scan_lines t)"
    using read_event_line(3) [OF assms] by (simp add: takeWhile_append)
  moreover have "concat (map (read_line parse) (map (\<lambda>e. the (json e)) es)) = es"
    using read_event_line(1) [OF assms] by (induction es) simp_all
  ultimately show ?thesis
    by (simp only: read_events_def scan_event_lines_then [OF assms] map_append concat_append)
qed

lemma append_events_room:
  assumes "reliable dw" and "\<forall>e \<in> set es. json e \<noteq> None"
    and "js_size s + int (length out + length (event_lines json es)) \<le> int journalMaxBytes"
  shows "content (js_files (append_events json dw path es out s)) path = content (js_files s) path @ out @ event_lines json es
    \<and> content (js_files (append_events json dw path es out s)) (rotated path) = content (js_files s) (rotated path)"
  using assms(2,3)
proof (induction es arbitrary: out)
  case Nil
  then show ?case using assms(1) by (simp add: journal_flush_def reliable_def Let_def)
next
  case (Cons e es)
  then obtain t where "json e = Some t" by auto
  then show ?case using Cons.IH [of "out @ t @ [CHR 0x0A]"] Cons.prems by (simp add: Let_def)
qed

lemma appendBatch_room:
  assumes "reliable dw" and "\<forall>e \<in> set es. json e \<noteq> None" and "js_size s = 0"
    and "length (content (js_files s) path) + length (event_lines json es) \<le> journalMaxBytes"
  shows "content (js_files (appendBatch json dw path es s)) path = content (js_files s) path @ event_lines json es
    \<and> content (js_files (appendBatch json dw path es s)) (rotated path) = content (js_files s) (rotated path)"
  using assms append_events_room [OF assms(1,2), of "s\<lparr>js_size := int (length (content (js_files s) path))\<rparr>" "[]" path]
  by (simp add: appendBatch_def reliable_def)

section \<open>Properties\<close>

text \<open>
  C31: the journal survives a restart. Whatever batches of events were written to a disk that takes
  them, and however often the file was turned over in between, the journal that is opened
  next has, as its newest, every run of most recent events that is neither more than it can show
  nor more bytes than one file may have.
\<close>

theorem journal_survives_a_restart:
  assumes "reliable dw" and "path \<noteq> []" and "json_documented json parse (concat bs)"
    and "concat bs = older @ recent" and "length recent \<le> journalDepth"
    and "length (event_lines json recent) \<le> journalMaxBytes"
  defines "disk \<equiv> fold (appendBatch json dw path) bs \<lparr>js_files = (\<lambda>_. None), js_size = 0, js_calls = 0\<rparr>"
  shows "\<exists>before. Recent 0 (OpenJournal parse (js_files disk) path) = before @ recent"
proof -
  let ?start = "\<lparr>js_files = (\<lambda>_. None), js_size = 0, js_calls = 0\<rparr>"
  have "kept json path [] [] ?start" by (simp add: kept_def content_def)
  moreover have "\<forall>e \<in> set (concat bs). json e \<noteq> None" using read_event_line(4) [OF assms(3)] by blast
  ultimately have "kept json path (concat bs) [] disk"
    using batches_kept [OF assms(1), of json path "[]" ?start bs] by (simp add: disk_def)
  then obtain lost k1 k2 where k: "concat bs = lost @ k1 @ k2"
      "content (js_files disk) (rotated path) = event_lines json k1" "content (js_files disk) path = event_lines json k2"
      "lost = [] \<or> journalMaxBytes < length (event_lines json (k1 @ k2))"
    unfolding kept_def by auto
  have "json_documented json parse k1" "json_documented json parse k2"
    using assms(3) unfolding k(1) by (auto simp: json_documented_def)
  then have loaded: "loaded_events parse (js_files disk) path = last_n journalDepth (k1 @ k2)"
    using k(2,3) read_event_lines by (simp add: loaded_newest)
  have "lost @ k1 @ k2 = older @ recent" using k(1) assms(4) by simp
  then obtain before where "k1 @ k2 = before @ recent"
    using k(4) assms(6) by (auto simp: append_eq_append_conv2)
  then have "last_n journalDepth (k1 @ k2) = last_n (journalDepth - length recent) before @ recent"
    using assms(5) by (simp add: last_n_def)
  then show ?thesis using loaded OpenJournal_view [OF assms(2)] by (simp add: ring_view_def)
qed

text \<open>
  The record of trouble does not become trouble: whatever is written, and whether or not the
  disk lets the file be opened or turned over, neither generation of it grows past its limit. (A
  write that stops in the middle is not counted, and is left out.)
\<close>

theorem journal_files_stay_bounded:
  assumes "no_torn_write dw" and "short_lines json" and "within_limits path s"
  shows "length (content (js_files (fold (appendBatch json dw path) bs s)) path) \<le> journalMaxBytes
    \<and> length (content (js_files (fold (appendBatch json dw path) bs s)) (rotated path)) \<le> journalMaxBytes"
proof -
  have "within_limits path (fold (appendBatch json dw path) bs s)"
    using assms(3) by (induction bs arbitrary: s) (simp_all add: appendBatch_within_limits [OF assms(1,2)])
  then show ?thesis by (simp add: within_limits_def)
qed

text \<open>
  A half-written line is what a power cut leaves behind. It is skipped and stops nothing
  before it from being read; but the next line is appended to it, and is lost with it.
\<close>

theorem torn_line_costs_itself_and_the_next:
  assumes "reliable dw" and "json_documented json parse (es @ e # later)" and "js_size s = 0"
    and "content (js_files s) path = event_lines json es @ torn" and "content (js_files s) (rotated path) = []"
    and "length (event_lines json es @ torn @ event_lines json (e # later)) \<le> journalMaxBytes"
    and "CHR 0x0A \<notin> set torn" and "read_line parse torn = []" and "read_line parse (torn @ the (json e)) = []"
    and "length (es @ e # later) \<le> journalDepth"
  shows "loaded_events parse (js_files s) path = es
    \<and> loaded_events parse (js_files (appendBatch json dw path (e # later) s)) path = es @ later"
proof -
  have parts: "json_documented json parse es" "json_documented json parse later" "json_documented json parse [e]"
    using assms(2) by (auto simp: json_documented_def)
  have short: "length (torn @ the (json e)) < journal_token"
    using assms(6) by (simp add: journal_token_def journalMaxBytes_def)
  have torn: "read_events parse torn = []"
    using assms(7,8) short by (auto simp: read_events_def scan_lines_def split_no_sep Let_def)
  have line: "CHR 0x0A \<notin> set (torn @ the (json e))" using assms(7) read_event_line(2) [OF parts(3)] by simp
  have "scan_lines (torn @ event_lines json (e # later)) = (torn @ the (json e)) # scan_lines (event_lines json later)"
    using split_append [OF line, of "event_lines json later"] by (simp add: scan_lines_def Let_def)
  then have "read_events parse (torn @ event_lines json (e # later)) = read_events parse (event_lines json later)"
    using short assms(9) by (simp add: read_events_def)
  then have "read_events parse (event_lines json es @ torn @ event_lines json (e # later)) = es @ later"
    using read_events_then [OF parts(1)] read_event_lines [OF parts(2)] by simp
  moreover have "\<forall>x \<in> set (e # later). json x \<noteq> None" using read_event_line(4) [OF assms(2)] by simp
  then have "content (js_files (appendBatch json dw path (e # later) s)) path = event_lines json es @ torn @ event_lines json (e # later)
      \<and> content (js_files (appendBatch json dw path (e # later) s)) (rotated path) = []"
    using appendBatch_room [OF assms(1) _ assms(3), of "e # later" json path] assms(4-6) by simp
  moreover have "read_events parse [] = []" by (simp add: read_events_def scan_lines_def)
  ultimately show ?thesis
    using torn assms(4,5,10) read_events_then [OF parts(1), of torn] by (simp add: loaded_newest)
qed

section \<open>Runs\<close>

definition told :: "string \<Rightarrow> event" where "told t = blank_event\<lparr>ev_text := t\<rparr>"

definition plain_json :: "event \<Rightarrow> string option" where
  "plain_json e = (if length (ev_text e) < 100 then Some (''{'' @ ev_text e @ ''}'') else None)"

definition plain_parse_event :: "string \<Rightarrow> event option" where
  \<comment> \<open>an object without another one inside\<close>
  "plain_parse_event l =
     (if l \<noteq> [] \<and> hd l = CHR ''{'' \<and> last l = CHR ''}'' \<and> CHR ''{'' \<notin> set (tl l)
      then Some (told (butlast (tl l))) else None)"

definition good_disk :: disk_world where
  "good_disk = \<lparr>dk_mkdir = True, dk_stat = True, dk_append = (\<lambda>_. Whole), dk_rename = (\<lambda>_. True)\<rparr>"

lemma good_disk_reliable: "reliable good_disk" "no_torn_write good_disk"
  by (simp_all add: reliable_def no_torn_write_def good_disk_def)

lemma plain_documented: "json_documented plain_json plain_parse_event (map told [''a'', ''b'', ''c''])"
  by (simp add: json_documented_def plain_json_def plain_parse_event_def told_def journal_token_def)

theorem journal_survives_a_restart_witness:
  "\<exists>before. Recent 0 (OpenJournal plain_parse_event (js_files (fold (appendBatch plain_json good_disk ''j'')
      [[told ''a''], [told ''b'', told ''c'']] \<lparr>js_files = (\<lambda>_. None), js_size = 0, js_calls = 0\<rparr>)) ''j'')
     = before @ [told ''b'', told ''c'']"
  using plain_documented
  by (intro journal_survives_a_restart [where older = "[told ''a'']", OF good_disk_reliable(1)])
    (simp_all add: journalDepth_def journalMaxBytes_def plain_json_def told_def)

theorem journal_files_stay_bounded_witness:
  "length (content (js_files (fold (appendBatch plain_json good_disk ''j'')
      (replicate 10000 [told ''a'']) \<lparr>js_files = (\<lambda>_. None), js_size = 0, js_calls = 0\<rparr>)) ''j'') \<le> journalMaxBytes"
proof -
  have "short_lines plain_json" by (simp add: short_lines_def plain_json_def journalMaxBytes_def split: if_splits)
  moreover have "within_limits ''j'' \<lparr>js_files = (\<lambda>_. None), js_size = 0, js_calls = 0\<rparr>"
    by (simp add: within_limits_def content_def)
  ultimately show ?thesis using journal_files_stay_bounded [OF good_disk_reliable(2)] by blast
qed

theorem torn_line_costs_itself_and_the_next_witness:
  "loaded_events plain_parse_event (js_files (appendBatch plain_json good_disk ''j'' [told ''b'', told ''c'']
      \<lparr>js_files = [''j'' \<mapsto> event_lines plain_json [told ''a''] @ ''{x''], js_size = 0, js_calls = 0\<rparr>)) ''j''
     = [told ''a'', told ''c'']"
proof -
  let ?s = "\<lparr>js_files = [''j'' \<mapsto> event_lines plain_json [told ''a''] @ ''{x''], js_size = 0, js_calls = 0\<rparr>"
  have doc: "json_documented plain_json plain_parse_event ([told ''a''] @ told ''b'' # [told ''c''])"
    using plain_documented by simp
  have torn: "read_line plain_parse_event ''{x'' = []" "read_line plain_parse_event (''{x'' @ the (plain_json (told ''b''))) = []"
    by code_simp+
  show ?thesis
    using torn_line_costs_itself_and_the_next [OF good_disk_reliable(1) doc, of ?s "''j''" "''{x''"] torn
    by (simp add: content_def rotated_def plain_json_def told_def journalMaxBytes_def journalDepth_def)
qed

end
