(* ===== verification/Api_Devices.thy ===== *)
theory Api_Devices
  imports Api_Config Update
begin

text \<open>
  \<open>backend/internal/api/devices.go\<close>: which wireless networks are heard, out of the words of \<open>iw\<close>,
  and which serial ports and cameras can be chosen. What the file system and the commands answer
  are arguments.
\<close>

section \<open>Strings of bytes\<close>

fun bytes_less :: "string \<Rightarrow> string \<Rightarrow> bool" where
  "bytes_less [] t \<longleftrightarrow> t \<noteq> []"
| "bytes_less (a # s) [] \<longleftrightarrow> False"
| "bytes_less (a # s) (b # t) \<longleftrightarrow> code_of a < code_of b \<or> (a = b \<and> bytes_less s t)"

text \<open>Sorting by a strict order; for the orders used here the library's answer is the same.\<close>

fun insert_by :: "('a \<Rightarrow> 'a \<Rightarrow> bool) \<Rightarrow> 'a \<Rightarrow> 'a list \<Rightarrow> 'a list" where
  "insert_by lt x [] = [x]"
| "insert_by lt x (y # ys) = (if lt x y then x # y # ys else y # insert_by lt x ys)"

definition sort_by :: "('a \<Rightarrow> 'a \<Rightarrow> bool) \<Rightarrow> 'a list \<Rightarrow> 'a list" where
  "sort_by lt xs = foldr (insert_by lt) xs []"

text \<open>\<open>utf8.ValidString\<close>.\<close>

function valid_string :: "string \<Rightarrow> bool" where
  "valid_string [] \<longleftrightarrow> True"
| "valid_string (a # t) \<longleftrightarrow>
     (case decode_rune a t of (r, w) \<Rightarrow> \<not> (r = runeError \<and> w = 1) \<and> valid_string (drop (w - 1) t))"
  by pat_completeness auto
termination
  by (relation "measure length") auto

section \<open>Networks\<close>

record wifi_network =
  wn_ssid :: string
  wn_signal :: float64
  wn_frequency :: int
  wn_security :: string

text \<open>An escape is a backslash, an \<open>x\<close> and two hexadecimal digits; any other backslash is itself.\<close>

fun unescape_ssid :: "string \<Rightarrow> string" where
  "unescape_ssid (c # x # h # k # s) =
     (if c = CHR 0x5C \<and> x = CHR ''x'' then
        (case (unhex h, unhex k) of
           (Some a, Some b) \<Rightarrow> char_of (a * 16 + b) # unescape_ssid s
         | _ \<Rightarrow> c # unescape_ssid (x # h # k # s))
      else c # unescape_ssid (x # h # k # s))"
| "unescape_ssid (c # s) = c # unescape_ssid s"
| "unescape_ssid [] = []"

definition decodeIWSSID :: "string \<Rightarrow> string" where
  "decodeIWSSID s =
     (let text = unescape_ssid s
      in if valid_string text then text else ''invalid-ssid-'' @ hex_text text)"

text \<open>
  \<open>ParseFloat\<close> with its error thrown away: what is too large is infinite, what is no number is zero.
\<close>

definition float_overflows :: "string \<Rightarrow> bool" where
  "float_overflows s =
     (let (neg, t) = strip_sign s; hex = has_hex_prefix t;
          (m, r) = scan_mantissa hex m_init (if hex then drop 2 t else t)
      in m_seen m
         \<and> (case read_exponent hex r of
              None \<Rightarrow> False
            | Some (e, us, rest) \<Rightarrow>
                rest = [] \<and> ((m_under m \<or> us) \<longrightarrow> underscore_ok t)
                \<and> round_mag (scaled hex (m_value m) (e - m_frac m * (if hex then 4 else 1))) = None))"

definition float_value :: "string \<Rightarrow> float64" where
  "float_value s =
     (case parse_float s of
        Some v \<Rightarrow> v
      | None \<Rightarrow> if float_overflows s then F64Inf (fst (strip_sign s)) else f_zero)"

text \<open>What the loop knows: the block being read, with what was said of its security, and the books.\<close>

record iw_block =
  iw_current :: "wifi_network option"
  iw_privacy :: bool
  iw_security :: string

record iw_books =
  iw_by_ssid :: "string \<rightharpoonup> wifi_network"
  iw_names :: "string list"

definition iw_start :: iw_block where
  "iw_start = \<lparr>iw_current = None, iw_privacy = False, iw_security = ''Open''\<rparr>"

definition iw_nothing :: iw_books where
  "iw_nothing = \<lparr>iw_by_ssid = Map.empty, iw_names = []\<rparr>"

definition iw_finished :: "iw_block \<Rightarrow> wifi_network option" where
  \<comment> \<open>the block with its security, if it has a name\<close>
  "iw_finished st =
     (case iw_current st of
        None \<Rightarrow> None
      | Some n \<Rightarrow>
          if wn_ssid n = [] then None
          else Some (n\<lparr>wn_security := (if iw_security st = ''Open'' \<and> iw_privacy st then ''Secured'' else iw_security st)\<rparr>))"

definition iw_flush :: "iw_block \<Rightarrow> iw_books \<Rightarrow> iw_books" where
  "iw_flush st k =
     (case iw_finished st of
        None \<Rightarrow> k
      | Some n \<Rightarrow>
          (case iw_by_ssid k (wn_ssid n) of
             None \<Rightarrow> \<lparr>iw_by_ssid = (iw_by_ssid k)(wn_ssid n \<mapsto> n), iw_names = iw_names k @ [wn_ssid n]\<rparr>
           | Some previous \<Rightarrow>
               if f_less (wn_signal previous) (wn_signal n)
               then k\<lparr>iw_by_ssid := (iw_by_ssid k)(wn_ssid n \<mapsto> n)\<rparr> else k))"

definition iw_describe :: "string \<Rightarrow> iw_block \<Rightarrow> iw_block" where
  \<comment> \<open>a line of a block\<close>
  "iw_describe line st =
     (case iw_current st of
        None \<Rightarrow> st
      | Some n \<Rightarrow>
          if has_prefix line ''SSID: '' then st\<lparr>iw_current := Some (n\<lparr>wn_ssid := decodeIWSSID (trim_prefix line ''SSID: '')\<rparr>)\<rparr>
          else if has_prefix line ''signal: '' then
            (case string_fields (trim_prefix line ''signal: '') of
               v # _ \<Rightarrow> st\<lparr>iw_current := Some (n\<lparr>wn_signal := float_value v\<rparr>)\<rparr>
             | [] \<Rightarrow> st)
          else if has_prefix line ''freq: '' then
            st\<lparr>iw_current := Some (n\<lparr>wn_frequency := fst (atoi (trim_space (trim_prefix line ''freq: '')))\<rparr>)\<rparr>
          else if has_prefix line ''capability:'' \<and> contains_string line ''Privacy'' then st\<lparr>iw_privacy := True\<rparr>
          else if line = ''WPA:'' then st\<lparr>iw_security := ''WPA''\<rparr>
          else if line = ''RSN:'' then st\<lparr>iw_security := ''WPA2/WPA3''\<rparr>
          else if contains_string line ''Authentication suites:'' \<and> contains_string line ''SAE''
          then st\<lparr>iw_security := ''WPA3''\<rparr> else st)"

definition fresh_network :: wifi_network where
  "fresh_network = \<lparr>wn_ssid = [], wn_signal = F64 True 999, wn_frequency = 0, wn_security = []\<rparr>"

definition iw_begins :: "string \<Rightarrow> bool" where
  "iw_begins line \<longleftrightarrow> has_prefix line ''BSS ''"

definition iw_open :: iw_block where
  "iw_open = \<lparr>iw_current = Some fresh_network, iw_privacy = False, iw_security = ''Open''\<rparr>"

definition iw_line :: "string \<Rightarrow> iw_block \<times> iw_books \<Rightarrow> iw_block \<times> iw_books" where
  "iw_line line s =
     (case s of (b, k) \<Rightarrow> if iw_begins line then (iw_open, iw_flush b k) else (iw_describe line b, k))"

definition network_before :: "wifi_network \<Rightarrow> wifi_network \<Rightarrow> bool" where
  "network_before a b \<longleftrightarrow>
     (if f_eq (wn_signal a) (wn_signal b) then bytes_less (wn_ssid a) (wn_ssid b)
      else f_less (wn_signal b) (wn_signal a))"

definition scanned_lines :: "string \<Rightarrow> string list" where
  \<comment> \<open>\<open>bufio.Scanner\<close>: the reading ends at a line of 64 kB\<close>
  "scanned_lines text =
     map (\<lambda>l. trim_space (drop_cr l)) (takeWhile (\<lambda>l. length l < maxToken) (scan_lines text))"

definition iw_books_of :: "string list \<Rightarrow> iw_books" where
  "iw_books_of ls = (case fold iw_line ls (iw_start, iw_nothing) of (b, k) \<Rightarrow> iw_flush b k)"

definition parseIWScan :: "string \<Rightarrow> wifi_network list" where
  "parseIWScan text =
     (let k = iw_books_of (scanned_lines text)
      in sort_by network_before (map (\<lambda>s. the (iw_by_ssid k s)) (iw_names k)))"

text \<open>An entry of \<open>/sys/class/net\<close>: its name, a directory or a link, and whether it has \<open>wireless\<close> in it.\<close>

definition wirelessInterface :: "(string \<times> bool \<times> bool) list \<Rightarrow> string" where
  "wirelessInterface entries =
     (case filter (\<lambda>(_, directory, wireless). directory \<and> wireless) entries of (name, _) # _ \<Rightarrow> name | [] \<Rightarrow> [])"

definition wifiScan ::
    "(string \<Rightarrow> string \<times> bool) option \<Rightarrow> (string \<times> bool \<times> bool) list \<Rightarrow> (int \<times> string) + (string \<times> wifi_network list)" where
  \<comment> \<open>\<open>iw dev X scan\<close> gives its output and whether it succeeded\<close>
  "wifiScan iw entries =
     (case iw of
        None \<Rightarrow> Inl (503, ''Wi-Fi scanning is unavailable'')
      | Some run \<Rightarrow>
          (let name = wirelessInterface entries
           in if name = [] then Inl (404, ''no Wi-Fi interface found'')
              else
                (case run name of
                   (out, True) \<Rightarrow> Inr (name, parseIWScan out)
                 | (out, False) \<Rightarrow>
                     (let detail = take 240 (trim_space out)
                      in Inl (503, ''Wi-Fi scan unavailable: ''
                           @ (if detail = [] then ''the adapter may not support scanning while the setup AP is active'' else detail))))))"

section \<open>Devices\<close>

text \<open>The file system: the matches of a pattern, where a link leads, and what is there.\<close>

record device_world =
  dw_glob :: "string \<Rightarrow> string list"
  dw_links :: "string \<Rightarrow> string option"
  dw_there :: "string \<Rightarrow> bool"

definition system_path :: "string \<Rightarrow> string \<Rightarrow> string" where
  \<comment> \<open>\<open>filepath.Join\<close> with a root that is empty or absolute\<close>
  "system_path base path = clean_rooted (base @ ''/'' @ path)"

definition resolve :: "device_world \<Rightarrow> string \<Rightarrow> string" where
  "resolve w path = (case dw_links w path of Some target \<Rightarrow> target | None \<Rightarrow> path)"

definition unrooted :: "string \<Rightarrow> string \<Rightarrow> string" where
  "unrooted base path =
     (if base = [] then path
      else
        (let trimmed = trim_prefix path base
         in if has_prefix trimmed ''/'' then trimmed else ''/'' @ trimmed))"

definition discover_match :: "device_world \<Rightarrow> string \<Rightarrow> string \<Rightarrow> string set \<times> string list \<Rightarrow> string set \<times> string list" where
  "discover_match w base match s =
     (case s of
        (seen, found) \<Rightarrow>
          if dw_there w match \<and> resolve w match \<notin> seen
          then (insert (resolve w match) seen, found @ [unrooted base match]) else s)"

definition candidates :: "device_world \<Rightarrow> string \<Rightarrow> string list \<Rightarrow> string list" where
  "candidates w base patterns =
     concat (map (\<lambda>p. sort_by bytes_less (dw_glob w (system_path base p))) patterns)"

definition discover :: "device_world \<Rightarrow> string \<Rightarrow> string list \<Rightarrow> string list" where
  "discover w base patterns = snd (fold (discover_match w base) (candidates w base patterns) ({}, []))"

definition stable_path :: "string \<Rightarrow> bool" where
  "stable_path path \<longleftrightarrow> contains_string path ''/by-id/''"

record video_device =
  vd_path :: string
  vd_stable :: bool
  vd_name :: string
  vd_capabilities :: string

definition base_name :: "string \<Rightarrow> string" where
  \<comment> \<open>\<open>filepath.Base\<close> of a clean path with a name in it\<close>
  "base_name path = last (split_string path (CHR ''/''))"

definition video_of ::
    "device_world \<Rightarrow> string \<Rightarrow> (string \<Rightarrow> string) \<Rightarrow> (string \<Rightarrow> string \<times> bool) option \<Rightarrow> string \<Rightarrow> video_device list" where
  \<comment> \<open>a node that answers with an empty list of formats is left out\<close>
  "video_of w base names formats path =
     (let name = trim_space (names (system_path base
                   (''/sys/class/video4linux/'' @ base_name (resolve w (system_path base path)) @ ''/name'')));
          entry = (\<lambda>c. [\<lparr>vd_path = path, vd_stable = stable_path path, vd_name = name, vd_capabilities = c\<rparr>])
      in case formats of
           None \<Rightarrow> entry []
         | Some ask \<Rightarrow>
             (case ask path of (out, ok) \<Rightarrow> if ok \<and> trim_space out = [] then [] else entry (trim_space out)))"

definition devices ::
    "device_world \<Rightarrow> string \<Rightarrow> (string \<Rightarrow> string) \<Rightarrow> (string \<Rightarrow> string \<times> bool) option \<Rightarrow>
     (string \<times> bool) list \<times> video_device list" where
  "devices w base names formats =
     (map (\<lambda>p. (p, stable_path p)) (discover w base [''/dev/serial/by-id/*'', ''/dev/ttyUSB*'', ''/dev/ttyACM*'']),
      concat (map (video_of w base names formats) (discover w base [''/dev/v4l/by-id/*'', ''/dev/video*''])))"

section \<open>Sorting\<close>

lemma set_insert_by [simp]: "set (insert_by lt x ys) = insert x (set ys)"
  by (induction ys) auto

lemma set_sort_by [simp]: "set (sort_by lt xs) = set xs"
  by (induction xs) (simp_all add: sort_by_def)

lemma sort_by_simps [simp]: "sort_by lt [] = []" "sort_by lt (x # xs) = insert_by lt x (sort_by lt xs)"
  by (simp_all add: sort_by_def)

lemma distinct_insert_by: "distinct (map f (insert_by lt x ys)) \<longleftrightarrow> f x \<notin> f ` set ys \<and> distinct (map f ys)"
  by (induction ys) auto

lemma distinct_sort_by [simp]: "distinct (map f (sort_by lt xs)) \<longleftrightarrow> distinct (map f xs)"
  by (induction xs) (auto simp: distinct_insert_by)

lemma insert_by_sorted:
  assumes "\<And>a b c. lt a b \<Longrightarrow> lt b c \<Longrightarrow> lt a c" and "\<And>a b. lt a b \<Longrightarrow> \<not> lt b a"
    and "sorted_wrt (\<lambda>a b. \<not> lt b a) ys"
  shows "sorted_wrt (\<lambda>a b. \<not> lt b a) (insert_by lt x ys)"
  using assms(3)
proof (induction ys)
  case (Cons y ys)
  show ?case
  proof (cases "lt x y")
    case True
    have "\<not> lt z x" if "z \<in> set ys" for z
      using assms(1) [of z x y] True Cons.prems that by auto
    then show ?thesis using True Cons.prems assms(2) [of x y] by auto
  qed (use Cons in auto)
qed simp

lemma sort_by_sorted:
  assumes "\<And>a b c. lt a b \<Longrightarrow> lt b c \<Longrightarrow> lt a c" and "\<And>a b. lt a b \<Longrightarrow> \<not> lt b a"
  shows "sorted_wrt (\<lambda>a b. \<not> lt b a) (sort_by lt xs)"
  by (induction xs) (simp_all add: insert_by_sorted [OF assms])

lemma bytes_less_Nil [simp]: "\<not> bytes_less s []"
  by (cases s) simp_all

lemma bytes_less_trans: "bytes_less s t \<Longrightarrow> bytes_less t u \<Longrightarrow> bytes_less s u"
proof (induction s t arbitrary: u rule: bytes_less.induct)
  case (1 t)
  then show ?case by (cases t; cases u) auto
next
  case (3 a s b t)
  then show ?case by (cases u) auto
qed simp

lemma bytes_less_asym: "bytes_less s t \<Longrightarrow> \<not> bytes_less t s"
  by (induction s t rule: bytes_less.induct) auto

lemma f_less_trans: "f_less a b \<Longrightarrow> f_less b c \<Longrightarrow> f_less a c"
  by (cases a; cases b; cases c) auto

lemma f_less_eq: "f_less a b \<Longrightarrow> f_eq b c \<Longrightarrow> f_less a c" "f_eq a b \<Longrightarrow> f_less b c \<Longrightarrow> f_less a c"
  by (cases a; cases b; cases c; auto)+

lemma f_eq_trans: "f_eq a b \<Longrightarrow> f_eq b c \<Longrightarrow> f_eq a c" "f_eq a b \<Longrightarrow> f_eq b a"
  by (cases a; cases b; cases c; auto)+

lemma f_less_asym: "f_less a b \<Longrightarrow> \<not> f_less b a" "f_less a b \<Longrightarrow> \<not> f_eq a b" "f_less a b \<Longrightarrow> \<not> f_eq b a"
  by (cases a; cases b; auto)+

lemma before_trans:
  "network_before a b \<Longrightarrow> network_before b c \<Longrightarrow> network_before a c"
  unfolding network_before_def
  by (auto split: if_splits dest: f_less_trans f_less_eq f_eq_trans bytes_less_trans f_less_asym)

lemma before_asym: "network_before a b \<Longrightarrow> \<not> network_before b a"
  unfolding network_before_def
  by (auto split: if_splits dest: f_eq_trans(2) bytes_less_asym f_less_asym)

section \<open>What the scan means\<close>

text \<open>
  The reference: the lines between one \<open>BSS\<close> and the next describe one network; of those that
  bear the same name the strongest is listed, the first one heard among equals.
\<close>

fun iw_blocks :: "string list \<Rightarrow> string list list" where
  "iw_blocks [] = []"
| "iw_blocks (l # ls) = (if iw_begins l then takeWhile (\<lambda>k. \<not> iw_begins k) ls # iw_blocks ls else iw_blocks ls)"

definition block_network :: "string list \<Rightarrow> wifi_network option" where
  "block_network ls = iw_finished (fold iw_describe ls iw_open)"

definition heard :: "string list \<Rightarrow> wifi_network list" where
  "heard ls = List.map_filter block_network (iw_blocks ls)"

definition stronger :: "wifi_network \<Rightarrow> wifi_network option \<Rightarrow> wifi_network option" where
  "stronger n best =
     (case best of None \<Rightarrow> Some n | Some b \<Rightarrow> Some (if f_less (wn_signal b) (wn_signal n) then n else b))"

definition strongest :: "wifi_network list \<Rightarrow> wifi_network option" where
  "strongest ns = fold stronger ns None"

definition named :: "string \<Rightarrow> wifi_network list \<Rightarrow> wifi_network list" where
  "named s ns = filter (\<lambda>n. wn_ssid n = s) ns"

definition booked :: "wifi_network list \<Rightarrow> iw_books \<Rightarrow> bool" where
  \<comment> \<open>the books say what the networks say\<close>
  "booked ns k \<longleftrightarrow>
     (\<forall>s. iw_by_ssid k s = strongest (named s ns)) \<and> distinct (iw_names k)
     \<and> set (iw_names k) = wn_ssid ` set ns"

lemma strongest_snoc: "strongest (ns @ [n]) = stronger n (strongest ns)"
  by (simp add: strongest_def)

lemma strongest_None: "strongest ns = None \<longleftrightarrow> ns = []"
  by (induction ns rule: rev_induct) (auto simp: strongest_snoc stronger_def strongest_def split: option.split)

lemma named_snoc: "named s (ns @ [n]) = (if wn_ssid n = s then named s ns @ [n] else named s ns)"
  by (simp add: named_def)

lemma named_Nil: "named s ns = [] \<longleftrightarrow> s \<notin> wn_ssid ` set ns"
  by (auto simp: named_def filter_empty_conv)

definition finished :: "iw_block \<Rightarrow> wifi_network list" where
  "finished st = (case iw_finished st of None \<Rightarrow> [] | Some n \<Rightarrow> [n])"

lemma flush_booked:
  assumes "booked ns k"
  shows "booked (ns @ finished st) (iw_flush st k)"
proof (cases "iw_finished st")
  case None
  then show ?thesis using assms by (simp add: iw_flush_def finished_def)
next
  case n: (Some n)
  show ?thesis
  proof (cases "iw_by_ssid k (wn_ssid n)")
    case None
    then have "named (wn_ssid n) ns = []" using assms by (simp add: booked_def strongest_None)
    then show ?thesis
      using assms None n
      by (auto simp: iw_flush_def finished_def booked_def named_snoc strongest_snoc stronger_def named_Nil strongest_def)
  next
    case (Some p)
    then have p: "strongest (named (wn_ssid n) ns) = Some p" using assms by (simp add: booked_def)
    then have "wn_ssid n \<in> wn_ssid ` set ns"
      using strongest_None [of "named (wn_ssid n) ns"] named_Nil [of "wn_ssid n" ns] by auto
    then show ?thesis
      using p assms Some n
      by (auto simp: iw_flush_def finished_def booked_def named_snoc strongest_snoc stronger_def)
  qed
qed

lemma describe_none: "iw_current st = None \<Longrightarrow> iw_describe l st = st"
  by (simp add: iw_describe_def)

lemma iw_line_pair: "iw_line l (b, k) = (if iw_begins l then (iw_open, iw_flush b k) else (iw_describe l b, k))"
  by (simp add: iw_line_def)

lemma fold_lines:
  assumes "booked ns k"
  shows "booked (ns @ finished (fold iw_describe (takeWhile (\<lambda>l. \<not> iw_begins l) ls) st)
      @ heard ls) (case fold iw_line ls (st, k) of (b, k') \<Rightarrow> iw_flush b k')"
  using assms
proof (induction ls arbitrary: ns st k)
  case Nil
  then show ?case using flush_booked [of ns k st] by (simp add: heard_def)
next
  case (Cons l ls)
  show ?case
  proof (cases "iw_begins l")
    case True
    have "heard (l # ls) = finished (fold iw_describe (takeWhile (\<lambda>l. \<not> iw_begins l) ls) iw_open) @ heard ls"
      using True by (simp add: heard_def block_network_def finished_def List.map_filter_simps split: option.split)
    then show ?thesis
      using Cons.IH [OF flush_booked [OF Cons.prems, of st], of iw_open] True by (simp add: iw_line_pair)
  next
    case False
    then have "heard (l # ls) = heard ls" by (simp add: heard_def)
    then show ?thesis using Cons.IH [OF Cons.prems, of "iw_describe l st"] False by (simp add: iw_line_pair)
  qed
qed

lemma books_say: "booked (heard ls) (iw_books_of ls)"
proof -
  have none: "fold iw_describe ks iw_start = iw_start" for ks
    by (induction ks) (simp_all add: describe_none iw_start_def)
  have "finished iw_start = []" by (simp add: finished_def iw_finished_def iw_start_def)
  moreover have "booked [] iw_nothing" by (simp add: booked_def iw_nothing_def named_def strongest_def)
  from fold_lines [OF this, where ls = ls and st = iw_start] calculation show ?thesis
    by (simp add: none iw_books_of_def)
qed

lemma strongest_sound:
  "strongest ns = Some b \<Longrightarrow> b \<in> set ns \<and> (\<forall>n \<in> set ns. \<not> f_less (wn_signal b) (wn_signal n))"
proof (induction ns arbitrary: b rule: rev_induct)
  case (snoc n ns)
  show ?case
  proof (cases "strongest ns")
    case None
    then have "b = n" using snoc.prems by (simp add: strongest_snoc stronger_def)
    moreover have "ns = []" using None by (simp add: strongest_None)
    ultimately show ?thesis by (auto dest: f_less_asym(1))
  next
    case (Some c)
    then show ?thesis
      using snoc.IH [OF Some] snoc.prems
      by (auto simp: strongest_snoc stronger_def split: if_splits dest: f_less_asym(1) f_less_trans)
  qed
qed (simp add: strongest_def)

lemma named_In: "n \<in> set (named s ns) \<longleftrightarrow> n \<in> set ns \<and> wn_ssid n = s"
  by (auto simp: named_def)

lemma listed_strongest:
  "set (parseIWScan text) = {b. strongest (named (wn_ssid b) (heard (scanned_lines text))) = Some b}"
  "distinct (map wn_ssid (parseIWScan text))"
proof -
  let ?ns = "heard (scanned_lines text)" and ?k = "iw_books_of (scanned_lines text)"
  have books: "iw_by_ssid ?k s = strongest (named s ?ns)" "distinct (iw_names ?k)" "set (iw_names ?k) = wn_ssid ` set ?ns" for s
    using books_say [of "scanned_lines text"] by (simp_all add: booked_def)
  have entry: "\<exists>b. iw_by_ssid ?k s = Some b \<and> wn_ssid b = s \<and> b \<in> set ?ns" if "s \<in> set (iw_names ?k)" for s
  proof -
    have "strongest (named s ?ns) \<noteq> None" using that books(3) by (simp add: strongest_None named_Nil)
    then obtain b where "strongest (named s ?ns) = Some b" by blast
    then show ?thesis using strongest_sound [of "named s ?ns" b] books(1) by (auto simp: named_In)
  qed
  have "map (wn_ssid \<circ> (\<lambda>s. the (iw_by_ssid ?k s))) (iw_names ?k) = iw_names ?k"
    using entry by (intro map_idI) force
  then show "distinct (map wn_ssid (parseIWScan text))" using books(2) by (simp add: parseIWScan_def Let_def)
  show "set (parseIWScan text) = {b. strongest (named (wn_ssid b) ?ns) = Some b}"
  proof (intro equalityI subsetI CollectI)
    fix b
    assume "b \<in> set (parseIWScan text)"
    then obtain s where "s \<in> set (iw_names ?k)" "b = the (iw_by_ssid ?k s)" by (auto simp: parseIWScan_def Let_def)
    then show "strongest (named (wn_ssid b) ?ns) = Some b" using entry books(1) by force
  next
    fix b
    assume "b \<in> {b. strongest (named (wn_ssid b) ?ns) = Some b}"
    then have b: "strongest (named (wn_ssid b) ?ns) = Some b" by simp
    then have "wn_ssid b \<in> set (iw_names ?k)"
      using books(3) named_Nil [of "wn_ssid b" ?ns] strongest_None [of "named (wn_ssid b) ?ns"] by auto
    then show "b \<in> set (parseIWScan text)"
      using b books(1) [of "wn_ssid b"] by (force simp: parseIWScan_def Let_def)
  qed
qed

lemma listed_sorted: "sorted_wrt (\<lambda>a b. \<not> network_before b a) (parseIWScan text)"
  using sort_by_sorted [of network_before, OF before_trans before_asym] by (simp add: parseIWScan_def Let_def)

section \<open>Names that are text\<close>

lemma valid_ascii: "\<forall>c \<in> set s. code_of c < 128 \<Longrightarrow> valid_string s"
  by (induction s) (simp_all add: decode_rune_def runeError_def)

lemma ssid_is_text: "valid_string (decodeIWSSID s)"
proof -
  have "valid_string (''invalid-ssid-'' @ hex_text t)" for t
    using hex_char_byte [of "code_of c div 16" for c] hex_char_byte [of "code_of c mod 16" for c]
    by (intro valid_ascii) (auto simp: hex_text_def less_mult_imp_div_less)
  then show ?thesis by (simp add: decodeIWSSID_def Let_def)
qed

section \<open>Devices are found once\<close>

lemma discover_fold:
  assumes "found = map (unrooted base) ms" and "seen = resolve w ` set ms" and "distinct (map (resolve w) ms)"
  shows "\<exists>new. snd (fold (discover_match w base) cs (seen, found)) = map (unrooted base) (ms @ new)
    \<and> distinct (map (resolve w) (ms @ new)) \<and> subseq new cs \<and> (\<forall>m \<in> set new. dw_there w m)
    \<and> (\<forall>c \<in> set cs. dw_there w c \<longrightarrow> resolve w c \<in> resolve w ` set (ms @ new))"
  using assms
proof (induction cs arbitrary: ms seen found)
  case (Cons c cs)
  show ?case
  proof (cases "dw_there w c \<and> resolve w c \<notin> seen")
    case True
    have "found @ [unrooted base c] = map (unrooted base) (ms @ [c])"
      "insert (resolve w c) seen = resolve w ` set (ms @ [c])" "distinct (map (resolve w) (ms @ [c]))"
      using True Cons.prems by auto
    from Cons.IH [OF this] obtain new where new:
      "snd (fold (discover_match w base) cs (insert (resolve w c) seen, found @ [unrooted base c])) = map (unrooted base) ((ms @ [c]) @ new)"
      "distinct (map (resolve w) ((ms @ [c]) @ new))" "subseq new cs" "\<forall>m \<in> set new. dw_there w m"
      "\<forall>d \<in> set cs. dw_there w d \<longrightarrow> resolve w d \<in> resolve w ` set ((ms @ [c]) @ new)" by blast
    moreover have "discover_match w base c (seen, found) = (insert (resolve w c) seen, found @ [unrooted base c])"
      using True by (simp add: discover_match_def)
    ultimately show ?thesis using True by (intro exI [of _ "c # new"]) simp
  next
    case False
    then have step: "discover_match w base c (seen, found) = (seen, found)" by (simp add: discover_match_def)
    from Cons.IH [OF Cons.prems] obtain new where new:
      "snd (fold (discover_match w base) cs (seen, found)) = map (unrooted base) (ms @ new)"
      "distinct (map (resolve w) (ms @ new))" "subseq new cs" "\<forall>m \<in> set new. dw_there w m"
      "\<forall>d \<in> set cs. dw_there w d \<longrightarrow> resolve w d \<in> resolve w ` set (ms @ new)" by blast
    then show ?thesis using False step Cons.prems(2)
      by (intro exI [of _ new]) (auto simp: subseq_Cons')
  qed
qed (auto intro: exI [of _ "[]"])

lemma system_names: "unrooted [] path = path"
  by (simp add: unrooted_def)

section \<open>Properties\<close>

text \<open>
  C40: the list of networks is what was heard. Each block of the words of \<open>iw\<close> is a network; of
  those with one name the list has exactly one, which none of the others outdoes, no network
  without a name is listed, every name heard is, and the strongest come first.
\<close>

theorem scan_lists_the_strongest:
  fixes words
  defines "ns \<equiv> parseIWScan words" and "hs \<equiv> heard (scanned_lines words)"
  shows "distinct (map wn_ssid ns) \<and> wn_ssid ` set ns = wn_ssid ` set hs
    \<and> (\<forall>n \<in> set ns. n \<in> set hs \<and> (\<forall>m \<in> set hs. wn_ssid m = wn_ssid n \<longrightarrow> \<not> f_less (wn_signal n) (wn_signal m)))
    \<and> sorted_wrt (\<lambda>a b. \<not> f_less (wn_signal a) (wn_signal b)) ns"
proof (intro conjI ballI)
  show "distinct (map wn_ssid ns)" using listed_strongest(2) by (simp add: ns_def)
  have best: "b \<in> set ns \<longleftrightarrow> strongest (named (wn_ssid b) hs) = Some b" for b
    using listed_strongest(1) [of words] by (auto simp: ns_def hs_def)
  show "n \<in> set hs" if "n \<in> set ns" for n
    using strongest_sound [of "named (wn_ssid n) hs" n] that best by (simp add: named_In)
  then have "wn_ssid ` set ns \<subseteq> wn_ssid ` set hs" by blast
  moreover have "wn_ssid h \<in> wn_ssid ` set ns" if h: "h \<in> set hs" for h
  proof -
    have "strongest (named (wn_ssid h) hs) \<noteq> None" using h by (simp add: strongest_None named_Nil)
    then obtain b where b: "strongest (named (wn_ssid h) hs) = Some b" by blast
    then have "wn_ssid b = wn_ssid h" using strongest_sound [OF b] by (simp add: named_In)
    then have "b \<in> set ns" using b best [of b] by simp
    then show ?thesis using \<open>wn_ssid b = wn_ssid h\<close> by (metis image_eqI)
  qed
  ultimately show "wn_ssid ` set ns = wn_ssid ` set hs" by blast
  show "wn_ssid m = wn_ssid n \<longrightarrow> \<not> f_less (wn_signal n) (wn_signal m)" if "n \<in> set ns" "m \<in> set hs" for n m
    using strongest_sound [of "named (wn_ssid n) hs" n] that best by (auto simp: named_In)
  show "sorted_wrt (\<lambda>a b. \<not> f_less (wn_signal a) (wn_signal b)) ns"
    using listed_sorted [of words] unfolding ns_def
    by (rule sorted_wrt_mono_rel [rotated]) (auto simp: network_before_def split: if_splits dest: f_less_asym)
qed

text \<open>
  A device is offered once. However many names lead to it, the list has one of them, the
  first that was found; every name that leads to something that is there is accounted for, and
  nothing is listed that is not there.
\<close>

theorem every_device_is_offered_once:
  "\<exists>ms. discover w base patterns = map (unrooted base) ms \<and> distinct (map (resolve w) ms)
     \<and> subseq ms (candidates w base patterns) \<and> (\<forall>m \<in> set ms. dw_there w m)
     \<and> (\<forall>c \<in> set (candidates w base patterns). dw_there w c \<longrightarrow> resolve w c \<in> resolve w ` set ms)"
  using discover_fold [of "[]" base "[]" "{}" w "candidates w base patterns"] by (simp add: discover_def)

lemma only_one: "distinct l \<Longrightarrow> set l = {x} \<Longrightarrow> l = [x]"
proof (cases l)
  case (Cons y ys)
  assume "distinct l" "set l = {x}"
  with Cons show ?thesis by (cases ys) auto
qed simp

lemma one_network: "map wn_ssid (heard [''BSS a'', ''SSID: s'']) = [''s'']"
proof -
  have begins: "iw_begins ''BSS a''" "\<not> iw_begins ''SSID: s''" by code_simp+
  have "has_prefix ''SSID: s'' ''SSID: ''" "trim_prefix ''SSID: s'' ''SSID: '' = ''s''" by code_simp+
  moreover have "decodeIWSSID ''s'' = ''s''" by (simp add: decodeIWSSID_def decode_rune_def runeError_def Let_def)
  ultimately have "iw_describe ''SSID: s'' iw_open = iw_open\<lparr>iw_current := Some (fresh_network\<lparr>wn_ssid := ''s''\<rparr>)\<rparr>"
    unfolding iw_describe_def by (simp only: iw_open_def iw_block.simps option.case if_True)
  then have "block_network [''SSID: s''] = Some (fresh_network\<lparr>wn_ssid := ''s'', wn_security := ''Open''\<rparr>)"
    by (simp add: block_network_def iw_finished_def iw_open_def fresh_network_def)
  moreover have "iw_blocks [''BSS a'', ''SSID: s''] = [[''SSID: s'']]"
    unfolding iw_blocks.simps takeWhile.simps using begins by (simp only: if_True if_False not_False_eq_True)
  ultimately show ?thesis by (simp add: heard_def List.map_filter_simps fresh_network_def)
qed

theorem scan_lists_the_strongest_witness:
  "map wn_ssid (parseIWScan (''BSS a'' @ [CHR 0x0A] @ ''SSID: s'')) = [''s'']"
proof -
  let ?t = "''BSS a'' @ [CHR 0x0A] @ ''SSID: s''"
  have "scan_lines ?t = [''BSS a'', ''SSID: s'']" "trim_space (drop_cr ''BSS a'') = ''BSS a''"
    "trim_space (drop_cr ''SSID: s'') = ''SSID: s''" by code_simp+
  then have lines: "scanned_lines ?t = [''BSS a'', ''SSID: s'']" by (simp add: scanned_lines_def maxToken_def)
  have heard: "wn_ssid ` set (heard (scanned_lines ?t)) = {''s''}"
    unfolding lines list.set_map [symmetric] one_network by simp
  note result = scan_lists_the_strongest [of ?t]
  have "wn_ssid ` set (parseIWScan ?t) = {''s''}"
    unfolding heard [symmetric] by (rule conjunct1 [OF conjunct2 [OF result]])
  then have "set (map wn_ssid (parseIWScan ?t)) = {''s''}" by (simp only: list.set_map)
  then show ?thesis by (rule only_one [OF conjunct1 [OF result]])
qed

end
