(* ===== verification/Api_Static.thy ===== *)
theory Api_Static
  imports Api_Devices Go_Lines
begin

text \<open>
  The pages of the web interface, \<open>backend/internal/api/static.go\<close>: the entity tag of the file a
  request would be served, by its content. The web root is absolute, as \<open>main.go\<close> makes it; the
  files below it and SHA-256 are arguments.
\<close>

section \<open>Which file\<close>

definition url_name :: "string \<Rightarrow> string" where
  \<comment> \<open>\<open>path.Clean\<close> against a leading slash, and the page of a directory\<close>
  "url_name url =
     (let name = clean_rooted (CHR ''/'' # trim_prefix url ''/'')
      in if has_suffix url ''/'' \<or> name = ''/'' then clean_rooted (name @ ''/index.html'') else name)"

definition asset_file :: "string \<Rightarrow> string \<Rightarrow> string" where
  "asset_file base url = system_path base (url_name url)"

section \<open>Its tag\<close>

definition maxHashedAsset :: int where "maxHashedAsset = 4194304"

record asset =
  as_directory :: bool
  as_size :: int
  as_data :: "string option"

definition assetETag :: "(string \<Rightarrow> string) \<Rightarrow> (string \<Rightarrow> asset option) \<Rightarrow> string \<Rightarrow> string \<Rightarrow> string" where
  "assetETag sha256 files base url =
     (if base = [] then []
      else
        (case files (asset_file base url) of
           None \<Rightarrow> []
         | Some a \<Rightarrow>
             if as_directory a \<or> maxHashedAsset < as_size a then []
             else
               (case as_data a of
                  None \<Rightarrow> []
                | Some data \<Rightarrow> [CHR 0x22] @ hex_text (take 8 (sha256 data)) @ [CHR 0x22])))"

definition static_headers :: "(string \<Rightarrow> string) \<Rightarrow> (string \<Rightarrow> asset option) \<Rightarrow> string \<Rightarrow> string \<Rightarrow> (string \<times> string) list" where
  "static_headers sha256 files base url =
     (''Cache-Control'', ''no-cache'')
     # (let tag = assetETag sha256 files base url in if tag \<noteq> [] then [(''ETag'', tag)] else [])"

section \<open>Clean paths\<close>

definition path_parts :: "string \<Rightarrow> string list" where
  "path_parts p = rev (fold clean_element (split_string (tl p) (CHR ''/'')) [])"

definition part_ok :: "string \<Rightarrow> bool" where
  "part_ok e \<longleftrightarrow> e \<noteq> [] \<and> e \<noteq> ''.'' \<and> e \<noteq> ''..'' \<and> CHR ''/'' \<notin> set e"

lemma clean_rooted_parts: "clean_rooted p = CHR ''/'' # join (path_parts p) ''/''"
  by (simp add: clean_rooted_def path_parts_def)

lemma fold_clean_ok:
  "\<forall>e \<in> set es. CHR ''/'' \<notin> set e \<Longrightarrow> \<forall>e \<in> set ds. part_ok e \<Longrightarrow> \<forall>e \<in> set (fold clean_element es ds). part_ok e"
proof (induction es arbitrary: ds)
  case (Cons e es)
  have "\<forall>x \<in> set (clean_element e ds). part_ok x"
    using Cons.prems by (auto simp: clean_element_def part_ok_def split: list.splits)
  then show ?case using Cons by simp
qed simp

lemma path_parts_ok: "\<forall>e \<in> set (path_parts p). part_ok e"
  using fold_clean_ok [of "split_string (tl p) (CHR ''/'')" "[]"] split_parts [of "tl p" "CHR ''/''"]
  by (simp add: path_parts_def)

lemma fold_clean_push: "\<forall>e \<in> set es. part_ok e \<Longrightarrow> fold clean_element es ds = rev es @ ds"
  by (induction es arbitrary: ds) (simp_all add: clean_element_def part_ok_def)

lemma path_parts_slash: "p \<noteq> [] \<Longrightarrow> path_parts (p @ CHR ''/'' # q) = rev (fold clean_element (split_string q (CHR ''/'')) (rev (path_parts p)))"
  by (cases p) (simp_all add: path_parts_def split_two)

lemma split_joined_parts:
  "\<forall>e \<in> set es. part_ok e \<Longrightarrow> es \<noteq> [] \<Longrightarrow> split_string (join es ''/'') (CHR ''/'') = es"
  by (rule split_joined) (simp_all add: part_ok_def)

lemma parts_below:
  assumes "p \<noteq> []" and "\<forall>e \<in> set es. part_ok e"
  shows "path_parts (p @ CHR ''/'' # join es ''/'') = path_parts p @ es"
    and "path_parts (p @ ''//'' @ join es ''/'') = path_parts p @ es"
proof -
  have one: "path_parts (p @ CHR ''/'' # join es ''/'') = path_parts p @ es" if "p \<noteq> []" for p
  proof (cases es)
    case Nil
    then show ?thesis using that by (simp add: path_parts_slash clean_element_def)
  next
    case (Cons e rest)
    then have "es \<noteq> []" by simp
    then show ?thesis
      unfolding path_parts_slash [OF that] split_joined_parts [OF assms(2) \<open>es \<noteq> []\<close>] fold_clean_push [OF assms(2)]
      by simp
  qed
  show "path_parts (p @ CHR ''/'' # join es ''/'') = path_parts p @ es" by (rule one [OF assms(1)])
  have "path_parts (p @ ''/'') = path_parts p"
    using assms(1) path_parts_slash [of p "[]"] by (simp add: clean_element_def)
  then show "path_parts (p @ ''//'' @ join es ''/'') = path_parts p @ es"
    using one [of "p @ ''/''"] by simp
qed

lemma path_parts_joined: "\<forall>e \<in> set es. part_ok e \<Longrightarrow> path_parts (CHR ''/'' # join es ''/'') = es"
  by (cases "es = []") (simp_all add: path_parts_def split_joined_parts fold_clean_push clean_element_def)

lemma url_name_parts:
  obtains ns where "url_name url = CHR ''/'' # join ns ''/''" "\<forall>e \<in> set ns. part_ok e" "ns \<noteq> []"
proof -
  let ?ps = "path_parts (CHR ''/'' # trim_prefix url ''/'')"
  have name: "clean_rooted (CHR ''/'' # trim_prefix url ''/'') = CHR ''/'' # join ?ps ''/''"
    by (rule clean_rooted_parts)
  show thesis
  proof (cases "has_suffix url ''/'' \<or> CHR ''/'' # join ?ps ''/'' = ''/''")
    case True
    have page: "part_ok ''index.html''" by (simp add: part_ok_def)
    have "path_parts (CHR ''/'' # join ?ps ''/'') = ?ps" by (rule path_parts_joined [OF path_parts_ok])
    moreover have "path_parts ((CHR ''/'' # join ?ps ''/'') @ CHR ''/'' # join [''index.html''] ''/'') =
        path_parts (CHR ''/'' # join ?ps ''/'') @ [''index.html'']"
      by (rule parts_below(1)) (simp_all add: page)
    ultimately have "url_name url = CHR ''/'' # join (?ps @ [''index.html'']) ''/''"
      using True unfolding url_name_def name Let_def by (simp add: clean_rooted_parts)
    then show thesis using that [of "?ps @ [''index.html'']"] path_parts_ok page by simp
  next
    case False
    then have "url_name url = CHR ''/'' # join ?ps ''/''" unfolding url_name_def name Let_def by simp
    moreover have "?ps \<noteq> []" using False by auto
    ultimately show thesis using that path_parts_ok by blast
  qed
qed

section \<open>Properties\<close>

text \<open>
  A request cannot climb out of the web root. Whatever path it names, the file that is read
  is found by going down from the web root: at least one step, none of them up or nowhere, and
  no step hides another.
\<close>

theorem assets_stay_in_the_web_root:
  assumes "is_abs base"
  shows "\<exists>ns. asset_file base url = CHR ''/'' # join (path_parts base @ ns) ''/'' \<and> ns \<noteq> []
    \<and> (\<forall>n \<in> set ns. n \<notin> {[], ''.'', ''..''} \<and> CHR ''/'' \<notin> set n)"
proof -
  obtain ns where ns: "url_name url = CHR ''/'' # join ns ''/''" "\<forall>e \<in> set ns. part_ok e" "ns \<noteq> []"
    by (rule url_name_parts)
  have "base \<noteq> []" using assms by (auto simp: is_abs_def has_prefix_def)
  from parts_below(2) [OF this ns(2)] have "asset_file base url = CHR ''/'' # join (path_parts base @ ns) ''/''"
    by (simp add: asset_file_def system_path_def clean_rooted_parts ns(1))
  then show ?thesis using ns(2,3) by (intro exI [of _ ns]) (auto simp: part_ok_def)
qed

theorem assets_stay_in_the_web_root_witness:
  "\<exists>ns. asset_file ''/usr/web'' ''/../../etc/shadow'' = CHR ''/'' # join ([''usr'', ''web''] @ ns) ''/'' \<and> ns \<noteq> []"
proof -
  have "is_abs ''/usr/web''" "path_parts ''/usr/web'' = [''usr'', ''web'']" by code_simp+
  with assets_stay_in_the_web_root [of "''/usr/web''" "''/../../etc/shadow''"] show ?thesis by auto
qed

text \<open>The tag is that of the content: the time of a file, and its name, have no part in it.\<close>

lemma tag_by_content:
  assumes "files (asset_file base url) = Some a" and "files' (asset_file base' url') = Some a'"
    and "\<not> as_directory a" "\<not> as_directory a'" "as_size a \<le> maxHashedAsset" "as_size a' \<le> maxHashedAsset"
    and "as_data a = as_data a'" and "base \<noteq> []" "base' \<noteq> []"
  shows "assetETag sha256 files base url = assetETag sha256 files' base' url'"
  using assms by (simp add: assetETag_def)

end
