(* ===== verification/Api_Status.thy ===== *)
theory Api_Status
  imports Api_Devices Go_Lines
begin

text \<open>
  The status page, \<open>backend/internal/api/status.go\<close>: what it reads out of \<open>/proc\<close>, and when it
  calls a service running. A file is its contents or nothing; where the code would panic, or Go
  leaves the value of a conversion to the machine, the result is \<open>None\<close>. Products and sums of
  floats are rounded one by one, as the compiler does for the appliance's amd64.
\<close>

section \<open>Numbers\<close>

fun f_mul :: "float64 \<Rightarrow> float64 \<Rightarrow> float64" where
  "f_mul (F64 n a) (F64 n' b) = rounded (n \<noteq> n') (a * b)"
| "f_mul F64NaN _ = F64NaN"
| "f_mul _ F64NaN = F64NaN"
| "f_mul (F64Inf n) (F64Inf n') = F64Inf (n \<noteq> n')"
| "f_mul (F64Inf n) (F64 n' b) = (if b = 0 then F64NaN else F64Inf (n \<noteq> n'))"
| "f_mul (F64 n a) (F64Inf n') = (if a = 0 then F64NaN else F64Inf (n \<noteq> n'))"

fun f_div :: "float64 \<Rightarrow> float64 \<Rightarrow> float64" where
  "f_div (F64 n a) (F64 n' b) =
     (if b = 0 then (if a = 0 then F64NaN else F64Inf (n \<noteq> n')) else rounded (n \<noteq> n') (a / b))"
| "f_div F64NaN _ = F64NaN"
| "f_div _ F64NaN = F64NaN"
| "f_div (F64Inf n) (F64Inf n') = F64NaN"
| "f_div (F64Inf n) (F64 n' b) = F64Inf (n \<noteq> n')"
| "f_div (F64 n a) (F64Inf n') = F64 (n \<noteq> n') 0"

text \<open>Conversions to integers cut off towards zero; out of range they are the machine's business.\<close>

fun truncated :: "float64 \<Rightarrow> int option" where
  "truncated (F64 n m) = Some (if n then - \<lfloor>m\<rfloor> else \<lfloor>m\<rfloor>)"
| "truncated _ = None"

definition to_int64 :: "float64 \<Rightarrow> int option" where
  "to_int64 v = (case truncated v of Some i \<Rightarrow> if - (2 ^ 63) \<le> i \<and> i < 2 ^ 63 then Some i else None | None \<Rightarrow> None)"

definition to_uint64 :: "float64 \<Rightarrow> int option" where
  "to_uint64 v = (case truncated v of Some i \<Rightarrow> if 0 \<le> i \<and> i < 2 ^ 64 then Some i else None | None \<Rightarrow> None)"

definition to_word :: "string \<Rightarrow> 64 word" where
  \<comment> \<open>\<open>ParseUint\<close> with its error thrown away\<close>
  "to_word s = word_of_int (fst (parse_uint s))"

section \<open>Time, load and memory\<close>

definition read_trimmed :: "string option \<Rightarrow> string" where
  "read_trimmed file = (case file of None \<Rightarrow> [] | Some t \<Rightarrow> trim_space t)"

definition uptime :: "string option \<Rightarrow> int option" where
  "uptime file = (case string_fields (read_trimmed file) of [] \<Rightarrow> Some 0 | f # _ \<Rightarrow> to_uint64 (float_value f))"

definition cpu_idle :: "string list \<Rightarrow> 64 word" where
  "cpu_idle values = sum_list (map (\<lambda>i. if i = 3 \<or> i = 4 then to_word (values ! i) else 0) [0 ..< length values])"

definition cpuSnapshot :: "string option \<Rightarrow> (64 word \<times> 64 word) option" where
  \<comment> \<open>idle and total; a first line without a word would panic\<close>
  "cpuSnapshot file =
     (case file of
        None \<Rightarrow> Some (0, 0)
      | Some t \<Rightarrow>
          (case scan_lines t of
             [] \<Rightarrow> Some (0, 0)
           | l # _ \<Rightarrow>
               if maxToken \<le> length l then Some (0, 0)
               else
                 (case string_fields (drop_cr l) of
                    [] \<Rightarrow> None
                  | _ # values \<Rightarrow> Some (cpu_idle values, sum_list (map to_word values)))))"

definition busy_share :: "64 word \<Rightarrow> 64 word \<Rightarrow> float64" where
  "busy_share idle whole =
     f_mul (f_of_int 100) (f_sub (f_of_int 1) (f_div (f_of_int (uint idle)) (f_of_int (uint whole))))"

definition cpuPercent :: "64 word \<times> 64 word \<Rightarrow> 64 word \<times> 64 word \<Rightarrow> float64 option" where
  \<comment> \<open>between two snapshots, rounded to a tenth\<close>
  "cpuPercent a b =
     (if snd b \<le> snd a then Some f_zero
      else
        map_option (\<lambda>i. f_div (f_of_int i) (f_of_int 10))
          (to_int64 (f_add (f_mul (busy_share (fst b - fst a) (snd b - snd a)) (f_of_int 10)) (F64 False (1/2)))))"

definition meminfo_line :: "string \<Rightarrow> (string \<rightharpoonup> 64 word) \<Rightarrow> (string \<rightharpoonup> 64 word)" where
  "meminfo_line l values =
     (case string_fields (drop_cr l) of
        name # number # _ \<Rightarrow> values(trim_suffix name '':'' \<mapsto> to_word number)
      | _ \<Rightarrow> values)"

definition memory :: "string option \<Rightarrow> 64 word \<times> 64 word" where
  \<comment> \<open>used and total, in bytes\<close>
  "memory file =
     (case file of
        None \<Rightarrow> (0, 0)
      | Some t \<Rightarrow>
          (let values = fold meminfo_line (takeWhile (\<lambda>l. length l < maxToken) (scan_lines t)) Map.empty;
               value = (\<lambda>name. case values name of None \<Rightarrow> 0 | Some v \<Rightarrow> v * 1024)
           in (value ''MemTotal'' - value ''MemAvailable'', value ''MemTotal'')))"

section \<open>Sockets\<close>

function hex_of :: "int \<Rightarrow> string" where
  "hex_of n = (if n < 16 then [hex_char (nat n)] else hex_of (n div 16) @ [hex_char (nat (n mod 16))])"
  by pat_completeness auto
termination
  by (relation "measure nat") auto

declare hex_of.simps [simp del]

definition port_needle :: "int \<Rightarrow> string option" where
  \<comment> \<open>four digits; \<open>strings.Repeat\<close> panics where there would be more\<close>
  "port_needle port =
     (let digits = map upper ((if port < 0 then ''-'' else []) @ hex_of \<bar>port\<bar>)
      in if 4 < length digits then None else Some (replicate (4 - length digits) (CHR ''0'') @ digits))"

definition tcp_row :: "string \<Rightarrow> string \<Rightarrow> string \<Rightarrow> bool" where
  "tcp_row needle state line \<longleftrightarrow>
     (case string_fields line of
        _ # local # _ # st # _ \<Rightarrow> has_suffix local ('':'' @ needle) \<and> st = state
      | _ \<Rightarrow> False)"

definition countTCP :: "string option \<times> string option \<Rightarrow> int \<Rightarrow> string \<Rightarrow> nat option" where
  \<comment> \<open>\<open>/proc/net/tcp\<close> and \<open>tcp6\<close>\<close>
  "countTCP files port state =
     map_option (\<lambda>needle.
         sum_list (map (\<lambda>file. case file of
                               None \<Rightarrow> 0
                             | Some t \<Rightarrow> length (filter (tcp_row needle state) (split_string t (CHR 0x0A))))
                      [fst files, snd files]))
       (port_needle port)"

definition listening :: "string option \<times> string option \<Rightarrow> int \<Rightarrow> bool option" where
  "listening files port = map_option (\<lambda>n. 0 < n) (countTCP files port ''0A'')"

definition tcpClients :: "string option \<times> string option \<Rightarrow> int \<Rightarrow> nat option" where
  "tcpClients files port = countTCP files port ''01''"

section \<open>Services\<close>

text \<open>\<open>a && b\<close>, where finding out \<open>b\<close> may panic and is only tried if \<open>a\<close> holds.\<close>

definition and_then :: "bool \<Rightarrow> bool option \<Rightarrow> bool option" where
  "and_then a b = (if a then b else Some False)"

definition status_services :: "string list" where
  "status_services =
     [''ser2net'', ''laserbridged'', ''ustreamer'', ''sshd'', ''avahi-daemon'', ''laserbridge-web'', ''laserbridge-watchdog'']"

definition serviceRunning :: "runner option \<Rightarrow> string \<Rightarrow> bool" where
  "serviceRunning runs name =
     (case runs of None \<Rightarrow> False | Some run \<Rightarrow> run [''rc-service'', name, ''status''] = None)"

definition service_states ::
    "runner option \<Rightarrow> string option \<times> string option \<Rightarrow> bool option \<Rightarrow> config \<Rightarrow> (string \<rightharpoonup> bool) option" where
  \<comment> \<open>the third argument: no watch on the bridge, or whether it answered\<close>
  "service_states runs files answered c =
     (let started = (\<lambda>name. if name \<in> set status_services then Some (serviceRunning runs name) else None);
          up = (\<lambda>name. the (started name));
          port = grbl_port (cg_grbl c)
      in case (and_then (up ''ser2net'') (listening files port),
               and_then (up ''laserbridged'') (listening files port),
               and_then (up ''ustreamer'') (listening files (cam_port (cg_camera c)))) of
           (Some s, Some l, Some u) \<Rightarrow>
             Some (started(''ser2net'' \<mapsto> s,
                           ''laserbridged'' \<mapsto> (l \<and> (grbl_backend (cg_grbl c) \<noteq> BackendLaserbridged \<or> answered \<noteq> Some False)),
                           ''ustreamer'' \<mapsto> u))
         | _ \<Rightarrow> None)"

text \<open>The whole page: what is shown of the configuration and of the machine.\<close>

record status_page =
  sp_hostname :: string
  sp_uptime :: int
  sp_cpu :: float64
  sp_memory :: "64 word \<times> 64 word"
  sp_services :: "string \<rightharpoonup> bool"
  sp_devices :: "bool \<times> bool"
  sp_clients :: nat
  sp_version :: string
  sp_warnings :: "store_note list"
  sp_stream :: string
  sp_mode :: string
  sp_autosuspend :: "int \<times> int option"

record proc_files =
  pf_hostname :: string
  pf_uptime :: "string option"
  pf_stat :: "string option \<times> string option"
  pf_meminfo :: "string option"
  pf_tcp :: "string option \<times> string option"
  pf_version :: "string option"
  pf_exists :: "string \<Rightarrow> bool"

definition stream_url :: "config \<Rightarrow> string" where
  "stream_url c =
     ''http://'' @ sys_hostname (cg_system c) @ ''.local:'' @ itoa (cam_port (cg_camera c)) @ ''/stream''"

definition status_of ::
    "runner option \<Rightarrow> proc_files \<Rightarrow> bool option \<Rightarrow> int option \<Rightarrow> store_note list \<Rightarrow> config \<Rightarrow> status_page option" where
  \<comment> \<open>\<open>None\<close> where the handler would panic, or Go leaves a number to the machine\<close>
  "status_of runs pf answered active warnings c =
     (case (service_states runs (pf_tcp pf) answered c, uptime (pf_uptime pf),
            cpuSnapshot (fst (pf_stat pf)), cpuSnapshot (snd (pf_stat pf)),
            tcpClients (pf_tcp pf) (grbl_port (cg_grbl c))) of
        (Some services, Some up, Some before, Some later, Some clients) \<Rightarrow>
          map_option (\<lambda>cpu.
            \<lparr>sp_hostname = (if pf_hostname pf = [] then sys_hostname (cg_system c) else pf_hostname pf),
             sp_uptime = up, sp_cpu = cpu, sp_memory = memory (pf_meminfo pf), sp_services = services,
             sp_devices = (pf_exists pf (grbl_device (cg_grbl c)), pf_exists pf (cam_device (cg_camera c))),
             sp_clients = clients,
             sp_version = (let v = read_trimmed (pf_version pf) in if v = [] then ''development'' else v),
             sp_warnings = warnings, sp_stream = stream_url c,
             sp_mode = cam_resolution (cg_camera c) @ '' @ '' @ itoa (cam_fps (cg_camera c)) @ '' FPS'',
             sp_autosuspend = (sys_usb_autosuspend (cg_system c), active)\<rparr>)
           (cpuPercent before later)
      | _ \<Rightarrow> None)"

definition status_reply ::
    "store_error + config \<Rightarrow> runner option \<Rightarrow> proc_files \<Rightarrow> bool option \<Rightarrow> int option \<Rightarrow> store_note list \<Rightarrow>
     (int \<times> string) + status_page option" where
  "status_reply loaded runs pf answered active warnings =
     (case loaded of
        Inl e \<Rightarrow> Inl (500, store_error_text e)
      | Inr c \<Rightarrow> Inr (status_of runs pf answered active warnings c))"

section \<open>Ports\<close>

definition hex4 :: "int \<Rightarrow> string" where
  \<comment> \<open>the kernel's \<open>%04X\<close>\<close>
  "hex4 p = map (\<lambda>d. upper (hex_char (nat d))) [p div 4096, p div 256 mod 16, p div 16 mod 16, p mod 16]"

lemma hex_of_small: "n < 16 \<Longrightarrow> hex_of n = [hex_char (nat n)]"
  by (simp add: hex_of.simps)

lemma hex_of_step: "\<not> n < 16 \<Longrightarrow> hex_of n = hex_of (n div 16) @ [hex_char (nat (n mod 16))]"
  by (simp add: hex_of.simps [of n])

lemma upper_zero: "upper (hex_char 0) = CHR ''0''"
  by code_simp

lemma div_twice: "(n::int) div 16 div 16 = n div 256" "(n::int) div 256 div 16 = n div 4096" "(n::int) div 16 div 256 = n div 4096"
  by (simp_all add: zdiv_zmult2_eq [symmetric])

lemma hex_of_digits:
  assumes "0 \<le> p" and "p < 65536"
  shows "hex_of p = map (\<lambda>d. hex_char (nat d))
    (if p < 16 then [p] else if p < 256 then [p div 16, p mod 16]
     else if p < 4096 then [p div 256, p div 16 mod 16, p mod 16]
     else [p div 4096, p div 256 mod 16, p div 16 mod 16, p mod 16])"
proof -
  have one: "hex_of n = [hex_char (nat n)]" if "n < 16" for n using that by (rule hex_of_small)
  have two: "hex_of n = [hex_char (nat (n div 16)), hex_char (nat (n mod 16))]" if "16 \<le> n" "n < 256" for n :: int
    using that one [of "n div 16"] hex_of_step [of n] by simp
  have three: "hex_of n = [hex_char (nat (n div 256)), hex_char (nat (n div 16 mod 16)), hex_char (nat (n mod 16))]"
    if "256 \<le> n" "n < 4096" for n :: int
    using that two [of "n div 16"] hex_of_step [of n] by (simp add: div_twice)
  have four: "hex_of n = [hex_char (nat (n div 4096)), hex_char (nat (n div 256 mod 16)), hex_char (nat (n div 16 mod 16)), hex_char (nat (n mod 16))]"
    if "4096 \<le> n" "n < 65536" for n :: int
    using that three [of "n div 16"] hex_of_step [of n] by (simp add: div_twice)
  show ?thesis
    using assms one [of p] two [of p] three [of p] four [of p] by (simp add: not_less)
qed

lemma padded:
  "length ds \<le> 4 \<Longrightarrow> hex_of p = map (\<lambda>d. hex_char (nat d)) ds \<Longrightarrow> 0 \<le> p \<Longrightarrow>
   port_needle p = Some (map (\<lambda>d. upper (hex_char (nat d))) (replicate (4 - length ds) 0 @ ds))"
  by (simp add: port_needle_def upper_zero Let_def comp_def)

lemma port_needle_hex4:
  assumes "0 \<le> p" and "p < 65536"
  shows "port_needle p = Some (hex4 p)"
proof -
  consider "p < 16" | "16 \<le> p" "p < 256" | "256 \<le> p" "p < 4096" | "4096 \<le> p" by linarith
  then have "\<exists>ds. hex_of p = map (\<lambda>d. hex_char (nat d)) ds \<and> length ds \<le> 4
      \<and> replicate (4 - length ds) 0 @ ds = [p div 4096, p div 256 mod 16, p div 16 mod 16, p mod 16]"
  proof cases
    case 1
    then show ?thesis using hex_of_digits [OF assms] assms(1)
      by (intro exI [of _ "[p]"]) (simp add: numeral_eq_Suc)
  next
    case 2
    then have "p div 16 mod 16 = p div 16" "p div 256 = 0" "p div 4096 = 0" by simp_all
    then show ?thesis using hex_of_digits [OF assms] 2
      by (intro exI [of _ "[p div 16, p mod 16]"]) (simp add: numeral_eq_Suc)
  next
    case 3
    then have "p div 256 mod 16 = p div 256" "p div 4096 = 0" by simp_all
    then show ?thesis using hex_of_digits [OF assms] 3
      by (intro exI [of _ "[p div 256, p div 16 mod 16, p mod 16]"]) (simp add: numeral_eq_Suc)
  next
    case 4
    then show ?thesis using hex_of_digits [OF assms]
      by (intro exI [of _ "[p div 4096, p div 256 mod 16, p div 16 mod 16, p mod 16]"]) simp
  qed
  then obtain ds where "hex_of p = map (\<lambda>d. hex_char (nat d)) ds" "length ds \<le> 4"
      "replicate (4 - length ds) 0 @ ds = [p div 4096, p div 256 mod 16, p div 16 mod 16, p mod 16]" by blast
  then show ?thesis using padded [of ds p] assms(1) unfolding hex4_def by simp
qed

lemma unhex_upper: "d < 16 \<Longrightarrow> unhex (upper (hex_char d)) = Some d"
  by (simp add: hex_char_def upper_def unhex_def Let_def)

lemma hex4_inj:
  assumes "0 \<le> p" "p < 65536" "0 \<le> q" "q < 65536" "hex4 p = hex4 q"
  shows "p = q"
proof -
  have digit: "a = b" if "upper (hex_char (nat a)) = upper (hex_char (nat b))" "0 \<le> a" "a < 16" "0 \<le> b" "b < 16" for a b :: int
  proof -
    have "unhex (upper (hex_char (nat a))) = Some (nat a)" "unhex (upper (hex_char (nat b))) = Some (nat b)"
      using that(2-5) by (auto intro!: unhex_upper)
    then have "Some (nat a) = Some (nat b)" unfolding that(1) by metis
    then show ?thesis using that(2,4) by (simp add: eq_nat_nat_iff)
  qed
  have eq: "upper (hex_char (nat (p div 4096))) = upper (hex_char (nat (q div 4096)))"
    "upper (hex_char (nat (p div 256 mod 16))) = upper (hex_char (nat (q div 256 mod 16)))"
    "upper (hex_char (nat (p div 16 mod 16))) = upper (hex_char (nat (q div 16 mod 16)))"
    "upper (hex_char (nat (p mod 16))) = upper (hex_char (nat (q mod 16)))"
    using assms(5) unfolding hex4_def list.map list.inject by blast+
  have "p div 4096 = q div 4096" by (rule digit [OF eq(1)]) (use assms(1-4) in simp_all)
  moreover have "p div 256 mod 16 = q div 256 mod 16" by (rule digit [OF eq(2)]) simp_all
  moreover have "p div 16 mod 16 = q div 16 mod 16" by (rule digit [OF eq(3)]) simp_all
  moreover have "p mod 16 = q mod 16" by (rule digit [OF eq(4)]) simp_all
  moreover have "n = 4096 * (n div 4096) + 256 * (n div 256 mod 16) + 16 * (n div 16 mod 16) + n mod 16" for n :: int
    using div_twice [of n] mult_div_mod_eq [of 16 n] mult_div_mod_eq [of 16 "n div 16"] mult_div_mod_eq [of 16 "n div 256"]
    by linarith
  ultimately show "p = q" by metis
qed

lemma hex4_suffix: "has_suffix (a @ '':'' @ hex4 q) ('':'' @ hex4 p) \<longleftrightarrow> hex4 q = hex4 p"
proof -
  have "length ('':'' @ hex4 q) = length ('':'' @ hex4 p)" by (simp add: hex4_def)
  then show ?thesis unfolding has_suffix_def suffix_def by (metis append_eq_append_conv append.left_neutral append_eq_conv_conj same_append_eq)
qed

section \<open>Properties\<close>

text \<open>A socket as \<open>/proc/net/tcp\<close> lists it: the words of its line, of which three matter here.\<close>

record tcp_entry =
  te_slot :: string
  te_address :: string
  te_port :: int
  te_remote :: string
  te_state :: string
  te_rest :: "string list"

definition tcp_words :: "tcp_entry \<Rightarrow> string list" where
  "tcp_words e = [te_slot e, te_address e @ '':'' @ hex4 (te_port e), te_remote e, te_state e] @ te_rest e"

definition tcp_header :: string where
  "tcp_header = ''  sl  local_address rem_address   st tx_queue rx_queue tr tm->when retrnsmt   uid  timeout inode''"

definition tcp_table :: "tcp_entry list \<Rightarrow> string" where
  "tcp_table es = text_of (tcp_header # map (\<lambda>e. ''  '' @ join (tcp_words e) '' '') es)"

definition tcp_entry_ok :: "tcp_entry \<Rightarrow> bool" where
  "tcp_entry_ok e \<longleftrightarrow> (\<forall>w \<in> set (tcp_words e). word_like w) \<and> 0 \<le> te_port e \<and> te_port e < 65536"

lemma tcp_row_entry:
  assumes "tcp_entry_ok e" and "0 \<le> p" and "p < 65536"
  shows "tcp_row (hex4 p) state (''  '' @ join (tcp_words e) '' '') \<longleftrightarrow> te_port e = p \<and> te_state e = state"
proof -
  have "string_fields (replicate 2 (CHR '' '') @ join (tcp_words e) '' '') = tcp_words e"
    unfolding fields_indented by (rule fields_words) (use assms(1) in \<open>simp add: tcp_entry_ok_def\<close>)
  then have "string_fields (''  '' @ join (tcp_words e) '' '') = tcp_words e" by (simp add: numeral_eq_Suc)
  moreover have "hex4 (te_port e) = hex4 p \<longleftrightarrow> te_port e = p"
    using hex4_inj assms by (auto simp: tcp_entry_ok_def)
  ultimately show ?thesis using hex4_suffix [of "te_address e" "te_port e" p] by (auto simp: tcp_row_def tcp_words_def)
qed

lemma tcp_rows:
  assumes "\<forall>e \<in> set es. tcp_entry_ok e"
  shows "split_string (tcp_table es) (CHR 0x0A) = tcp_header # map (\<lambda>e. ''  '' @ join (tcp_words e) '' '') es @ [[]]"
proof -
  have "CHR 0x0A \<notin> set tcp_header" by (simp add: tcp_header_def)
  moreover have "CHR 0x0A \<notin> set (''  '' @ join (tcp_words e) '' '')" if "e \<in> set es" for e
    using assms that by (auto simp: tcp_entry_ok_def dest!: word_no_newline intro!: join_no_newline)
  ultimately show ?thesis
    using split_terminated [of "tcp_header # map (\<lambda>e. ''  '' @ join (tcp_words e) '' '') es" "CHR 0x0A"]
    unfolding tcp_table_def text_of_def nl_def by simp
qed

lemma no_row: "\<not> tcp_row needle state []" "\<not> tcp_row needle state tcp_header"
proof -
  show "\<not> tcp_row needle state []" by (simp add: tcp_row_def string_fields_def word_done_def)
  have "string_fields tcp_header = [''sl'', ''local_address'', ''rem_address'', ''st'', ''tx_queue'', ''rx_queue'',
      ''tr'', ''tm->when'', ''retrnsmt'', ''uid'', ''timeout'', ''inode'']" by code_simp
  moreover have "\<not> has_suffix ''local_address'' ('':'' @ needle)"
    unfolding has_suffix_def by (auto dest!: set_mono_suffix)
  ultimately show "\<not> tcp_row needle state tcp_header" by (simp add: tcp_row_def)
qed

definition bound_sockets :: "tcp_entry list \<Rightarrow> int \<Rightarrow> string \<Rightarrow> tcp_entry list" where
  "bound_sockets es port state = filter (\<lambda>e. te_port e = port \<and> te_state e = state) es"

lemma table_count:
  assumes "\<forall>e \<in> set es. tcp_entry_ok e" and "0 \<le> p" and "p < 65536"
  shows "length (filter (tcp_row (hex4 p) state) (split_string (tcp_table es) (CHR 0x0A))) = length (bound_sockets es p state)"
proof -
  have "filter (tcp_row (hex4 p) state) (map (\<lambda>e. ''  '' @ join (tcp_words e) '' '') es) =
      map (\<lambda>e. ''  '' @ join (tcp_words e) '' '') (bound_sockets es p state)"
    using tcp_row_entry [OF _ assms(2,3)] assms(1) unfolding bound_sockets_def filter_map
    by (intro arg_cong [of _ _ "map _"] filter_cong) (auto simp: comp_def)
  then show ?thesis unfolding tcp_rows [OF assms(1)] using no_row by simp
qed

text \<open>
  The sockets are counted exactly. Of a table as the kernel writes it, for IPv4 and for IPv6,
  the count is the number of sockets in the state asked for on that very port.
\<close>

theorem sockets_are_counted_exactly:
  assumes "\<forall>e \<in> set (four @ six). tcp_entry_ok e" and "0 \<le> p" and "p < 65536"
  shows "countTCP (Some (tcp_table four), Some (tcp_table six)) p state =
    Some (length (bound_sockets (four @ six) p state))"
  using table_count [of four p state] table_count [of six p state] assms port_needle_hex4 [OF assms(2,3)]
  by (simp add: countTCP_def bound_sockets_def)

lemma valid_service_ports:
  assumes "Validate c = None"
  shows "0 \<le> grbl_port (cg_grbl c) \<and> grbl_port (cg_grbl c) < 65536 \<and> 0 \<le> cam_port (cg_camera c) \<and> cam_port (cg_camera c) < 65536"
proof -
  have "grbl_problems (cg_grbl c) = []" "camera_problems (cg_camera c) = []"
    using assms by (simp_all add: Validate_iff problems_iff)
  then show ?thesis by (auto simp: grbl_problems_def camera_problems_def split: if_splits)
qed

definition reported :: "runner option \<Rightarrow> bool \<Rightarrow> bool \<Rightarrow> bool \<Rightarrow> string \<Rightarrow> bool" where
  \<comment> \<open>what the page says of a service, given what listens and whether the bridge may be called running\<close>
  "reported runs l u answering name \<longleftrightarrow>
     serviceRunning runs name
     \<and> (if name = ''ser2net'' then l else if name = ''laserbridged'' then l \<and> answering
        else if name = ''ustreamer'' then u else True)"

lemma service_states_some:
  assumes "listening files (grbl_port (cg_grbl c)) = Some l" and "listening files (cam_port (cg_camera c)) = Some u"
  shows "\<exists>states. service_states runs files answered c = Some states
    \<and> (\<forall>name. states name =
          (if name \<in> set status_services
           then Some (reported runs l u (grbl_backend (cg_grbl c) \<noteq> BackendLaserbridged \<or> answered \<noteq> Some False) name)
           else None))"
proof -
  have names: "''ser2net'' \<in> set status_services" "''laserbridged'' \<in> set status_services" "''ustreamer'' \<in> set status_services"
    by (simp_all add: status_services_def)
  have apart: "''laserbridged'' \<noteq> ''ser2net''" "''ustreamer'' \<noteq> ''ser2net''" "''ustreamer'' \<noteq> ''laserbridged''" by simp_all
  have "and_then a (Some b) = Some (a \<and> b)" for a b by (simp add: and_then_def)
  then show ?thesis
    unfolding service_states_def Let_def using assms names
    by (simp only: if_True option.sel option.case prod.case option.inject ex_simps simp_thms)
      (auto simp: reported_def apart fun_upd_def)
qed


theorem sockets_are_counted_exactly_witness:
  "countTCP (Some (tcp_table [\<lparr>te_slot = ''0:'', te_address = ''0100007F'', te_port = 5000, te_remote = ''00000000:0000'',
      te_state = ''0A'', te_rest = []\<rparr>]), Some (tcp_table [])) 5000 ''0A'' = Some 1"
proof -
  let ?e = "\<lparr>te_slot = ''0:'', te_address = ''0100007F'', te_port = 5000, te_remote = ''00000000:0000'',
      te_state = ''0A'', te_rest = []\<rparr>"
  have "\<forall>w \<in> set [''0:'', ''0100007F:1388'', ''00000000:0000'', ''0A'']. word_like w" by code_simp
  moreover have "hex4 5000 = ''1388''" by (simp add: hex4_def hex_char_def upper_def char_of_def bit_Suc_0_iff)
  ultimately have "\<forall>e \<in> set ([?e] @ []). tcp_entry_ok e" by (simp add: tcp_entry_ok_def tcp_words_def)
  from sockets_are_counted_exactly [OF this, of 5000 "''0A''"] show ?thesis by (simp add: bound_sockets_def)
qed


text \<open>
  Idle time may go backwards: the kernel's \<open>iowait\<close> does. The unsigned difference is then next
  to \<open>2 ^ 64\<close>, and the conversion to an integer is out of range.
\<close>

lemma idle_time_backwards: "cpuPercent (10, 100) (9, 200) = None"
  by code_simp

end
