(* ===== verification/Watchdog.thy ===== *)
theory Watchdog
  imports Api_Status
begin

text \<open>
  The hardware watchdog, \<open>backend/internal/runtime/watchdog.go\<close>: how often it is petted, and the
  loop that pets it until it is told to stop. The device, the driver's answer and the order of
  ticks and the end are arguments.
\<close>

section \<open>Arming\<close>

record watchdog =
  wd_path :: string
  wd_timeout :: duration

definition watchdog_path :: "watchdog \<Rightarrow> string" where
  "watchdog_path w = (if wd_path w \<noteq> [] then wd_path w else ''/dev/watchdog'')"

definition watchdog_timeout :: "watchdog \<Rightarrow> duration" where
  "watchdog_timeout w = (if 0 < wd_timeout w then wd_timeout w else 30 * second)"

text \<open>\<open>Duration.Seconds\<close>: whole seconds plus the rest divided by a billion, in floats.\<close>

definition duration_seconds :: "duration \<Rightarrow> float64" where
  "duration_seconds d =
     f_add (f_of_int (d div second)) (f_div (f_of_int (d mod second)) (f_of_int second))"

definition watchdog_seconds :: "watchdog \<Rightarrow> int option" where
  "watchdog_seconds w = to_int64 (duration_seconds (watchdog_timeout w))"

definition int32 :: "int \<Rightarrow> int" where
  "int32 i = (i + 2 ^ 31) mod 2 ^ 32 - 2 ^ 31"

text \<open>The driver is given 32 bits of seconds and writes back what it settled on, or refuses.\<close>

definition setWatchdogTimeout :: "(int \<Rightarrow> int option) \<Rightarrow> int \<Rightarrow> int option" where
  "setWatchdogTimeout driver seconds = map_option int32 (driver (int32 seconds))"

definition granted_seconds :: "(int \<Rightarrow> int option) \<Rightarrow> int \<Rightarrow> int" where
  "granted_seconds driver seconds =
     (case setWatchdogTimeout driver seconds of Some g \<Rightarrow> g | None \<Rightarrow> seconds)"

definition pet_interval :: "int \<Rightarrow> duration" where
  "pet_interval granted =
     (let interval = quot_zero (wrap64 (granted * second)) 3 in if interval < second then second else interval)"

section \<open>The loop\<close>

datatype watchdog_error = NoWatchdog string | DeviceError string | CloseFailed string

datatype watchdog_happening = TickCame | StopAsked

datatype watchdog_write = Pet | MagicClose | Closed

datatype watchdog_log =
    Unprotected string | TimeoutRefused | Armed string int duration | NotPetted string | NotDisarmed string | Disarmed

text \<open>What the device is given and what the log says, from the first tick on; \<open>None\<close> while it runs.\<close>

fun watchdog_loop ::
    "(nat \<Rightarrow> string option) \<Rightarrow> string option \<Rightarrow> nat \<Rightarrow> watchdog_happening list \<Rightarrow>
     watchdog_write list \<times> watchdog_log list \<times> watchdog_error option option" where
  "watchdog_loop fails close n [] = ([], [], None)"
| "watchdog_loop fails close n (TickCame # hs) =
     (case watchdog_loop fails close (Suc n) hs of
        (ws, ls, r) \<Rightarrow> (Pet # ws, (case fails n of None \<Rightarrow> ls | Some e \<Rightarrow> NotPetted e # ls), r))"
| "watchdog_loop fails close n (StopAsked # hs) =
     ([MagicClose, Closed],
      (case fails n of None \<Rightarrow> [] | Some e \<Rightarrow> [NotDisarmed e]) @ [Disarmed],
      Some (map_option CloseFailed close))"

record watchdog_world =
  ww_missing :: bool
  ww_open_error :: "string option"
  ww_protect_error :: "string option"
  ww_driver :: "int \<Rightarrow> int option"
  ww_write_error :: "nat \<Rightarrow> string option"
  ww_close_error :: "string option"

definition watchdog_Run ::
    "watchdog_world \<Rightarrow> watchdog \<Rightarrow> watchdog_happening list \<Rightarrow>
     (watchdog_write list \<times> watchdog_log list \<times> watchdog_error option option) option" where
  \<comment> \<open>nothing where the conversion of the timeout is out of range\<close>
  "watchdog_Run ww w hs =
     (if ww_missing ww then Some ([], [], Some (Some (NoWatchdog (watchdog_path w))))
      else
        (case ww_open_error ww of
           Some e \<Rightarrow> Some ([], [], Some (Some (DeviceError e)))
         | None \<Rightarrow>
             map_option (\<lambda>seconds.
               (let granted = granted_seconds (ww_driver ww) seconds
                in case watchdog_loop (ww_write_error ww) (ww_close_error ww) 0 hs of
                     (ws, ls, r) \<Rightarrow>
                       (ws,
                        (case ww_protect_error ww of None \<Rightarrow> [] | Some e \<Rightarrow> [Unprotected e])
                        @ (if setWatchdogTimeout (ww_driver ww) seconds = None then [TimeoutRefused] else [])
                        @ [Armed (watchdog_path w) granted (pet_interval granted)] @ ls, r)))
               (watchdog_seconds w)))"

section \<open>Facts\<close>

lemma loop_running:
  "StopAsked \<notin> set hs \<Longrightarrow>
   fst (watchdog_loop fails close n hs) = replicate (length hs) Pet \<and> snd (snd (watchdog_loop fails close n hs)) = None"
proof (induction hs arbitrary: n)
  case (Cons h hs)
  then have "h = TickCame" by (cases h) simp_all
  then show ?case
    using Cons.IH [of "Suc n"] Cons.prems by (cases "watchdog_loop fails close (Suc n) hs") simp
qed simp

lemma loop_stopped:
  "fst (watchdog_loop fails close n (replicate k TickCame @ StopAsked # hs)) = replicate k Pet @ [MagicClose, Closed]
   \<and> snd (snd (watchdog_loop fails close n (replicate k TickCame @ StopAsked # hs))) = Some (map_option CloseFailed close)"
proof (induction k arbitrary: n)
  case (Suc k)
  then show ?case
    using Suc.IH [of "Suc n"]
    by (cases "watchdog_loop fails close (Suc n) (replicate k TickCame @ StopAsked # hs)") simp
qed simp

lemma until_stopped:
  "\<exists>k. (hs = replicate k TickCame \<or> (\<exists>rest. hs = replicate k TickCame @ StopAsked # rest))"
proof (induction hs)
  case (Cons h hs)
  then obtain k where k: "hs = replicate k TickCame \<or> (\<exists>rest. hs = replicate k TickCame @ StopAsked # rest)" by blast
  show ?case
  proof (cases h)
    case TickCame
    then show ?thesis using k by (intro exI [of _ "Suc k"]) auto
  next
    case StopAsked
    then show ?thesis by (intro exI [of _ 0]) simp
  qed
qed (auto intro: exI [of _ 0])

lemma int32_range: "- (2 ^ 31) \<le> int32 i \<and> int32 i < 2 ^ 31"
  by (simp add: int32_def)

lemma granted_in_time:
  assumes "3 \<le> g" and "g < 2 ^ 31"
  shows "second \<le> pet_interval g \<and> 3 * pet_interval g \<le> g * second"
proof -
  have "wrap64 (g * second) = g * second" using assms by (intro wrap64_id) simp_all
  moreover have "quot_zero (g * second) 3 = g * second div 3" using assms by (simp add: quot_zero_def)
  ultimately show ?thesis using assms by (auto simp: pet_interval_def Let_def)
qed

text \<open>A driver that settles on one second leaves no margin: the pet comes when the time is up.\<close>

lemma no_margin_at_one_second: "pet_interval 1 = 1 * second"
  by (simp add: pet_interval_def wrap64_def quot_zero_def)

lemma watchdog_run_shape:
  assumes "watchdog_Run ww w hs = Some (ws, ls, r)" and "\<not> ww_missing ww" and "ww_open_error ww = None"
  obtains k g where "ws = replicate k Pet @ (if StopAsked \<in> set hs then [MagicClose, Closed] else [])"
    and "take k hs = replicate k TickCame" and "k = (if StopAsked \<in> set hs then length (takeWhile (\<lambda>h. h = TickCame) hs) else length hs)"
    and "r = None \<longleftrightarrow> StopAsked \<notin> set hs"
    and "Armed (watchdog_path w) g (pet_interval g) \<in> set ls"
    and "3 \<le> g \<and> g < 2 ^ 31 \<longrightarrow> second \<le> pet_interval g \<and> 3 * pet_interval g \<le> g * second"
proof -
  obtain seconds where "watchdog_seconds w = Some seconds" using assms by (auto simp: watchdog_Run_def)
  let ?g = "granted_seconds (ww_driver ww) seconds" and ?l = "watchdog_loop (ww_write_error ww) (ww_close_error ww) 0 hs"
  have run: "ws = fst ?l" "r = snd (snd ?l)" "Armed (watchdog_path w) ?g (pet_interval ?g) \<in> set ls"
    using assms \<open>watchdog_seconds w = Some seconds\<close>
    by (auto simp: watchdog_Run_def Let_def split: prod.splits)
  obtain k where "hs = replicate k TickCame \<or> (\<exists>rest. hs = replicate k TickCame @ StopAsked # rest)"
    using until_stopped by blast
  then show thesis
  proof (elim disjE exE)
    assume hs: "hs = replicate k TickCame"
    then have "StopAsked \<notin> set hs" by auto
    with hs show thesis
      using run loop_running [of hs] granted_in_time by (intro that [of k ?g]) simp_all
  next
    fix rest
    assume hs: "hs = replicate k TickCame @ StopAsked # rest"
    moreover from this have "takeWhile (\<lambda>h. h = TickCame) hs = replicate k TickCame" by (simp add: takeWhile_append)
    ultimately show thesis
      using run loop_stopped [of _ _ 0 k rest] granted_in_time by (intro that [of k ?g]) simp_all
  qed
qed

section \<open>Properties\<close>


definition demo_watchdog :: watchdog_world where
  "demo_watchdog =
     \<lparr>ww_missing = False, ww_open_error = None, ww_protect_error = None, ww_driver = Some,
      ww_write_error = (\<lambda>_. None), ww_close_error = None\<rparr>"


end
