(* ===== verification/Api_Grbl.thy ===== *)
theory Api_Grbl
  imports Api_Status Api_Guards
begin

text \<open>
  What the page asks of the bridge: \<open>backend/internal/api/grbl.go\<close> and the asking side of
  \<open>backend/internal/proxy/statussocket.go\<close>. A connection takes a line and gives an error or the
  text of the answer, and may leave the other side changed; the encoder and the decoders of
  \<open>encoding/json\<close> are arguments.
\<close>

section \<open>Asking\<close>

type_synonym 's link = "string \<Rightarrow> 's \<Rightarrow> 's \<times> (string + string)"

definition ask :: "'s link \<Rightarrow> (string \<Rightarrow> string + 'a) \<Rightarrow> string \<Rightarrow> 's \<Rightarrow> 's \<times> (string + 'a)" where
  "ask link decode command s =
     (case link (command @ nl) s of
        (s1, Inl e) \<Rightarrow> (s1, Inl e)
      | (s1, Inr t) \<Rightarrow> (s1, decode t))"

definition ReadStatus :: "'s link \<Rightarrow> (string \<Rightarrow> string + status) \<Rightarrow> 's \<Rightarrow> 's \<times> (string + status)" where
  "ReadStatus link decode = ask link decode ''status''"

definition SendCommand ::
    "'s link \<Rightarrow> (command_request \<Rightarrow> string + string) \<Rightarrow> (string \<Rightarrow> string + string) \<Rightarrow> command_request \<Rightarrow> 's \<Rightarrow> 's \<times> (string + string)" where
  \<comment> \<open>the answer is the text of its error, empty where there is none\<close>
  "SendCommand link encode decode rq s =
     (case encode rq of Inl e \<Rightarrow> (s, Inl e) | Inr body \<Rightarrow> ask link decode (''command '' @ body) s)"

definition ReadConsole :: "'s link \<Rightarrow> (string \<Rightarrow> string + console_view) \<Rightarrow> 64 word \<Rightarrow> 's \<Rightarrow> 's \<times> (string + console_view)" where
  "ReadConsole link decode after = ask link decode (''console '' @ itoa (uint after))"

definition ReadJournal :: "'s link \<Rightarrow> (string \<Rightarrow> string + event list) \<Rightarrow> int \<Rightarrow> 's \<Rightarrow> 's \<times> (string + event list)" where
  "ReadJournal link decode limit = ask link decode (''journal '' @ itoa limit)"

section \<open>The handlers\<close>

datatype 'a grbl_reply = NotRead int string | OtherBackend string | NoAnswer string | Answered 'a

definition grblStatus ::
    "'s link \<Rightarrow> (string \<Rightarrow> string + status) \<Rightarrow> store_error + config \<Rightarrow> 's \<Rightarrow> 's \<times> status grbl_reply" where
  "grblStatus link decode loaded s =
     (case loaded of
        Inl e \<Rightarrow> (s, NotRead 500 (store_error_text e))
      | Inr c \<Rightarrow>
          if grbl_backend (cg_grbl c) \<noteq> BackendLaserbridged then (s, OtherBackend (grbl_backend (cg_grbl c)))
          else (case ReadStatus link decode s of (s1, Inl e) \<Rightarrow> (s1, NoAnswer e) | (s1, Inr st) \<Rightarrow> (s1, Answered st)))"

definition journal_limit :: "string \<Rightarrow> int" where
  "journal_limit raw =
     (if raw = [] then 50
      else (case atoi raw of (n, None) \<Rightarrow> if 1 \<le> n \<and> n \<le> 200 then n else 50 | _ \<Rightarrow> 50))"

definition grblJournal ::
    "'s link \<Rightarrow> (string \<Rightarrow> string + event list) \<Rightarrow> string \<Rightarrow> store_error + config \<Rightarrow> 's \<Rightarrow> 's \<times> event list grbl_reply" where
  "grblJournal link decode raw loaded s =
     (case loaded of
        Inl e \<Rightarrow> (s, NotRead 500 (store_error_text e))
      | Inr c \<Rightarrow>
          if grbl_backend (cg_grbl c) \<noteq> BackendLaserbridged then (s, OtherBackend (grbl_backend (cg_grbl c)))
          else
            (case ReadJournal link decode (journal_limit raw) s of
               (s1, Inl e) \<Rightarrow> (s1, NoAnswer e) | (s1, Inr es) \<Rightarrow> (s1, Answered es)))"

definition console_after :: "string \<Rightarrow> 64 word" where
  "console_after raw =
     (if raw = [] then 0 else (case parse_uint raw of (n, None) \<Rightarrow> word_of_int n | _ \<Rightarrow> 0))"

definition grblConsole ::
    "'s link \<Rightarrow> (string \<Rightarrow> string + console_view) \<Rightarrow> string \<Rightarrow> store_error + config \<Rightarrow> 's \<Rightarrow> 's \<times> console_view grbl_reply" where
  "grblConsole link decode raw loaded s =
     (case loaded of
        Inl e \<Rightarrow> (s, NotRead 500 (store_error_text e))
      | Inr c \<Rightarrow>
          if grbl_backend (cg_grbl c) \<noteq> BackendLaserbridged then (s, OtherBackend (grbl_backend (cg_grbl c)))
          else
            (case ReadConsole link decode (console_after raw) s of
               (s1, Inl e) \<Rightarrow> (s1, NoAnswer e) | (s1, Inr view) \<Rightarrow> (s1, Answered view)))"

definition bridgeSocket :: "string \<Rightarrow> string" where
  "bridgeSocket configured = (if configured \<noteq> [] then configured else ''/run/laserbridge/laserbridged.sock'')"

section \<open>The daemon at the other end\<close>

definition daemon_link ::
    "(string \<Rightarrow> string) \<Rightarrow> (string \<Rightarrow> string + command_request) \<Rightarrow> nat option \<Rightarrow> (socket_reply \<Rightarrow> string) \<Rightarrow> bridge link" where
  "daemon_link quote decode uid encode line b =
     (case socket_answer quote decode uid line b of (b1, r) \<Rightarrow> (b1, Inr (encode r)))"

lemma journal_request:
  assumes "1 \<le> n" and "n \<le> 200"
  shows "request_word (''journal '' @ itoa n @ nl) = ''journal''
    \<and> request_number (\<lambda>s. fst (atoi s)) (''journal '' @ itoa n @ nl) = n"
proof -
  have "word_like ''journal''" by code_simp
  from two_words [OF this number_word [of n]] have "string_fields (''journal '' @ itoa n @ nl) = [''journal'', itoa n]"
    using assms by simp
  then show ?thesis using assms atoi_itoa [of n] by (simp add: request_word_def request_number_def)
qed

lemma console_request:
  fixes k :: "64 word"
  shows "request_word (''console '' @ itoa (uint k) @ nl) = ''console''
    \<and> request_number (\<lambda>s. fst (parse_uint s)) (''console '' @ itoa (uint k) @ nl) = uint k"
proof -
  have "word_like ''console''" by code_simp
  from two_words [OF this number_word [of "uint k"]]
  have "string_fields (''console '' @ itoa (uint k) @ nl) = [''console'', itoa (uint k)]" by simp
  moreover have "uint k < 2 ^ 64" using uint_bounded [of k] by simp
  ultimately show ?thesis using parse_uint_dec [of "uint k"] by (simp add: request_word_def request_number_def itoa_def)
qed

lemma command_request:
  "request_word (''command '' @ (''{'' @ m @ ''}'') @ nl) = ''command''"
  "trim_space (trim_prefix (trim_space (''command '' @ (''{'' @ m @ ''}'') @ nl)) ''command'') = ''{'' @ m @ ''}''"
proof -
  let ?t = "''{'' @ m @ ''}''"
  have "word_like ''command''" by code_simp
  from first_word [OF this, of "?t @ nl"] show "request_word (''command '' @ ?t @ nl) = ''command''"
    by (simp add: request_word_def)
  have solid: "solid (CHR ''c'')" "solid (CHR ''{'')" "solid (CHR ''}'')" by code_simp+
  have "trim_space (''command '' @ ?t) = ''command '' @ ?t" using solid by (intro trim_space_ends) simp_all
  then have "trim_space (''command '' @ ?t @ nl) = ''command '' @ ?t"
    using trim_space_line [of "''command '' @ ?t"] by simp
  moreover have "trim_prefix (''command '' @ ?t) ''command'' = CHR '' '' # ?t"
    using trim_prefix_append [of "''command''" "CHR '' '' # ?t"] by simp
  moreover have "trim_space (CHR '' '' # ?t) = ?t" using solid trim_space_ends [of ?t] by simp
  ultimately show "trim_space (trim_prefix (trim_space (''command '' @ ?t @ nl)) ''command'') = ?t" by simp
qed

lemma status_request: "request_word (''status'' @ nl) = ''status''"
  by code_simp

section \<open>Properties\<close>

definition command_outcome :: "(string \<Rightarrow> string) \<Rightarrow> control_error option \<Rightarrow> string" where
  "command_outcome quote e = (case e of None \<Rightarrow> [] | Some e \<Rightarrow> control_error_text quote e)"

text \<open>
  C22: the page hears the bridge. With the daemon at the other end of the socket, the status shown
  is the bridge's, the journal is its most recent events in the number asked for, the transcript
  is what the console hands out - and keeps recording for having been asked - and a command sent
  by root is carried out and its outcome reported. The encoding of these very answers is relied
  on to be read back.
\<close>

theorem page_hears_the_bridge:
  fixes b :: bridge and encode decode quoted_word raw rq
  defines "link \<equiv> daemon_link quoted_word decode (Some 0) encode"
  defines "journal \<equiv> Recent (journal_limit raw) (br_journal b)" and "seen \<equiv> bridge_Console (console_after raw) b"
    and "after_it \<equiv> Do rq b"
  assumes "grbl_backend (cg_grbl c) = BackendLaserbridged"
    and "as_status (encode (ReplyStatus (Status b))) = Inr (Status b)"
    and "as_journal (encode (ReplyJournal journal)) = Inr journal"
    and "as_console (encode (ReplyConsole (snd seen))) = Inr (snd seen)"
    and "as_outcome (encode (ReplyCommand (command_outcome quoted_word (snd after_it)))) = Inr (command_outcome quoted_word (snd after_it))"
    and "write_rq rq = Inr (''{'' @ m @ ''}'')" and "decode (''{'' @ m @ ''}'') = Inr rq"
  shows "grblStatus link as_status (Inr c) b = (b, Answered (Status b))
    \<and> grblJournal link as_journal raw (Inr c) b = (b, Answered journal)
    \<and> grblConsole link as_console raw (Inr c) b = (fst seen, Answered (snd seen))
    \<and> SendCommand link write_rq as_outcome rq b = (fst after_it, Inr (command_outcome quoted_word (snd after_it)))"
proof (intro conjI)
  have status: "link (''status'' @ nl) b = (b, Inr (encode (ReplyStatus (Status b))))"
    unfolding link_def daemon_link_def socket_answer_def Let_def status_request by simp
  then show "grblStatus link as_status (Inr c) b = (b, Answered (Status b))"
    using assms(5,6) by (simp add: grblStatus_def ReadStatus_def ask_def)
  have "1 \<le> journal_limit raw \<and> journal_limit raw \<le> 200"
    by (auto simp: journal_limit_def split: prod.splits option.splits)
  then have "link ((''journal '' @ itoa (journal_limit raw)) @ nl) b = (b, Inr (encode (ReplyJournal journal)))"
    using journal_request [of "journal_limit raw"]
    unfolding link_def daemon_link_def socket_answer_def Let_def journal_def append_assoc by simp
  then show "grblJournal link as_journal raw (Inr c) b = (b, Answered journal)"
    using assms(5,7) by (simp add: grblJournal_def ReadJournal_def ask_def)
  have "link ((''console '' @ itoa (uint (console_after raw))) @ nl) b = (fst seen, Inr (encode (ReplyConsole (snd seen))))"
    using console_request [of "console_after raw"]
    unfolding link_def daemon_link_def socket_answer_def Let_def seen_def append_assoc by (simp split: prod.split)
  then show "grblConsole link as_console raw (Inr c) b = (fst seen, Answered (snd seen))"
    using assms(5,8) by (simp add: grblConsole_def ReadConsole_def ask_def)
  have "link ((''command '' @ ''{'' @ m @ ''}'') @ nl) b = (fst after_it, Inr (encode (ReplyCommand (command_outcome quoted_word (snd after_it)))))"
    using command_request [of m] assms(11)
    unfolding link_def daemon_link_def socket_answer_def Let_def answer_command_def after_it_def append_assoc command_outcome_def
    by (simp split: prod.split option.split)
  then show "SendCommand link write_rq as_outcome rq b = (fst after_it, Inr (command_outcome quoted_word (snd after_it)))"
    using assms(9,10) by (simp add: SendCommand_def ask_def)
qed

text \<open>A bridge that has just been made, asked for what it holds and told to stop.\<close>

definition stop_request :: command_request where
  "stop_request =
     \<lparr>rq_command = CommandStop, rq_axis = [], rq_distance = f_zero, rq_feed = f_zero, rq_x = None, rq_y = None,
      rq_z = None, rq_percent = 0, rq_line = [], rq_holder = []\<rparr>"

definition bridged :: config where
  "bridged = Default\<lparr>cg_grbl := (cg_grbl Default)\<lparr>grbl_backend := BackendLaserbridged\<rparr>\<rparr>"

definition plain_encode :: "socket_reply \<Rightarrow> string" where
  "plain_encode r = (case r of ReplyJournal es \<Rightarrow> map (\<lambda>_. CHR ''e'') es | ReplyCommand e \<Rightarrow> e | _ \<Rightarrow> [])"

theorem page_hears_the_bridge_witness:
  "grblJournal (daemon_link id (\<lambda>_. Inr stop_request) (Some 0) plain_encode)
     (\<lambda>t. Inr (replicate (length t) blank_event)) ''20'' (Inr bridged) idle_bridge = (idle_bridge, Answered [])"
proof -
  have empty: "br_journal idle_bridge = NewJournal []" by (simp add: idle_bridge_def New_def)
  have journal: "Recent n (br_journal idle_bridge) = []" for n by (simp add: empty Recent_def NewJournal_def)
  show ?thesis
    using page_hears_the_bridge [where b = idle_bridge and c = bridged and raw = "''20''" and rq = stop_request
        and encode = plain_encode and decode = "\<lambda>_. Inr stop_request" and quoted_word = id
        and as_status = "\<lambda>_. Inr (Status idle_bridge)" and as_journal = "\<lambda>t. Inr (replicate (length t) blank_event)"
        and as_console = "\<lambda>_. Inr (snd (bridge_Console (console_after ''20'') idle_bridge))" and as_outcome = Inr
        and write_rq = "\<lambda>_. Inr (''{'' @ [] @ ''}'')" and m = "[]"]
    by (simp add: bridged_def plain_encode_def journal)
qed

end
