(* ===== verification/Commands.thy ===== *)
theory Commands
  imports First_Boot Watchdog Api_Grbl Bridge_Watch
begin

text \<open>
  The two programs as they are started: \<open>backend/cmd/laserbridge/main.go\<close>, whose first word says
  what it does, and \<open>backend/cmd/laserbridged/main.go\<close>. The environment, the answers of the
  operating system and of the other programs are arguments; a command is a function of what the
  appliance holds. Sockets, signals and the printing of JSON are left to the arguments too.
\<close>

section \<open>The environment\<close>

definition getenv :: "(string \<Rightarrow> string) \<Rightarrow> string \<Rightarrow> string \<Rightarrow> string" where
  "getenv env key fallback = (if env key \<noteq> [] then env key else fallback)"

definition data_dir :: "(string \<Rightarrow> string) \<Rightarrow> string" where
  "data_dir env = getenv env ''LASERBRIDGE_DATA'' ''/data''"

definition config_path :: "(string \<Rightarrow> string) \<Rightarrow> string" where
  \<comment> \<open>\<open>filepath.Join\<close> with a directory that is absolute\<close>
  "config_path env = getenv env ''LASERBRIDGE_CONFIG'' (clean_rooted (data_dir env @ ''/config.yaml''))"

definition socket_path :: "(string \<Rightarrow> string) \<Rightarrow> string" where
  "socket_path env = getenv env ''LASERBRIDGE_BRIDGE_SOCKET'' ''/run/laserbridge/laserbridged.sock''"

definition NewStore :: "string \<Rightarrow> store" where
  "NewStore path = \<lparr>so_path = path, so_notes = []\<rparr>"

section \<open>What a command finds\<close>

record 's command_world =
  cw_env :: "string \<Rightarrow> string"
  cw_root :: bool
  cw_os :: os_answers
  cw_usb :: usb_answers
  cw_runner :: runner
  cw_boot :: boot_world
  cw_formats :: "string option"
  cw_targets :: bool
  cw_fault :: "(nat \<times> string) option"
  cw_watchdog :: watchdog_world
  cw_signals :: "watchdog_happening list"
  cw_link :: "string \<Rightarrow> 's link"
  cw_status :: "string \<Rightarrow> string + status"
  cw_events :: "string \<Rightarrow> string + event list"
  cw_show_status :: "status \<Rightarrow> string + string"
  cw_show_events :: "event list \<Rightarrow> string + string"

type_synonym 's machine_room = "appliance \<times> flash \<times> 's"

record serve_plan =
  sp_listen :: string
  sp_web_root :: string
  sp_quarantined :: string
  sp_notes :: "store_note list"
  sp_manager :: manager
  sp_watch :: "bridge_watch option"

datatype command_error =
    NoCommand | NoBackendNamed | StoreRefused store_error | BootRefused boot_error | ApplyRefused apply_error
  | UpdateRefused update_error | WatchdogRefused watchdog_error | DaemonRefused string
  | NotThisBackend string string | SSHDisabled | NeedsValue string | UnknownArgument string | UnknownCommand string

datatype command_result =
    Completed | BecameProgram "string list" | Printed string | Holding | Serving serve_plan | Refused command_error

definition command_manager :: "'s command_world \<Rightarrow> manager" where
  "command_manager w =
     \<lparr>mg_dir = getenv (cw_env w) ''LASERBRIDGE_RUNTIME'' ''/run/laserbridge'', mg_data = data_dir (cw_env w),
      mg_os = cw_os w, mg_usb = cw_usb w, mg_runner = Some (cw_runner w)\<rparr>"

definition ended :: "('e \<Rightarrow> command_error) \<Rightarrow> 'e option \<Rightarrow> command_result" where
  "ended f e = (case e of None \<Rightarrow> Completed | Some x \<Rightarrow> Refused (f x))"

definition printed :: "string + string \<Rightarrow> command_result" where
  "printed t = (case t of Inl e \<Rightarrow> Refused (DaemonRefused e) | Inr x \<Rightarrow> Printed x)"

definition command_load :: "'s command_world \<Rightarrow> appliance \<Rightarrow> store_error + config" where
  "command_load w a = Load (cw_os w) (NewStore (config_path (cw_env w)), ap_files a)"

section \<open>The commands\<close>

definition grbl_backend_command :: "store_error + config \<Rightarrow> string list \<Rightarrow> command_result" where
  "grbl_backend_command loaded args =
     (case args of
        [] \<Rightarrow> Refused NoBackendNamed
      | b # _ \<Rightarrow>
          (case loaded of
             Inl e \<Rightarrow> Refused (StoreRefused e)
           | Inr c \<Rightarrow>
               if grbl_backend (cg_grbl c) \<noteq> b then Refused (NotThisBackend (grbl_backend (cg_grbl c)) b)
               else Completed))"

definition ssh_enabled_command :: "store_error + config \<Rightarrow> command_result" where
  "ssh_enabled_command loaded =
     (case loaded of
        Inl e \<Rightarrow> Refused (StoreRefused e)
      | Inr c \<Rightarrow> if \<not> ssh_enabled (cg_ssh c) then Refused SSHDisabled else Completed)"

definition watchdog_command :: "'s command_world \<Rightarrow> command_result option" where
  "watchdog_command w =
     map_option (\<lambda>(_, _, r). case r of None \<Rightarrow> Holding | Some e \<Rightarrow> ended WatchdogRefused e)
       (watchdog_Run (cw_watchdog w) \<lparr>wd_path = [], wd_timeout = 0\<rparr> (cw_signals w))"

definition grbl_status_command :: "'s command_world \<Rightarrow> 's \<Rightarrow> 's \<times> command_result" where
  "grbl_status_command w s =
     (case ReadStatus (cw_link w (socket_path (cw_env w))) (cw_status w) s of
        (s1, Inl e) \<Rightarrow> (s1, Refused (DaemonRefused e))
      | (s1, Inr st) \<Rightarrow> (s1, printed (cw_show_status w st)))"

definition grbl_journal_command :: "'s command_world \<Rightarrow> 's \<Rightarrow> 's \<times> command_result" where
  "grbl_journal_command w s =
     (case ReadJournal (cw_link w (socket_path (cw_env w))) (cw_events w) 0 s of
        (s1, Inl e) \<Rightarrow> (s1, Refused (DaemonRefused e))
      | (s1, Inr es) \<Rightarrow> (s1, printed (cw_show_events w es)))"

fun serve_args :: "string list \<Rightarrow> string \<times> string \<Rightarrow> command_error + string \<times> string" where
  "serve_args [] found = Inr found"
| "serve_args (arg # rest) found =
     (if arg = ''--listen'' then
        (case rest of [] \<Rightarrow> Inl (NeedsValue arg) | v # rest' \<Rightarrow> serve_args rest' (v, snd found))
      else if arg = ''--web-root'' then
        (case rest of [] \<Rightarrow> Inl (NeedsValue arg) | v # rest' \<Rightarrow> serve_args rest' (fst found, v))
      else Inl (UnknownArgument arg))"

text \<open>\<open>serve\<close>: without root there is nobody to run commands, and no watch on the bridge.\<close>

definition serve_plan_of :: "'s command_world \<Rightarrow> string \<times> string \<Rightarrow> string \<Rightarrow> store_note list \<Rightarrow> serve_plan" where
  "serve_plan_of w found quarantined notes =
     \<lparr>sp_listen = fst found, sp_web_root = clean_rooted (snd found), sp_quarantined = quarantined, sp_notes = notes,
      sp_manager = (if cw_root w then command_manager w else (command_manager w)\<lparr>mg_runner := None\<rparr>),
      sp_watch = (if cw_root w then Some \<lparr>bw_interval = 0, bw_failures = 0, bw_cooldown = 0\<rparr> else None)\<rparr>"

definition serve_command :: "'s command_world \<Rightarrow> string list \<Rightarrow> appliance \<Rightarrow> appliance \<times> command_result" where
  "serve_command w args a =
     (case serve_args args ('':80'', ''/usr/share/laserbridge/web'') of
        Inl e \<Rightarrow> (a, Refused e)
      | Inr found \<Rightarrow>
          (case Ensure (bt_printable (cw_boot w)) (cw_os w) (NewStore (config_path (cw_env w)), ap_files a) of
             ((st, fs), quarantined, e) \<Rightarrow>
               (a\<lparr>ap_store := st, ap_files := fs\<rparr>,
                (case e of
                   Some x \<Rightarrow> Refused (StoreRefused x)
                 | None \<Rightarrow> Serving (serve_plan_of w found quarantined (Notes st))))))"

text \<open>The first word. Nothing is said where the watchdog's timeout is out of range.\<close>

definition laserbridge :: "'s command_world \<Rightarrow> string list \<Rightarrow> 's machine_room \<Rightarrow> 's machine_room \<times> command_result option" where
  "laserbridge w args m =
     (case (args, m) of
        ([], _) \<Rightarrow> (m, Some (Refused NoCommand))
      | (command # rest, a, f, s) \<Rightarrow>
          (let a0 = a\<lparr>ap_store := NewStore (config_path (cw_env w))\<rparr>; mg = command_manager w in
           if command = ''init'' then
             (case InitData mg (cw_boot w) a0 of (a1, e) \<Rightarrow> ((a1, f, s), Some (ended BootRefused e)))
           else if command = ''apply'' then
             (case Apply mg a0 of (a1, e) \<Rightarrow> ((a1, f, s), Some (ended ApplyRefused e)))
           else if command = ''run-ustreamer'' then
             (m, Some (case RunUstreamer (command_load w a) (Some (cw_formats w)) of
                         Inl e \<Rightarrow> Refused (StoreRefused e) | Inr argv \<Rightarrow> BecameProgram argv))
           else if command = ''boot-confirm'' then
             (case ConfirmBoot (cw_targets w) (cw_fault w) f of (f1, e) \<Rightarrow> ((a, f1, s), Some (ended UpdateRefused e)))
           else if command = ''watchdog'' then (m, watchdog_command w)
           else if command = ''grbl-status'' then
             (case grbl_status_command w s of (s1, r) \<Rightarrow> ((a, f, s1), Some r))
           else if command = ''grbl-journal'' then
             (case grbl_journal_command w s of (s1, r) \<Rightarrow> ((a, f, s1), Some r))
           else if command = ''grbl-backend'' then (m, Some (grbl_backend_command (command_load w a) rest))
           else if command = ''ssh-enabled'' then (m, Some (ssh_enabled_command (command_load w a)))
           else if command = ''serve'' then
             (case serve_command w rest a of (a1, r) \<Rightarrow> ((a1, f, s), Some r))
           else (m, Some (Refused (UnknownCommand command)))))"

section \<open>The daemon\<close>

definition daemon_config :: "string \<Rightarrow> config \<Rightarrow> bridge_config" where
  "daemon_config data c =
     (let g = cg_grbl c in
      \<lparr>cf_device = grbl_device g, cf_baudrate = grbl_baudrate g, cf_port = grbl_port g,
       cf_kick_old_client = grbl_kick_old_user g, cf_device_retry = 0, cf_on_disconnect = grbl_on_disconnect g,
       cf_hold_settle = 0, cf_probe_identify = 0, cf_beam_confirm = 0, cf_silence_after = 0,
       cf_client_write_timeout = 0, cf_journal_path = clean_rooted (data @ ''/laserbridge/bridge-journal.log''),
       cf_monitor_port = grbl_monitor_port g, cf_beam_grace = 0,
       cf_stationary_beam = wrap64 (grbl_stationary_beam g * second), cf_idle_poll = 0\<rparr>)"

definition laserbridged :: "'s command_world \<Rightarrow> instant \<Rightarrow> appliance \<Rightarrow> store_error + string \<times> bridge" where
  "laserbridged w now a =
     map_sum id (\<lambda>c. (socket_path (cw_env w), New (daemon_config (data_dir (cw_env w)) c) now)) (command_load w a)"

section \<open>One command at a time\<close>

lemma init_run:
  "laserbridge w [''init''] (a, f, s) =
     (case InitData (command_manager w) (cw_boot w) (a\<lparr>ap_store := NewStore (config_path (cw_env w))\<rparr>) of
        (a1, e) \<Rightarrow> ((a1, f, s), Some (ended BootRefused e)))"
  by (simp add: laserbridge_def Let_def)

lemma grbl_backend_run:
  "laserbridge w (''grbl-backend'' # rest) (a, f, s) = ((a, f, s), Some (grbl_backend_command (command_load w a) rest))"
  by (simp add: laserbridge_def Let_def)

lemma ssh_enabled_run:
  "laserbridge w [''ssh-enabled''] (a, f, s) = ((a, f, s), Some (ssh_enabled_command (command_load w a)))"
  by (simp add: laserbridge_def Let_def)

lemma ustreamer_run:
  "laserbridge w [''run-ustreamer''] (a, f, s) =
     ((a, f, s), Some (case RunUstreamer (command_load w a) (Some (cw_formats w)) of
                         Inl e \<Rightarrow> Refused (StoreRefused e) | Inr argv \<Rightarrow> BecameProgram argv))"
  by (simp add: laserbridge_def Let_def)

lemma loaded_valid: "command_load w a = Inr c \<Longrightarrow> Validate c = None"
  by (auto simp: command_load_def Load_def ParseYAML_def split: option.splits sum.splits if_splits prod.splits)

lemma valid_bridge:
  assumes "Validate c = None"
  shows "grbl_backend (cg_grbl c) \<in> {''ser2net'', ''laserbridged''}"
    and "grbl_on_disconnect (cg_grbl c) \<noteq> []"
    and "0 \<le> grbl_stationary_beam (cg_grbl c)" and "grbl_stationary_beam (cg_grbl c) \<le> 600"
  using assms
  by (auto simp: Validate_iff problems_iff grbl_problems_def BackendSer2net_def BackendLaserbridged_def
      OnDisconnectNone_def OnDisconnectHold_def OnDisconnectReset_def split: if_splits)

lemma daemon_in_force:
  fixes now data
  assumes "Validate c = None"
  defines "k \<equiv> br_config (New (daemon_config data c) now)" and "g \<equiv> cg_grbl c"
  shows "cf_device k = grbl_device g \<and> cf_baudrate k = grbl_baudrate g \<and> cf_port k = grbl_port g
    \<and> cf_kick_old_client k = grbl_kick_old_user g \<and> cf_on_disconnect k = grbl_on_disconnect g
    \<and> cf_monitor_port k = grbl_monitor_port g \<and> cf_stationary_beam k = grbl_stationary_beam g * second"
proof -
  have "wrap64 (grbl_stationary_beam g * second) = grbl_stationary_beam g * second"
    using valid_bridge(3,4) [OF assms(1)] by (intro wrap64_id) (simp_all add: g_def)
  then show ?thesis
    using valid_bridge(2,3) [OF assms(1)] by (simp add: k_def g_def New_def with_defaults_def daemon_config_def Let_def)
qed

lemma boot_loads:
  assumes "laserbridge w [''init''] (a, f, s) = ((a', f', s'), Some Completed)"
    and "apart (command_manager w) (NewStore (config_path (cw_env w)))"
  obtains c where "command_load w a' = Inr c" and "in_force (command_manager w) a' c"
proof -
  let ?mg = "command_manager w" and ?a = "a\<lparr>ap_store := NewStore (config_path (cw_env w))\<rparr>"
  have init: "InitData ?mg (cw_boot w) ?a = (a', None)"
    using assms(1) by (auto simp: init_run ended_def split: prod.splits option.splits)
  obtain c where c: "Load (mg_os ?mg) (ap_store a', ap_files a') = Inr c" "in_force ?mg a' c"
    using boot_applies [OF init] assms(2) by auto
  have "so_path (ap_store a') = so_path (ap_store ?a)"
    using init path_kept [of "boot_steps ?mg (cw_boot w)" ?mg "cw_boot w" ?a] by (simp add: InitData_def)
  then have "Load (cw_os w) (NewStore (config_path (cw_env w)), ap_files a') = Load (cw_os w) (ap_store a', ap_files a')"
    by (intro Load_cong) (simp add: NewStore_def)
  then show thesis using c that by (simp add: command_load_def command_manager_def)
qed

section \<open>Properties\<close>

text \<open>
  C12: after a boot every program runs on the one configuration that is stored. Once
  \<open>laserbridge init\<close> went through, the files for the other services are those of a valid
  configuration; exactly the bridge it names is let start, the SSH server exactly if it is
  enabled, the camera is started on its device and port, and the daemon bridges its device and port, at its rate,
  and does on a disconnect, and about a beam that stands still, what it says.
\<close>

theorem one_configuration_after_boot:
  assumes "laserbridge w [''init''] (a, f, s) = ((a', f', s'), Some Completed)"
    and "apart (command_manager w) (NewStore (config_path (cw_env w)))"
  shows "\<exists>c. Validate c = None \<and> in_force (command_manager w) a' c
    \<and> {b. snd (laserbridge w [''grbl-backend'', b] (a', f', s')) = Some Completed} = {grbl_backend (cg_grbl c)}
    \<and> grbl_backend (cg_grbl c) \<in> {''ser2net'', ''laserbridged''}
    \<and> (snd (laserbridge w [''ssh-enabled''] (a', f', s')) = Some Completed \<longleftrightarrow> ssh_enabled (cg_ssh c))
    \<and> (\<exists>argv. snd (laserbridge w [''run-ustreamer''] (a', f', s')) = Some (BecameProgram argv)
          \<and> {''--device='' @ cam_device (cg_camera c), ''--port='' @ itoa (cam_port (cg_camera c))} \<subseteq> set argv)
    \<and> (\<exists>b. laserbridged w now a' = Inr (socket_path (cw_env w), b)
          \<and> cf_device (br_config b) = grbl_device (cg_grbl c) \<and> cf_baudrate (br_config b) = grbl_baudrate (cg_grbl c)
          \<and> cf_port (br_config b) = grbl_port (cg_grbl c)
          \<and> cf_on_disconnect (br_config b) = grbl_on_disconnect (cg_grbl c)
          \<and> cf_stationary_beam (br_config b) = grbl_stationary_beam (cg_grbl c) * second)"
proof -
  obtain c where c: "command_load w a' = Inr c" "in_force (command_manager w) a' c"
    using boot_loads [OF assms] .
  have valid: "Validate c = None" using c(1) by (rule loaded_valid)
  have "snd (laserbridge w [''grbl-backend'', b] (a', f', s')) = Some Completed \<longleftrightarrow> b = grbl_backend (cg_grbl c)" for b
    by (auto simp: grbl_backend_run c(1) grbl_backend_command_def)
  moreover have "snd (laserbridge w [''ssh-enabled''] (a', f', s')) = Some Completed \<longleftrightarrow> ssh_enabled (cg_ssh c)"
    by (simp add: ssh_enabled_run c(1) ssh_enabled_command_def)
  moreover have "\<exists>argv. snd (laserbridge w [''run-ustreamer''] (a', f', s')) = Some (BecameProgram argv)
      \<and> {''--device='' @ cam_device (cg_camera c), ''--port='' @ itoa (cam_port (cg_camera c))} \<subseteq> set argv"
    by (simp add: ustreamer_run c(1) RunUstreamer_def UstreamerArgs_def Let_def)
  moreover have "laserbridged w now a' =
      Inr (socket_path (cw_env w), New (daemon_config (data_dir (cw_env w)) c) now)"
    by (simp add: laserbridged_def c(1))
  ultimately show ?thesis
    using valid c(2) valid_bridge(1) [OF valid] daemon_in_force [OF valid] by (intro exI [of _ c]) simp
qed

section \<open>A boot\<close>

definition plain_world :: "unit command_world" where
  "plain_world =
     \<lparr>cw_env = (\<lambda>_. []), cw_root = True, cw_os = quiet_os, cw_usb = usb_plain, cw_runner = (\<lambda>_. None),
      cw_boot = plain_boot, cw_formats = None, cw_targets = False, cw_fault = None, cw_watchdog = demo_watchdog,
      cw_signals = [], cw_link = (\<lambda>_ _ s. (s, Inl ''refused'')), cw_status = (\<lambda>_. Inl ''none''),
      cw_events = (\<lambda>_. Inl ''none''), cw_show_status = (\<lambda>_. Inl ''none''), cw_show_events = (\<lambda>_. Inl ''none'')\<rparr>"

lemma plain_world_manager: "command_manager plain_world = plain_manager"
  by (simp add: command_manager_def plain_world_def plain_manager_def getenv_def data_dir_def)

lemma plain_config_path: "config_path (cw_env plain_world) = ''/data/config.yaml''"
proof -
  have "clean_rooted ''/data/config.yaml'' = ''/data/config.yaml''" by code_simp
  then show ?thesis by (simp add: config_path_def data_dir_def getenv_def plain_world_def)
qed

theorem one_configuration_after_boot_witness:
  "\<forall>f. \<exists>data a' b. laserbridge plain_world [''init''] (new_appliance data, f, ()) = ((a', f, ()), Some Completed)
     \<and> snd (laserbridge plain_world [''grbl-backend'', b] (a', f, ())) = Some Completed"
proof (intro allI)
  fix f
  obtain data where data: "ParseYAML data = Inr (Default, [])"
    using Default_storable written_config_read unfolding storable_def by blast
  have path: "config_path (cw_env plain_world) = ''/data/config.yaml''" by (rule plain_config_path)
  have same: "(new_appliance data)\<lparr>ap_store := NewStore ''/data/config.yaml''\<rparr> = new_appliance data"
    by (simp add: new_appliance_def appliance_with_def NewStore_def)
  obtain a' where "InitData plain_manager plain_boot (new_appliance data) = (a', None)"
    using new_appliance_boots [OF data] by blast
  then have run: "laserbridge plain_world [''init''] (new_appliance data, f, ()) = ((a', f, ()), Some Completed)"
    using same path by (simp add: init_run plain_world_manager ended_def) (simp add: plain_world_def)
  have "ap_store (new_appliance data) = NewStore ''/data/config.yaml''"
    by (simp add: new_appliance_def appliance_with_def NewStore_def)
  then have "apart (command_manager plain_world) (NewStore (config_path (cw_env plain_world)))"
    using plain_apart [of data] path by (simp add: plain_world_manager new_appliance_def)
  from one_configuration_after_boot [OF run this, where now = 0]
  have "{b. snd (laserbridge plain_world [''grbl-backend'', b] (a', f, ())) = Some Completed} \<noteq> {}"
    by (elim exE conjE) (simp only: insert_not_empty not_False_eq_True)
  with run show "\<exists>data a' b. laserbridge plain_world [''init''] (new_appliance data, f, ()) = ((a', f, ()), Some Completed)
     \<and> snd (laserbridge plain_world [''grbl-backend'', b] (a', f, ())) = Some Completed" by blast
qed

end
