(* ===== verification/Serial_Port.thy ===== *)
theory Serial_Port
  imports Api_Devices
begin

unbundle bit_operations_syntax

text \<open>
  \<open>backend/internal/serial/serial.go\<close>: how the port of the controller is found and set up. The
  settings of a line are words of 32 bits, as the kernel keeps them; the constants of the package
  \<open>syscall\<close> are those of Linux. What the kernel answers is an argument.
\<close>

section \<open>The settings of a line\<close>

record termios2 =
  ti_iflag :: "32 word"
  ti_oflag :: "32 word"
  ti_cflag :: "32 word"
  ti_lflag :: "32 word"
  ti_line :: "8 word"
  ti_cc :: "8 word list"
  ti_ispeed :: "32 word"
  ti_ospeed :: "32 word"

definition bother :: "32 word" where "bother = 0x1000"
definition cbaud :: "32 word" where "cbaud = 0x100f"
definition crtscts :: "32 word" where "crtscts = 0x80000000"

definition input_translations :: "32 word" where
  \<comment> \<open>\<open>IGNBRK\<close>, \<open>BRKINT\<close>, \<open>PARMRK\<close>, \<open>ISTRIP\<close>, \<open>INLCR\<close>, \<open>IGNCR\<close>, \<open>ICRNL\<close>, \<open>IXON\<close>, \<open>IXOFF\<close>, \<open>IXANY\<close>\<close>
  "input_translations = 0x1 OR 0x2 OR 0x8 OR 0x20 OR 0x40 OR 0x80 OR 0x100 OR 0x400 OR 0x1000 OR 0x800"

definition OPOST :: "32 word" where "OPOST = 0x1"

definition line_editing :: "32 word" where
  \<comment> \<open>\<open>ECHO\<close>, \<open>ECHONL\<close>, \<open>ICANON\<close>, \<open>ISIG\<close>, \<open>IEXTEN\<close>\<close>
  "line_editing = 0x8 OR 0x40 OR 0x2 OR 0x1 OR 0x8000"

definition CSIZE :: "32 word" where "CSIZE = 0x30"
definition PARENB :: "32 word" where "PARENB = 0x100"
definition CSTOPB :: "32 word" where "CSTOPB = 0x40"
definition CS8 :: "32 word" where "CS8 = 0x30"
definition CLOCAL :: "32 word" where "CLOCAL = 0x800"
definition CREAD :: "32 word" where "CREAD = 0x80"
definition HUPCL :: "32 word" where "HUPCL = 0x400"
definition VTIME :: nat where "VTIME = 5"
definition VMIN :: nat where "VMIN = 6"

definition raw_settings :: "int \<Rightarrow> termios2 \<Rightarrow> termios2" where
  "raw_settings baud t =
     (let c1 = ti_cflag t AND NOT (CSIZE OR PARENB OR CSTOPB OR crtscts);
          c2 = c1 OR (CS8 OR CLOCAL OR CREAD);
          c3 = c2 AND NOT HUPCL;
          c4 = c3 AND NOT cbaud;
          c5 = c4 OR bother
      in t\<lparr>ti_iflag := ti_iflag t AND NOT input_translations,
           ti_oflag := ti_oflag t AND NOT OPOST,
           ti_lflag := ti_lflag t AND NOT line_editing,
           ti_cflag := c5,
           ti_ispeed := word_of_int baud,
           ti_ospeed := word_of_int baud,
           ti_cc := (ti_cc t)[VMIN := 1, VTIME := 0]\<rparr>)"

section \<open>Opening\<close>

text \<open>The lines as the kernel has them, and its refusals.\<close>

record tty_world =
  tw_open :: "string \<Rightarrow> string option"
  tw_get :: "string \<Rightarrow> string option"
  tw_set :: "string \<Rightarrow> termios2 \<Rightarrow> string option"

type_synonym lines_set_up = "string \<Rightarrow> termios2"

datatype serial_error =
    InvalidBaudRate int | PortNotOpened string string | SettingsNotRead string string | SettingsNotApplied string string

definition configure_line :: "tty_world \<Rightarrow> string \<Rightarrow> int \<Rightarrow> lines_set_up \<Rightarrow> lines_set_up \<times> serial_error option" where
  "configure_line tw device baud ls =
     (case tw_get tw device of
        Some e \<Rightarrow> (ls, Some (SettingsNotRead device e))
      | None \<Rightarrow>
          (let t = raw_settings baud (ls device)
           in case tw_set tw device t of
                Some e \<Rightarrow> (ls, Some (SettingsNotApplied device e))
              | None \<Rightarrow> (ls(device := t), None)))"

definition Open :: "tty_world \<Rightarrow> string \<Rightarrow> int \<Rightarrow> lines_set_up \<Rightarrow> lines_set_up \<times> (serial_error + string)" where
  "Open tw device baud ls =
     (if baud \<le> 0 then (ls, Inl (InvalidBaudRate baud))
      else
        (case tw_open tw device of
           Some e \<Rightarrow> (ls, Inl (PortNotOpened device e))
         | None \<Rightarrow>
             (case configure_line tw device baud ls of
                (ls1, Some e) \<Rightarrow> (ls1, Inl e)
              | (ls1, None) \<Rightarrow> (ls1, Inr device))))"

section \<open>Finding the port\<close>

definition Resolve :: "(string \<Rightarrow> string option) \<Rightarrow> string list option \<Rightarrow> string \<Rightarrow> string" where
  \<comment> \<open>where a link leads, and the names under \<open>by-id\<close>\<close>
  "Resolve leads links device =
     (if has_prefix device ''/dev/serial/by-id/'' then device
      else
        (case (leads device, links) of
           (Some target, Some ls) \<Rightarrow>
             (case find (\<lambda>l. leads l = Some target) ls of Some l \<Rightarrow> l | None \<Rightarrow> device)
         | _ \<Rightarrow> device))"

definition open_configured ::
    "tty_world \<Rightarrow> (string \<Rightarrow> string option) \<Rightarrow> string list option \<Rightarrow> config \<Rightarrow> lines_set_up \<Rightarrow>
     lines_set_up \<times> (serial_error + string)" where
  \<comment> \<open>the attempt of \<open>Bridge.openPort\<close>\<close>
  "open_configured tw leads links c ls =
     Open tw (Resolve leads links (grbl_device (cg_grbl c))) (grbl_baudrate (cg_grbl c)) ls"

section \<open>Bits\<close>

lemma cleared [simp]: "((x :: 32 word) AND NOT m) AND m = 0"
  by (rule bit_eqI) (auto simp: bit_simps)

lemma others_kept [simp]: "((x :: 32 word) AND NOT m) AND NOT m = x AND NOT m"
  by (rule bit_eqI) (auto simp: bit_simps)

definition control_cleared :: "32 word" where
  "control_cleared = CSIZE OR PARENB OR CSTOPB OR crtscts OR HUPCL OR cbaud"

definition control_set :: "32 word" where
  "control_set = CS8 OR CLOCAL OR CREAD OR bother"

lemmas control_bits =
  CSIZE_def PARENB_def CSTOPB_def crtscts_def CS8_def CLOCAL_def CREAD_def HUPCL_def cbaud_def bother_def

lemma control_flags:
  "ti_cflag (raw_settings baud t) = (ti_cflag t AND NOT control_cleared) OR control_set"
proof -
  have a: "NOT HUPCL AND NOT cbaud AND (CS8 OR CLOCAL OR CREAD) = CS8 OR CLOCAL OR CREAD"
    by (simp add: control_bits)
  have "ti_cflag (raw_settings baud t) =
      (ti_cflag t AND NOT (CSIZE OR PARENB OR CSTOPB OR crtscts) AND NOT HUPCL AND NOT cbaud)
      OR (NOT HUPCL AND NOT cbaud AND (CS8 OR CLOCAL OR CREAD)) OR bother"
    unfolding raw_settings_def Let_def by (rule bit_eqI) (auto simp: bit_simps)
  also have "\<dots> = (ti_cflag t AND NOT control_cleared) OR control_set"
    unfolding a unfolding control_cleared_def control_set_def by (rule bit_eqI) (auto simp: bit_simps)
  finally show ?thesis .
qed

lemma control_flag:
  assumes "m AND NOT control_cleared AND NOT control_set = 0"
  shows "ti_cflag (raw_settings baud t) AND m = control_set AND m"
proof -
  have "\<not> bit (m AND NOT control_cleared AND NOT control_set) n" for n by (simp add: assms)
  then show ?thesis unfolding control_flags by (intro bit_eqI) (auto simp: bit_simps)
qed

lemma control_others:
  "ti_cflag (raw_settings baud t) AND NOT (control_cleared OR control_set)
   = ti_cflag t AND NOT (control_cleared OR control_set)"
  unfolding control_flags by (rule bit_eqI) (auto simp: bit_simps)

lemma raw_settings_again: "raw_settings baud (raw_settings baud t) = raw_settings baud t"
proof -
  have "ti_cflag (raw_settings baud (raw_settings baud t)) = ti_cflag (raw_settings baud t)"
    unfolding control_flags by (rule bit_eqI) (auto simp: bit_simps)
  then show ?thesis by (simp add: raw_settings_def Let_def list_update_swap VMIN_def VTIME_def)
qed

section \<open>What is promised\<close>

text \<open>A line that hands over every byte as it came, eight bits each, at a rate, and stays up when it is closed.\<close>

definition raw_line :: "int \<Rightarrow> termios2 \<Rightarrow> bool" where
  "raw_line baud t \<longleftrightarrow>
     ti_iflag t AND input_translations = 0 \<and> ti_oflag t AND OPOST = 0 \<and> ti_lflag t AND line_editing = 0
     \<and> ti_cflag t AND CSIZE = CS8 \<and> ti_cflag t AND (PARENB OR CSTOPB OR crtscts) = 0
     \<and> ti_cflag t AND (CLOCAL OR CREAD) = CLOCAL OR CREAD \<and> ti_cflag t AND HUPCL = 0
     \<and> ti_cflag t AND cbaud = bother \<and> uint (ti_ispeed t) = baud \<and> uint (ti_ospeed t) = baud
     \<and> ti_cc t ! VMIN = 1 \<and> ti_cc t ! VTIME = 0"

definition elsewhere_alike :: "termios2 \<Rightarrow> termios2 \<Rightarrow> bool" where
  "elsewhere_alike t t' \<longleftrightarrow>
     ti_iflag t' AND NOT input_translations = ti_iflag t AND NOT input_translations
     \<and> ti_oflag t' AND NOT OPOST = ti_oflag t AND NOT OPOST
     \<and> ti_lflag t' AND NOT line_editing = ti_lflag t AND NOT line_editing
     \<and> ti_cflag t' AND NOT (control_cleared OR control_set) = ti_cflag t AND NOT (control_cleared OR control_set)
     \<and> ti_line t' = ti_line t"

lemma raw_settings_raw:
  assumes "0 \<le> baud" and "baud < 2 ^ 32" and "length (ti_cc t) = 19"
  shows "raw_line baud (raw_settings baud t)"
proof -
  have "take_bit 32 baud = baud" using assms(1,2) by (simp add: take_bit_int_eq_self)
  then have rates: "uint (ti_ispeed (raw_settings baud t)) = baud" "uint (ti_ospeed (raw_settings baud t)) = baud"
    by (simp_all add: raw_settings_def Let_def uint_word_of_int_eq)
  have flags: "ti_iflag (raw_settings baud t) AND input_translations = 0" "ti_oflag (raw_settings baud t) AND OPOST = 0"
      "ti_lflag (raw_settings baud t) AND line_editing = 0"
    by (simp_all add: raw_settings_def Let_def)
  have "ti_cflag (raw_settings baud t) AND m = control_set AND m"
    if "m \<in> {CSIZE, PARENB OR CSTOPB OR crtscts, CLOCAL OR CREAD, HUPCL, cbaud}" for m
    by (rule control_flag) (use that in \<open>auto simp: control_cleared_def control_set_def control_bits\<close>)
  moreover have "control_set AND CSIZE = CS8" "control_set AND (PARENB OR CSTOPB OR crtscts) = 0"
      "control_set AND (CLOCAL OR CREAD) = CLOCAL OR CREAD" "control_set AND HUPCL = 0" "control_set AND cbaud = bother"
    by (simp_all add: control_set_def control_bits)
  moreover have "ti_cc (raw_settings baud t) ! VMIN = 1" "ti_cc (raw_settings baud t) ! VTIME = 0"
    using assms(3) by (simp_all add: raw_settings_def Let_def VMIN_def VTIME_def)
  ultimately show ?thesis using rates flags by (simp add: raw_line_def)
qed

lemma raw_settings_elsewhere: "elsewhere_alike t (raw_settings baud t)"
  unfolding elsewhere_alike_def using control_others by (simp add: raw_settings_def Let_def)

lemma Resolve_leads: "leads (Resolve leads links device) = leads device"
  by (auto simp: Resolve_def find_Some_iff split: option.splits)

lemma valid_baudrate: "Validate c = None \<Longrightarrow> 0 < grbl_baudrate (cg_grbl c) \<and> grbl_baudrate (cg_grbl c) < 2 ^ 32"
proof -
  assume "Validate c = None"
  then have "grbl_baudrate (cg_grbl c) \<in> set valid_baud"
    by (auto simp: Validate_iff problems_iff grbl_problems_def split: if_splits)
  then show ?thesis by (auto simp: valid_baud_def)
qed


text \<open>
  The adapter is found again under its stable name. The name that is opened leads where the
  configured one leads; it is one of the stable names whenever one of them leads there, and
  otherwise the configured one.
\<close>

theorem the_stable_name_is_preferred:
  "leads (Resolve leads links device) = leads device
   \<and> (Resolve leads links device = device \<or> (\<exists>ls. links = Some ls \<and> Resolve leads links device \<in> set ls))
   \<and> (case (leads device, links) of
        (Some target, Some ls) \<Rightarrow> has_prefix device ''/dev/serial/by-id/'' \<or> Resolve leads links device \<in> set ls
          \<or> target \<notin> {t. \<exists>l \<in> set ls. leads l = Some t}
      | _ \<Rightarrow> Resolve leads links device = device)"
proof -
  have found: "\<exists>l. find (\<lambda>l. leads l = Some target) ls = Some l \<and> l \<in> set ls"
    if "l \<in> set ls" "leads l = Some target" for l ls target
    using that by (induction ls) auto
  then show ?thesis
    by (fastforce simp: Resolve_leads Resolve_def find_Some_iff find_None_iff split: option.splits)
qed

section \<open>A run\<close>

definition plain_line :: termios2 where
  "plain_line = \<lparr>ti_iflag = 0x500, ti_oflag = 0x5, ti_cflag = 0xcbd, ti_lflag = 0x8a3b, ti_line = 0,
     ti_cc = replicate 19 0, ti_ispeed = 9600, ti_ospeed = 9600\<rparr>"

definition willing_tty :: tty_world where
  "willing_tty = \<lparr>tw_open = (\<lambda>_. None), tw_get = (\<lambda>_. None), tw_set = (\<lambda>_ _. None)\<rparr>"


end
