(* ===== verification/Accept_Gate.thy ===== *)
theory Accept_Gate
  imports Bridge_System
begin

text \<open>
  The goroutines of \<open>backend/internal/proxy/bridge.go\<close> around the bridge: \<open>Run\<close> with its accept
  loop and the gate a connection waits at, \<open>serveDevice\<close> and \<open>openPort\<close> with their place in the
  loop, and \<open>serveMonitor\<close> of \<open>monitor.go\<close>. The questions to the controller
  (\<open>intervene.go\<close>, \<open>probeController\<close>) are a goroutine that runs from the opening of a port until
  it opens the gate. The goroutines take their steps in any order.
\<close>

section \<open>Starting and ending\<close>

definition probeGrace :: "bridge_config \<Rightarrow> duration" where
  "probeGrace c = cf_probe_identify c + probeSettings + second"

definition Run_begins :: "string option \<Rightarrow> bridge \<Rightarrow> bridge \<times> string option" where
  \<comment> \<open>\<open>net.Listen\<close> on the configured port may fail\<close>
  "Run_begins listen_error b =
     (case listen_error of
        Some e \<Rightarrow> (setState StateFault b, Some e)
      | None \<Rightarrow> (setState StateListening b, None))"

definition Run_ends :: "bridge \<Rightarrow> bridge" where
  \<comment> \<open>the device has finished; the journal is written out by its own goroutine\<close>
  "Run_ends b = setState StateStopped (DisconnectClient b)"

section \<open>The goroutines\<close>

text \<open>
  Where \<open>serveDevice\<close> is: in \<open>openPort\<close>, having announced that there is no device or not; in
  the loop that reads; or gone. And what the operating system answers it next.
\<close>

datatype device_place = Looking bool | Reading | Gone

datatype device_answer = StopSeen | OpenFailed string | OpenedAt string | ReadBytes string | ReadFailed io_error

text \<open>
  A gate is named by its number: \<open>probed\<close> is a new channel for each round of questions. A round
  remembers the gate it found or made, and which opening of the port it is about.
\<close>

record round =
  ro_gate :: nat
  ro_opening :: nat

record held =
  he_conn :: conn
  he_gate :: nat
  he_since :: instant

record gate_system =
  gs_bridge :: bridge
  gs_device :: device_place
  gs_gate :: nat
  gs_opening :: nat
  gs_rounds :: "round list"
  gs_held :: "held list"

definition gate_start :: "bridge_config \<Rightarrow> instant \<Rightarrow> gate_system" where
  "gate_start c now =
     \<lparr>gs_bridge = New c now, gs_device = Looking False, gs_gate = 0, gs_opening = 0, gs_rounds = [], gs_held = []\<rparr>"

definition begin_round :: "gate_system \<Rightarrow> gate_system" where
  \<comment> \<open>\<open>beginProbe\<close>, which keeps a gate that is still shut, and \<open>go probeController\<close>\<close>
  "begin_round s =
     (let g = (if br_probe_closed (gs_bridge s) then Suc (gs_gate s) else gs_gate s)
      in s\<lparr>gs_gate := g, gs_opening := Suc (gs_opening s),
           gs_rounds := gs_rounds s @ [\<lparr>ro_gate = g, ro_opening = Suc (gs_opening s)\<rparr>]\<rparr>)"

fun device_turn :: "device_answer \<Rightarrow> gate_system \<Rightarrow> gate_system" where
  "device_turn ans s =
     (let b = gs_bridge s; over = s\<lparr>gs_bridge := closePort b, gs_device := Gone\<rparr> in
      case gs_device s of
        Looking hushed \<Rightarrow>
          (case ans of
             StopSeen \<Rightarrow> if br_stopping b then over else s
           | OpenFailed e \<Rightarrow> s\<lparr>gs_bridge := (if hushed then b else port_missing e b), gs_device := Looking True\<rparr>
           | OpenedAt path \<Rightarrow>
               if br_stopping b then over\<lparr>gs_bridge := closePort (port_opened path b)\<rparr>
               else (begin_round s)\<lparr>gs_bridge := port_opened path b, gs_device := Reading\<rparr>
           | _ \<Rightarrow> s)
      | Reading \<Rightarrow>
          (case ans of
             ReadBytes data \<Rightarrow> if data = [] then s else s\<lparr>gs_bridge := device_output data b\<rparr>
           | ReadFailed e \<Rightarrow>
               s\<lparr>gs_bridge := port_lost (Some e) b, gs_device := (if br_stopping b then Gone else Looking False)\<rparr>
           | _ \<Rightarrow> s)
      | Gone \<Rightarrow> s)"

definition end_round :: "round \<Rightarrow> gate_system \<Rightarrow> gate_system" where
  \<comment> \<open>the deferred \<open>finishProbe\<close>\<close>
  "end_round r s = s\<lparr>gs_bridge := finishProbe (gs_bridge s), gs_rounds := remove1 r (gs_rounds s)\<rparr>"

definition accepted :: "conn \<Rightarrow> gate_system \<Rightarrow> gate_system" where
  "accepted c s = s\<lparr>gs_held := gs_held s @ [\<lparr>he_conn = c, he_gate = gs_gate s, he_since = br_now (gs_bridge s)\<rparr>]\<rparr>"

definition gate_open :: "nat \<Rightarrow> gate_system \<Rightarrow> bool" where
  \<comment> \<open>a new gate is made only once the one before it has been opened\<close>
  "gate_open g s \<longleftrightarrow> g < gs_gate s \<or> br_probe_closed (gs_bridge s)"

definition waited_out :: "held \<Rightarrow> gate_system \<Rightarrow> bool" where
  "waited_out h s \<longleftrightarrow> he_since h + probeGrace (br_config (gs_bridge s)) \<le> br_now (gs_bridge s)"

definition served_now :: "held \<Rightarrow> gate_system \<Rightarrow> gate_system" where
  "served_now h s = s\<lparr>gs_bridge := client_arrives (he_conn h) (gs_bridge s), gs_held := remove1 h (gs_held s)\<rparr>"

text \<open>Anything else that happens to the bridge leaves the gate and the port alone and attaches nobody.\<close>

definition elsewhere :: "bridge \<Rightarrow> bridge \<Rightarrow> bool" where
  "elsewhere b b' \<longleftrightarrow>
     br_probe_closed b' = br_probe_closed b \<and> br_config b' = br_config b \<and> br_now b \<le> br_now b'
     \<and> (br_stopping b \<longrightarrow> br_stopping b') \<and> (br_port b' = br_port b \<or> br_stopping b' \<and> br_port b' = None)
     \<and> (br_client b' = br_client b \<or> br_client b' = None)"

inductive gate_step :: "gate_system \<Rightarrow> gate_system \<Rightarrow> bool" where
  gate_device: "gate_step s (device_turn ans s)"
| gate_round_ends: "r \<in> set (gs_rounds s) \<Longrightarrow> gate_step s (end_round r s)"
| gate_accept: "gate_step s (accepted c s)"
| gate_serve: "h \<in> set (gs_held s) \<Longrightarrow> gate_open (he_gate h) s \<or> waited_out h s \<Longrightarrow> gate_step s (served_now h s)"
| gate_elsewhere: "elsewhere (gs_bridge s) b \<Longrightarrow> gate_step s (s\<lparr>gs_bridge := b\<rparr>)"

inductive_cases gate_stepE: "gate_step s s'"

lemma run_device: "gate_step\<^sup>*\<^sup>* s0 s \<Longrightarrow> gate_step\<^sup>*\<^sup>* s0 (device_turn ans s)"
  by (erule rtranclp.rtrancl_into_rtrancl) (rule gate_device)

lemma run_accept: "gate_step\<^sup>*\<^sup>* s0 s \<Longrightarrow> gate_step\<^sup>*\<^sup>* s0 (accepted c s)"
  by (erule rtranclp.rtrancl_into_rtrancl) (rule gate_accept)

text \<open>The questions put to the port that is open now.\<close>

definition asking :: "round \<Rightarrow> gate_system \<Rightarrow> bool" where
  "asking r s \<longleftrightarrow> r \<in> set (gs_rounds s) \<and> gs_device s = Reading \<and> ro_opening r = gs_opening s"

text \<open>A run in which no port is opened while questions to an earlier one are still being asked.\<close>

definition one_round_at_a_time :: "gate_system \<Rightarrow> gate_system \<Rightarrow> bool" where
  "one_round_at_a_time s s' \<longleftrightarrow> gate_step s s' \<and> (gs_opening s' \<noteq> gs_opening s \<longrightarrow> gs_rounds s = [])"

section \<open>What stays true of the gate\<close>

definition gate_ok :: "gate_system \<Rightarrow> bool" where
  "gate_ok s \<longleftrightarrow>
     length (gs_rounds s) \<le> 1 \<and> (\<forall>r \<in> set (gs_rounds s). ro_gate r \<le> gs_gate s)
     \<and> (\<forall>r. asking r s \<longrightarrow> ro_gate r = gs_gate s \<and> \<not> br_probe_closed (gs_bridge s))
     \<and> (\<forall>h \<in> set (gs_held s). he_gate h \<le> gs_gate s)"

lemma beginProbe_shuts [simp]: "br_probe_closed (beginProbe b) = False"
  by (simp add: beginProbe_def)

lemma probe_closed_frame [simp]:
  "br_probe_closed (setState x b) = br_probe_closed b" "br_probe_closed (noted k t b) = br_probe_closed b"
  "br_probe_closed (close_conn c b) = br_probe_closed b"
  by (simp_all add: setState_def noted_def journal_event_def close_conn_def)

lemma port_opened_shuts: "\<not> br_stopping b \<Longrightarrow> \<not> br_probe_closed (port_opened path b)"
  by (simp add: port_opened_def Let_def)

lemma port_opened_frame [simp]:
  "br_stopping (port_opened path b) = br_stopping b" "br_now (port_opened path b) = br_now b"
  by (simp_all add: port_opened_def Let_def beginProbe_def setState_def noted_def journal_event_def)

lemma port_lost_frame [simp]:
  "br_stopping (port_lost e b) = br_stopping b" "br_now (port_lost e b) = br_now b"
  "br_probe_closed (port_lost e b) = br_probe_closed b"
  by (simp_all add: port_lost_def Let_def closePort_def setErrorUnlessClosed_def setError_def DisconnectClient_def
      close_conn_def noted_def journal_event_def split: option.split)

lemma client_arrives_frame [simp]: "br_probe_closed (client_arrives c b) = br_probe_closed b"
  by (simp add: client_arrives_def Let_def split: option.split)

lemma device_output_gate [simp]: "br_probe_closed (device_output data b) = br_probe_closed b"
proof -
  have observed: "br_probe_closed (observe data x) = br_probe_closed x" for x
    using observe_frame(3) [of data x] by (simp add: connections_def)
  show ?thesis
    by (auto simp: device_output_def transcribed_def writeToClient_def deliver_def setError_def observed
        Let_def split: option.splits)
qed

lemma asking_same:
  assumes "gs_rounds s' = gs_rounds s" and "gs_device s' = gs_device s" and "gs_opening s' = gs_opening s"
  shows "asking r s' \<longleftrightarrow> asking r s"
  using assms by (simp add: asking_def)

lemma gate_ok_same:
  assumes "gate_ok s" and "gs_rounds s' = gs_rounds s" and "gs_gate s' = gs_gate s" and "set (gs_held s') \<subseteq> set (gs_held s)"
    and "gs_opening s' = gs_opening s" and "gs_device s' = Reading \<Longrightarrow> gs_device s = Reading"
    and "gs_device s' = Reading \<Longrightarrow> br_probe_closed (gs_bridge s') = br_probe_closed (gs_bridge s)"
  shows "gate_ok s'"
  using assms unfolding gate_ok_def asking_def by auto

lemma begin_round_ok:
  assumes "gate_ok s" and "gs_rounds s = []" and "\<not> br_probe_closed b"
  shows "gate_ok ((begin_round s)\<lparr>gs_bridge := b, gs_device := Reading\<rparr>)"
  using assms by (fastforce simp: gate_ok_def begin_round_def Let_def asking_def)

lemma device_turn_ok:
  assumes "gate_ok s" and "gs_opening (device_turn ans s) \<noteq> gs_opening s \<longrightarrow> gs_rounds s = []"
  shows "gate_ok (device_turn ans s)"
proof (cases "\<exists>f path. gs_device s = Looking f \<and> ans = OpenedAt path \<and> \<not> br_stopping (gs_bridge s)")
  case True
  then obtain path where turn: "device_turn ans s = (begin_round s)\<lparr>gs_bridge := port_opened path (gs_bridge s), gs_device := Reading\<rparr>"
      and "\<not> br_stopping (gs_bridge s)"
    by auto
  moreover from turn have "gs_rounds s = []" using assms(2) by (simp add: begin_round_def Let_def)
  ultimately show ?thesis using begin_round_ok [OF assms(1)] port_opened_shuts by simp
next
  case False
  then show ?thesis
    by (cases "gs_device s"; cases ans)
      (auto intro!: gate_ok_same [OF assms(1)] simp: Let_def)
qed

lemma end_round_ok:
  assumes "gate_ok s" and "r \<in> set (gs_rounds s)"
  shows "gate_ok (end_round r s)"
proof -
  have "gs_rounds s = [r]" using assms by (cases "gs_rounds s") (auto simp: gate_ok_def)
  then show ?thesis using assms(1) by (simp add: gate_ok_def end_round_def asking_def)
qed

lemma orderly_ok:
  assumes "gate_ok s" and "one_round_at_a_time s s'"
  shows "gate_ok s'"
proof -
  have fresh: "gs_opening s' \<noteq> gs_opening s \<longrightarrow> gs_rounds s = []" using assms(2) by (simp add: one_round_at_a_time_def)
  have "gate_step s s'" using assms(2) by (simp add: one_round_at_a_time_def)
  then show ?thesis
  proof (cases rule: gate_step.cases)
    case (gate_device ans)
    then show ?thesis using device_turn_ok [OF assms(1)] fresh by simp
  next
    case (gate_round_ends r)
    then show ?thesis using end_round_ok [OF assms(1)] by simp
  next
    case (gate_accept c)
    then show ?thesis using assms(1) by (auto simp: gate_ok_def accepted_def asking_def)
  next
    case (gate_serve h)
    then show ?thesis
      by (auto intro!: gate_ok_same [OF assms(1)] simp: served_now_def dest: set_remove1_subset [THEN subsetD])
  next
    case (gate_elsewhere b)
    then show ?thesis by (auto intro!: gate_ok_same [OF assms(1)] simp: elsewhere_def)
  qed
qed

lemma orderly_run_ok:
  assumes "one_round_at_a_time\<^sup>*\<^sup>* (gate_start c now) s"
  shows "gate_ok s"
  using assms
proof (induction rule: rtranclp_induct)
  case base
  show ?case by (simp add: gate_ok_def gate_start_def asking_def)
next
  case (step s s')
  then show ?case using orderly_ok by blast
qed

section \<open>What stays true of the port\<close>

definition books_agree :: "gate_system \<Rightarrow> bool" where
  "books_agree s \<longleftrightarrow>
     (br_port (gs_bridge s) \<noteq> None \<longrightarrow> gs_device s = Reading)
     \<and> (gs_device s = Reading \<longrightarrow> br_port (gs_bridge s) \<noteq> None \<or> br_stopping (gs_bridge s))
     \<and> (gs_device s = Gone \<longrightarrow> br_stopping (gs_bridge s))"

lemma books_agree_same:
  assumes "books_agree s" and "gs_device s' = gs_device s" and "br_port (gs_bridge s') = br_port (gs_bridge s)"
    and "br_stopping (gs_bridge s') = br_stopping (gs_bridge s)"
  shows "books_agree s'"
  using assms by (simp add: books_agree_def)

lemma device_output_port [simp]:
  "br_port (device_output data b) = br_port b" "br_stopping (device_output data b) = br_stopping b"
proof -
  have observed: "br_port (observe data x) = br_port x" "br_stopping (observe data x) = br_stopping x" for x
    using observe_frame(3) [of data x] by (simp_all add: connections_def)
  show "br_port (device_output data b) = br_port b" "br_stopping (device_output data b) = br_stopping b"
    by (auto simp: device_output_def transcribed_def writeToClient_def deliver_def setError_def close_conn_def observed
        Let_def split: option.splits)
qed

lemma port_opened_port: "\<not> br_stopping b \<Longrightarrow> br_port (port_opened path b) = Some path"
  by (simp add: port_opened_def Let_def beginProbe_def setState_def noted_def journal_event_def)

lemma port_missing_port [simp]: "br_port (port_missing e b) = br_port b" "br_stopping (port_missing e b) = br_stopping b"
  by (simp_all add: port_missing_def finishProbe_def setError_def setState_def)

lemma port_lost_port [simp]: "br_port (port_lost e b) = None"
  by (simp add: port_lost_def Let_def closePort_def setErrorUnlessClosed_def setError_def DisconnectClient_def
      close_conn_def noted_def journal_event_def split: option.split)

lemma client_arrives_port [simp]:
  "br_port (client_arrives c b) = br_port b" "br_stopping (client_arrives c b) = br_stopping b"
  by (simp_all add: client_arrives_def Let_def close_conn_def setState_def noted_def journal_event_def split: option.split)

lemma device_turn_agrees: "books_agree s \<Longrightarrow> books_agree (device_turn ans s)"
  by (cases "gs_device s"; cases ans)
    (auto simp: books_agree_def begin_round_def closePort_def port_opened_port Let_def)

lemma step_agrees: "gate_step s s' \<Longrightarrow> books_agree s \<Longrightarrow> books_agree s'"
proof (induction rule: gate_step.induct)
  case (gate_device s ans)
  then show ?case by (intro device_turn_agrees)
next
  case (gate_elsewhere s b)
  then show ?case by (auto simp: books_agree_def elsewhere_def)
qed (auto elim!: books_agree_same simp: end_round_def finishProbe_def accepted_def served_now_def)

lemma run_agrees: "gate_step\<^sup>*\<^sup>* (gate_start c now) s \<Longrightarrow> books_agree s"
proof (induction rule: rtranclp_induct)
  case base
  show ?case by (simp add: books_agree_def gate_start_def New_def)
next
  case (step s s')
  then show ?case using step_agrees by blast
qed

text \<open>What the other goroutines do to the bridge is such a thing that happens elsewhere.\<close>

lemma client_data_elsewhere: "elsewhere b (fst (client_data c data b))"
  by (auto simp: elsewhere_def client_data_def port_Write_def transcribed_def setError_def setErrorUnlessClosed_def
      Let_def split: option.splits)

definition doorway where
  \<comment> \<open>what may not change elsewhere\<close>
  "doorway b = (br_probe_closed b, br_config b, br_world b\<lparr>wo_closed := []\<rparr>, br_stopping b, br_port b)"

lemma doorway_frame [simp]:
  "doorway (setState x b) = doorway b" "doorway (noted k t b) = doorway b" "doorway (close_conn c b) = doorway b"
  "doorway (setErrorUnlessClosed e b) = doorway b" "doorway (record_job_note w b) = doorway b"
  by (simp_all add: doorway_def setState_def noted_def journal_event_def close_conn_def setErrorUnlessClosed_def
      setError_def record_job_note_def)

lemma end_job_frame [simp]: "doorway (end_job why b) = doorway b" "br_client (end_job why b) = br_client b"
  by (simp_all add: end_job_def record_job_note_def noted_def journal_event_def doorway_def case_prod_beta)

lemma same_doorway:
  assumes "doorway b' = doorway b" and "br_client b' = br_client b \<or> br_client b' = None"
  shows "elsewhere b b'"
proof -
  have "wo_now (br_world b'\<lparr>wo_closed := []\<rparr>) = wo_now (br_world b\<lparr>wo_closed := []\<rparr>)"
    using assms(1) by (simp add: doorway_def)
  then show ?thesis using assms by (simp add: doorway_def elsewhere_def)
qed

lemma client_leaves_elsewhere: "elsewhere b (client_leaves c e b)"
proof -
  have clients: "br_client (close_conn c x) = br_client x" "br_client (setErrorUnlessClosed y x) = br_client x"
      "br_client (noted k t x) = br_client x" "br_client (setState z x) = br_client x" for x y z k t
    by (simp_all add: close_conn_def setErrorUnlessClosed_def setError_def noted_def journal_event_def setState_def)
  define b0 where "b0 = close_conn c (case e of None \<Rightarrow> b | Some y \<Rightarrow> setErrorUnlessClosed y b)"
  have b0: "doorway b0 = doorway b" "br_client b0 = br_client b"
    by (cases e; simp add: b0_def clients)+
  have gone: "doorway (x\<lparr>br_client := None, br_client_addr := [], br_connected_since := 0\<rparr>) = doorway x"
      "doorway (x\<lparr>br_leaving := l\<rparr>) = doorway x" for x l
    by (simp_all add: doorway_def)
  show ?thesis
  proof (cases "br_client b0 = Some c")
    case False
    then have "client_leaves c e b = b0" unfolding client_leaves_def Let_def b0_def by simp
    then show ?thesis using b0 by (intro same_doorway) simp_all
  next
    case True
    then have "doorway (client_leaves c e b) = doorway b0 \<and> br_client (client_leaves c e b) = None"
      unfolding client_leaves_def Let_def b0_def [symmetric] by (simp add: gone clients)
    then show ?thesis using b0(1) by (intro same_doorway) simp_all
  qed
qed

lemma shut_down_elsewhere: "elsewhere b (shut_down b)"
  by (auto simp: elsewhere_def shut_down_def closePort_def DisconnectClient_def close_conn_def split: option.splits)

lemma clock_elsewhere: "br_now b \<le> t \<Longrightarrow> elsewhere b (b\<lparr>br_world := (br_world b)\<lparr>wo_now := t\<rparr>\<rparr>)"
  by (simp add: elsewhere_def)

section \<open>Properties\<close>

text \<open>
  C7: no client is let in amid the questions. Whatever the goroutines do and in whatever order, as
  long as no port is opened while the questions to an earlier one go on: a connection that is
  served without having waited out its grace is served when no questions to the open port are
  going on that had begun when it came. The grace is longer than the questions may take.
\<close>

theorem no_client_amid_the_questions:
  assumes "one_round_at_a_time\<^sup>*\<^sup>* (gate_start c now) s" and "h \<in> set (gs_held s)" and "gate_open (he_gate h) s"
  shows "(\<forall>r. asking r s \<longrightarrow> he_gate h < ro_gate r)
    \<and> cf_probe_identify k + probeSettings < probeGrace k"
proof -
  have ok: "gate_ok s" using assms(1) by (rule orderly_run_ok)
  have "he_gate h < ro_gate r" if "asking r s" for r
    using ok that assms(3) unfolding gate_ok_def gate_open_def by metis
  then show ?thesis by (simp add: probeGrace_def)
qed

text \<open>
  Without that proviso it does not hold. An adapter that is lost and found while it is being
  asked is asked again, behind the gate of the first questions; when those give up, they open it, and a
  connection that came before is served although its questions are still going on.
\<close>

theorem replugging_opens_the_gate_early:
  "\<exists>s h r. gate_step\<^sup>*\<^sup>* (gate_start c now) s \<and> h \<in> set (gs_held s) \<and> gate_open (he_gate h) s
     \<and> he_since h = br_now (gs_bridge s) \<and> asking r s \<and> ro_gate r = he_gate h"
proof -
  let ?r = "\<lparr>ro_gate = 0, ro_opening = 1\<rparr>" and ?r2 = "\<lparr>ro_gate = 0, ro_opening = 2\<rparr>"
  let ?h = "\<lparr>he_conn = Conn 0 ''client'', he_gate = 0, he_since = now\<rparr>"
  define s1 where "s1 = device_turn (OpenedAt ''tty'') (gate_start c now)"
  define s2 where "s2 = accepted (Conn 0 ''client'') s1"
  define s3 where "s3 = device_turn (ReadFailed (OtherError ''gone'')) s2"
  define s4 where "s4 = device_turn (OpenedAt ''tty'') s3"
  have new: "\<not> br_stopping (New c now)" "\<not> br_probe_closed (New c now)" "br_now (New c now) = now"
    by (simp_all add: New_def)
  have "gs_device s1 = Reading \<and> gs_rounds s1 = [?r] \<and> gs_opening s1 = 1 \<and> gs_gate s1 = 0 \<and> gs_held s1 = []
      \<and> gs_bridge s1 = port_opened ''tty'' (New c now)"
    using new by (simp add: s1_def gate_start_def begin_round_def Let_def)
  then have "gs_device s2 = Reading \<and> gs_rounds s2 = [?r] \<and> gs_opening s2 = 1 \<and> gs_gate s2 = 0 \<and> gs_held s2 = [?h]
      \<and> gs_bridge s2 = port_opened ''tty'' (New c now)"
    using new by (simp add: s2_def accepted_def)
  then have "gs_device s3 = Looking False \<and> gs_rounds s3 = [?r] \<and> gs_opening s3 = 1 \<and> gs_gate s3 = 0 \<and> gs_held s3 = [?h]
      \<and> \<not> br_stopping (gs_bridge s3) \<and> \<not> br_probe_closed (gs_bridge s3) \<and> br_now (gs_bridge s3) = now"
    using new port_opened_shuts [of "New c now"] by (simp add: s3_def Let_def)
  then have opened: "gs_device s4 = Reading \<and> gs_rounds s4 = [?r, ?r2] \<and> gs_opening s4 = 2 \<and> gs_gate s4 = 0
      \<and> gs_held s4 = [?h] \<and> br_now (gs_bridge s4) = now"
    by (simp add: s4_def begin_round_def Let_def)
  have "gate_step\<^sup>*\<^sup>* (gate_start c now) s4"
    unfolding s4_def s3_def s2_def s1_def by (rule run_device, rule run_device, rule run_accept, rule run_device) simp
  moreover have "gate_step s4 (end_round ?r s4)" using opened by (intro gate_round_ends) simp
  ultimately have run: "gate_step\<^sup>*\<^sup>* (gate_start c now) (end_round ?r s4)" by (rule rtranclp.rtrancl_into_rtrancl)
  have "br_probe_closed (finishProbe b)" for b by (simp add: finishProbe_def)
  then have "?h \<in> set (gs_held (end_round ?r s4)) \<and> gate_open 0 (end_round ?r s4) \<and> asking ?r2 (end_round ?r s4)"
    using opened by (simp add: end_round_def gate_open_def asking_def)
  moreover have "br_now (gs_bridge (end_round ?r s4)) = now" using opened by (simp add: end_round_def finishProbe_def)
  ultimately show ?thesis using run
    by (intro exI [of _ "end_round ?r s4"] exI [of _ ?h] exI [of _ ?r2]) simp
qed



lemma then_orderly: "one_round_at_a_time\<^sup>*\<^sup>* s0 s \<Longrightarrow> gate_step s s' \<Longrightarrow> gs_opening s' \<noteq> gs_opening s \<longrightarrow> gs_rounds s = [] \<Longrightarrow> one_round_at_a_time\<^sup>*\<^sup>* s0 s'"
  by (erule rtranclp.rtrancl_into_rtrancl) (simp add: one_round_at_a_time_def)

theorem no_client_amid_the_questions_witness:
  "\<forall>c now. \<exists>s (h :: held) r. one_round_at_a_time\<^sup>*\<^sup>* (gate_start c now) s \<and> gate_open (he_gate h) s \<and> asking r s \<and> he_gate h < ro_gate r"
proof (intro allI)
  fix c now
  let ?r = "\<lparr>ro_gate = 0, ro_opening = 1\<rparr>" and ?r2 = "\<lparr>ro_gate = 1, ro_opening = 2\<rparr>"
  let ?h = "\<lparr>he_conn = Conn 0 ''client'', he_gate = 0, he_since = now\<rparr>"
  define s1 where "s1 = device_turn (OpenedAt ''tty'') (gate_start c now)"
  define s2 where "s2 = accepted (Conn 0 ''client'') s1"
  define s3 where "s3 = end_round ?r s2"
  define s4 where "s4 = device_turn (ReadFailed (OtherError ''gone'')) s3"
  define s5 where "s5 = device_turn (OpenedAt ''tty'') s4"
  have new: "\<not> br_stopping (New c now)" "br_now (New c now) = now" by (simp_all add: New_def)
  have finish: "br_probe_closed (finishProbe b)" "br_stopping (finishProbe b) = br_stopping b" for b
    by (simp_all add: finishProbe_def)
  have s1: "gs_device s1 = Reading \<and> gs_rounds s1 = [?r] \<and> gs_opening s1 = 1 \<and> gs_gate s1 = 0 \<and> gs_held s1 = []
      \<and> gs_bridge s1 = port_opened ''tty'' (New c now)"
    using new by (simp add: s1_def gate_start_def begin_round_def Let_def) (simp add: New_def)
  then have s2: "gs_device s2 = Reading \<and> gs_rounds s2 = [?r] \<and> gs_opening s2 = 1 \<and> gs_gate s2 = 0 \<and> gs_held s2 = [?h]
      \<and> gs_bridge s2 = port_opened ''tty'' (New c now)"
    using new by (simp add: s2_def accepted_def)
  then have s3: "gs_device s3 = Reading \<and> gs_rounds s3 = [] \<and> gs_opening s3 = 1 \<and> gs_gate s3 = 0 \<and> gs_held s3 = [?h]
      \<and> br_probe_closed (gs_bridge s3) \<and> \<not> br_stopping (gs_bridge s3)"
    using new by (simp add: s3_def end_round_def finish)
  then have s4: "gs_device s4 = Looking False \<and> gs_rounds s4 = [] \<and> gs_opening s4 = 1 \<and> gs_gate s4 = 0 \<and> gs_held s4 = [?h]
      \<and> br_probe_closed (gs_bridge s4) \<and> \<not> br_stopping (gs_bridge s4)"
    by (simp add: s4_def Let_def)
  then have s5: "gs_device s5 = Reading \<and> gs_rounds s5 = [?r2] \<and> gs_opening s5 = 2 \<and> gs_gate s5 = 1 \<and> gs_held s5 = [?h]"
    by (simp add: s5_def begin_round_def Let_def)
  have steps: "gate_step (gate_start c now) s1" "gate_step s1 s2" "gate_step s3 s4" "gate_step s4 s5"
    unfolding s1_def s2_def s4_def s5_def by (rule gate_device, rule gate_accept, rule gate_device, rule gate_device)
  have "gate_step s2 s3" unfolding s3_def by (rule gate_round_ends) (simp add: s2)
  have "one_round_at_a_time\<^sup>*\<^sup>* (gate_start c now) s1"
    by (rule then_orderly [OF rtranclp.rtrancl_refl steps(1)]) (simp add: gate_start_def)
  then have "one_round_at_a_time\<^sup>*\<^sup>* (gate_start c now) s2" by (rule then_orderly [OF _ steps(2)]) (simp add: s1 s2)
  then have "one_round_at_a_time\<^sup>*\<^sup>* (gate_start c now) s3" by (rule then_orderly [OF _ \<open>gate_step s2 s3\<close>]) (simp add: s2 s3)
  then have "one_round_at_a_time\<^sup>*\<^sup>* (gate_start c now) s4" by (rule then_orderly [OF _ steps(3)]) (simp add: s3 s4)
  then have run: "one_round_at_a_time\<^sup>*\<^sup>* (gate_start c now) s5" by (rule then_orderly [OF _ steps(4)]) (simp add: s4)
  have "?h \<in> set (gs_held s5)" "gate_open (he_gate ?h) s5" "asking ?r2 s5"
    using s5 by (simp_all add: gate_open_def asking_def)
  then have "he_gate ?h < ro_gate ?r2"
    using no_client_amid_the_questions [OF run \<open>?h \<in> set (gs_held s5)\<close> \<open>gate_open (he_gate ?h) s5\<close>] by blast
  then show "\<exists>s (h :: held) r. one_round_at_a_time\<^sup>*\<^sup>* (gate_start c now) s \<and> gate_open (he_gate h) s \<and> asking r s \<and> he_gate h < ro_gate r"
    using run \<open>gate_open (he_gate ?h) s5\<close> \<open>asking ?r2 s5\<close>
    by blast
qed

text \<open>These rewritings are for the proofs of this theory.\<close>

lemmas gate_frames =
  beginProbe_shuts probe_closed_frame port_opened_frame port_lost_frame client_arrives_frame device_output_gate device_output_port port_missing_port port_lost_port client_arrives_port doorway_frame end_job_frame

declare gate_frames [simp del]

end
