(* ===== verification/Listeners.thy ===== *)
theory Listeners
  imports Status_Socket
begin

text \<open>
  The listeners of the daemon beside the bridge's own: \<open>Serve\<close> of
  \<open>backend/internal/proxy/statussocket.go\<close> with \<open>peercred_linux.go\<close>, which asks the kernel who is at
  the other end, and \<open>serveMonitor\<close> of \<open>monitor.go\<close>. What the operating system answers, and who
  connects and in which order, is a script.
\<close>

section \<open>Who is at the other end\<close>

datatype peer_answer = NotUnix | NoRawConn string | ControlFailed string | LookupFailed string | Peer "32 word"

definition peerUID :: "peer_answer \<Rightarrow> string + 32 word" where
  "peerUID p =
     (case p of
        NotUnix \<Rightarrow> Inl ''not a unix socket''
      | NoRawConn e \<Rightarrow> Inl e
      | ControlFailed e \<Rightarrow> Inl e
      | LookupFailed e \<Rightarrow> Inl e
      | Peer uid \<Rightarrow> Inr uid)"

definition asking_uid :: "peer_answer \<Rightarrow> nat option" where
  "asking_uid p = (case peerUID p of Inl _ \<Rightarrow> None | Inr uid \<Rightarrow> Some (unat uid))"

section \<open>The status socket\<close>

record socket_world =
  sw_mkdir :: "string option"
  sw_remove :: "string option"
  sw_listen :: "string option"
  sw_chmod :: "string option"

datatype accept_event = Asked peer_answer string | ListenerClosed | AcceptFailed string

text \<open>What is answered, what becomes of the bridge, and how the accepting ends, if it does.\<close>

fun answer_all ::
    "(string \<Rightarrow> string) \<Rightarrow> (string \<Rightarrow> string + command_request) \<Rightarrow> accept_event list \<Rightarrow> bridge \<Rightarrow>
     bridge \<times> socket_reply list \<times> string option option" where
  "answer_all quote decode [] b = (b, [], None)"
| "answer_all quote decode (Asked p line # es) b =
     (case socket_answer quote decode (asking_uid p) line b of
        (b1, reply) \<Rightarrow> (case answer_all quote decode es b1 of (b2, given, r) \<Rightarrow> (b2, reply # given, r)))"
| "answer_all quote decode (ListenerClosed # es) b = (b, [], Some None)"
| "answer_all quote decode (AcceptFailed e # es) b = (b, [], Some (Some e))"

text \<open>\<open>Serve\<close>, with whether there is a file at the path. The deferred removal is at every return after \<open>Listen\<close>.\<close>

definition Serve ::
    "socket_world \<Rightarrow> (string \<Rightarrow> string) \<Rightarrow> (string \<Rightarrow> string + command_request) \<Rightarrow> accept_event list \<Rightarrow>
     bool \<times> bridge \<Rightarrow> (bool \<times> bridge) \<times> socket_reply list \<times> string option option" where
  "Serve sw quote decode es s =
     (case s of
        (there, b) \<Rightarrow>
          (case sw_mkdir sw of
             Some e \<Rightarrow> (s, [], Some (Some e))
           | None \<Rightarrow>
               (case (if there then sw_remove sw else None) of
                  Some e \<Rightarrow> (s, [], Some (Some e))
                | None \<Rightarrow>
                    (case sw_listen sw of
                       Some e \<Rightarrow> ((False, b), [], Some (Some e))
                     | None \<Rightarrow>
                         (case sw_chmod sw of
                            Some e \<Rightarrow> ((False, b), [], Some (Some e))
                          | None \<Rightarrow>
                              (case answer_all quote decode es b of
                                 (b1, given, r) \<Rightarrow> ((r = None, b1), given, r)))))))"

section \<open>The monitor port\<close>

datatype monitor_event = WatcherCame nat | WatcherTyped nat string | WatcherLeft nat

definition monitor_greeting :: string where
  "monitor_greeting =
     ''# LaserBridgeOS monitor: > client to controller, < controller to client, * the bridge itself. Input is ignored.'' @ [CHR 0x0A]"

fun monitor_turn :: "monitor_event \<Rightarrow> bridge \<times> (nat \<times> string) list \<Rightarrow> bridge \<times> (nat \<times> string) list" where
  "monitor_turn (WatcherCame n) (b, out) = (b\<lparr>br_monitors := monitors_add n (br_monitors b)\<rparr>, out @ [(n, monitor_greeting)])"
| "monitor_turn (WatcherTyped n data) (b, out) = (b, out)"
| "monitor_turn (WatcherLeft n) (b, out) = (b\<lparr>br_monitors := monitors_remove n (br_monitors b)\<rparr>, out)"

definition serveMonitor ::
    "string option \<Rightarrow> monitor_event list \<Rightarrow> bool \<Rightarrow> bridge \<Rightarrow> bridge \<times> (nat \<times> string) list" where
  \<comment> \<open>the error of \<open>net.Listen\<close>, what happens, and whether the bridge is stopped in the end\<close>
  "serveMonitor listen_error es stopped b =
     (if cf_monitor_port (br_config b) \<le> 0 then (b, [])
      else
        (case listen_error of
           Some e \<Rightarrow> (setError e b, [])
         | None \<Rightarrow>
             (case fold monitor_turn es (b, []) of
                (b1, out) \<Rightarrow>
                  (if stopped then b1\<lparr>br_monitors := monitors_closeAll (br_monitors b1)\<rparr> else b1, out))))"

section \<open>Facts\<close>

lemma console_as_it_is: "b = b\<lparr>br_console := br_console b\<rparr>" for b :: bridge
  by simp

lemma answer_all_not_root:
  assumes "\<forall>p line. Asked p line \<in> set es \<longrightarrow> peerUID p \<noteq> Inr 0"
  shows "\<exists>co. fst (answer_all quote decode es b) = b\<lparr>br_console := co\<rparr>"
  using assms
proof (induction quote decode es b rule: answer_all.induct)
  case (2 quote decode p line es b)
  have "asking_uid p \<noteq> Some 0" using 2(2) by (auto simp: asking_uid_def unat_eq_0 split: sum.splits)
  then obtain co where co: "fst (socket_answer quote decode (asking_uid p) line b) = b\<lparr>br_console := co\<rparr>"
    using socket_answer_not_root [of "asking_uid p" quote decode line b] console_as_it_is [of b]
    by (metis insertE singletonD)
  obtain b1 reply where answer: "socket_answer quote decode (asking_uid p) line b = (b1, reply)" by fastforce
  obtain co' where "fst (answer_all quote decode es b1) = b1\<lparr>br_console := co'\<rparr>"
    using 2(1) [OF answer [symmetric]] 2(2) by auto
  then show ?case using co answer by (auto simp: case_prod_beta)
qed (simp only: answer_all.simps fst_conv, rule exI, rule console_as_it_is)+

definition arrivals :: "monitor_event list \<Rightarrow> nat list" where
  "arrivals es = concat (map (\<lambda>e. case e of WatcherCame n \<Rightarrow> [n] | _ \<Rightarrow> []) es)"

lemma watchers_leave_the_rest:
  "\<exists>mo. fold monitor_turn es (b, out) = (b\<lparr>br_monitors := mo\<rparr>, out @ map (\<lambda>n. (n, monitor_greeting)) (arrivals es))"
proof (induction es arbitrary: b out)
  case Nil
  show ?case by (intro exI [of _ "br_monitors b"]) (simp add: arrivals_def)
next
  case (Cons e es)
  obtain mo where "monitor_turn e (b, out) = (b\<lparr>br_monitors := mo\<rparr>, out @ map (\<lambda>n. (n, monitor_greeting)) (arrivals [e]))"
  proof (cases e)
    case (WatcherTyped n data)
    then show thesis by (intro that [of "br_monitors b"]) (simp add: arrivals_def)
  qed (auto simp: arrivals_def intro: that)
  moreover obtain mo' where "fold monitor_turn es (b\<lparr>br_monitors := mo\<rparr>, out @ map (\<lambda>n. (n, monitor_greeting)) (arrivals [e]))
      = (b\<lparr>br_monitors := mo, br_monitors := mo'\<rparr>, (out @ map (\<lambda>n. (n, monitor_greeting)) (arrivals [e])) @ map (\<lambda>n. (n, monitor_greeting)) (arrivals es))"
    using Cons [of "b\<lparr>br_monitors := mo\<rparr>"] by blast
  ultimately show ?case by (intro exI [of _ mo']) (simp add: arrivals_def)
qed

section \<open>Properties\<close>

text \<open>
  Asking is for everybody, and a crash leaves no obstacle. Whether or not an earlier run left
  its socket behind, the same questions get the same answers, and no file is left when the
  accepting is over; and as long as none of those who ask is root, for the kernel, the bridge is
  what it was but for the recording of the transcript.
\<close>

theorem anyone_may_ask:
  assumes "sw_mkdir sw = None" and "sw_remove sw = None"
    and "\<forall>p line. Asked p line \<in> set es \<longrightarrow> peerUID p \<noteq> Inr 0"
  shows "Serve sw quote decode es (True, b) = Serve sw quote decode es (False, b)
    \<and> (snd (snd (Serve sw quote decode es (True, b))) \<noteq> None \<longrightarrow> \<not> fst (fst (Serve sw quote decode es (True, b))))
    \<and> (\<exists>co. snd (fst (Serve sw quote decode es (True, b))) = b\<lparr>br_console := co\<rparr>)"
proof -
  obtain co where "fst (answer_all quote decode es b) = b\<lparr>br_console := co\<rparr>"
    using answer_all_not_root [OF assms(3)] by blast
  moreover have "\<exists>co. b = b\<lparr>br_console := co\<rparr>" by (intro exI [of _ "br_console b"]) simp
  ultimately show ?thesis
    using assms(1,2) by (auto simp: Serve_def split: option.splits prod.splits)
qed

text \<open>
  A watcher only watches. Whoever connects to the monitor port, whatever they type and when
  they leave, nothing of the bridge changes but the list of who is watching and, where the
  port could not be opened, the last error; nothing they type goes anywhere, each is greeted once
  per connection, and when the bridge stops nobody is left.
\<close>

theorem watchers_only_watch:
  "\<exists>mo e. fst (serveMonitor listen_error es stopped b) = b\<lparr>br_monitors := mo, br_last_error := e\<rparr>
     \<and> snd (serveMonitor listen_error es stopped b) =
         (if cf_monitor_port (br_config b) \<le> 0 \<or> listen_error \<noteq> None then []
          else map (\<lambda>n. (n, monitor_greeting)) (arrivals es))
     \<and> (stopped \<and> 0 < cf_monitor_port (br_config b) \<and> listen_error = None \<longrightarrow> mo_subs mo = [])"
proof -
  obtain mo where mo: "fold monitor_turn es (b, []) = (b\<lparr>br_monitors := mo\<rparr>, map (\<lambda>n. (n, monitor_greeting)) (arrivals es))"
    using watchers_leave_the_rest [of es b "[]"] by auto
  have none: "b = b\<lparr>br_monitors := br_monitors b, br_last_error := br_last_error b\<rparr>" by simp
  consider (off) "cf_monitor_port (br_config b) \<le> 0" | (failed) e where "0 < cf_monitor_port (br_config b)" "listen_error = Some e"
    | (listening) "0 < cf_monitor_port (br_config b)" "listen_error = None"
    using not_le by (metis not_None_eq)
  then show ?thesis
  proof cases
    case off
    then show ?thesis
      by (intro exI [of _ "br_monitors b"] exI [of _ "br_last_error b"]) (simp add: serveMonitor_def)
  next
    case failed
    then show ?thesis
      by (intro exI [of _ "br_monitors b"] exI [of _ e]) (simp add: serveMonitor_def setError_def)
  next
    case listening
    then show ?thesis
      by (intro exI [of _ "if stopped then monitors_closeAll mo else mo"] exI [of _ "br_last_error b"])
        (simp add: serveMonitor_def mo monitors_closeAll_def)
  qed
qed

section \<open>Runs\<close>

definition open_world :: socket_world where
  "open_world = \<lparr>sw_mkdir = None, sw_remove = None, sw_listen = None, sw_chmod = None\<rparr>"

theorem anyone_may_ask_witness:
  "\<exists>co. snd (fst (Serve open_world id (\<lambda>_. Inl ''not json'') [Asked (Peer 1000) ''command {}'', ListenerClosed] (True, idle_bridge)))
     = idle_bridge\<lparr>br_console := co\<rparr>"
proof -
  have "\<forall>p line. Asked p line \<in> set [Asked (Peer 1000) ''command {}'', ListenerClosed] \<longrightarrow> peerUID p \<noteq> Inr 0"
    by (simp add: peerUID_def)
  moreover have "sw_mkdir open_world = None" "sw_remove open_world = None" by (simp_all add: open_world_def)
  ultimately show ?thesis
    using anyone_may_ask [of open_world _ id "\<lambda>_. Inl ''not json''" idle_bridge] by blast
qed

definition watched_bridge :: bridge where
  "watched_bridge = idle_bridge\<lparr>br_config := (br_config idle_bridge)\<lparr>cf_monitor_port := 4000\<rparr>\<rparr>"

theorem watchers_only_watch_witness:
  "\<exists>mo. br_monitors (fst (serveMonitor None [WatcherCame 1, WatcherTyped 1 ''M3 S1000''] True watched_bridge)) = mo \<and> mo_subs mo = []"
  using watchers_only_watch [of None "[WatcherCame 1, WatcherTyped 1 ''M3 S1000'']" True watched_bridge]
  by (auto simp: watched_bridge_def)

end
