(* ===== verification/Update_Targets.thy ===== *)
theory Update_Targets
  imports Update
begin

text \<open>
  Where \<open>backend/internal/update/update.go\<close> writes: the names a manager is given or falls back to,
  and \<open>resolveTargets\<close>, which finds the boot partition, mounts it, and has it unmounted when the
  operation is over. What \<open>findfs\<close> and \<open>mount\<close> answer is an argument; commands are recorded in
  the order they are run.
\<close>

section \<open>Names\<close>

record update_names =
  un_data :: string
  un_runtime :: string
  un_version :: string
  un_cmdline :: string
  un_boot :: string
  un_root_a :: string
  un_root_b :: string
  un_authorized :: string

definition update_data_dir :: "update_names \<Rightarrow> string" where
  "update_data_dir m = (if un_data m \<noteq> [] then un_data m else ''/data'')"

definition update_runtime_dir :: "update_names \<Rightarrow> string" where
  "update_runtime_dir m = (if un_runtime m \<noteq> [] then un_runtime m else ''/run/laserbridge'')"

definition version_path :: "update_names \<Rightarrow> string" where
  "version_path m = (if un_version m \<noteq> [] then un_version m else ''/etc/laserbridge/version'')"

definition cmdline_path :: "update_names \<Rightarrow> string" where
  "cmdline_path m = (if un_cmdline m \<noteq> [] then un_cmdline m else ''/proc/cmdline'')"

definition authorized_keys_path :: "update_names \<Rightarrow> string" where
  \<comment> \<open>\<open>filepath.Join\<close> with a clean directory\<close>
  "authorized_keys_path m =
     (if un_authorized m \<noteq> [] then un_authorized m else update_data_dir m @ ''/ssh/authorized_keys'')"

definition state_path :: "update_names \<Rightarrow> string" where
  "state_path m = update_data_dir m @ ''/update/state.json''"

section \<open>Finding the partitions\<close>

record target_world =
  tg_findfs :: "string + string"
  tg_mkdir :: "string option"
  tg_mount :: "string option"

datatype target_error = NotLocated string | UnexpectedDevice | NoMountPoint string | NotMounted string

record targets =
  tt_boot :: string
  tt_root_a :: string
  tt_root_b :: string
  tt_cleanup :: "string list list"

definition findfs_command :: "string list" where "findfs_command = [''findfs'', ''LABEL=LBBOOT'']"

definition mount_command :: "string \<Rightarrow> string \<Rightarrow> string list" where
  "mount_command device dir = [''mount'', ''-t'', ''vfat'', ''-o'', ''rw,nosuid,nodev,noexec'', device, dir]"

definition mount_point :: "update_names \<Rightarrow> string" where
  "mount_point m = update_runtime_dir m @ ''/update-boot''"

definition resolveTargets :: "update_names \<Rightarrow> target_world \<Rightarrow> string list list \<times> (target_error + targets)" where
  "resolveTargets m w =
     (if un_boot m \<noteq> [] \<and> un_root_a m \<noteq> [] \<and> un_root_b m \<noteq> [] then
        ([], Inr \<lparr>tt_boot = un_boot m, tt_root_a = un_root_a m, tt_root_b = un_root_b m, tt_cleanup = []\<rparr>)
      else
        (case tg_findfs w of
           Inl e \<Rightarrow> ([findfs_command], Inl (NotLocated (trim_space e)))
         | Inr answer \<Rightarrow>
             (let device = trim_space answer in
              if \<not> has_prefix device ''/dev/'' \<or> \<not> has_suffix device ''1'' then ([findfs_command], Inl UnexpectedDevice)
              else
                (let base = trim_suffix device ''1''; dir = mount_point m in
                 case tg_mkdir w of
                   Some e \<Rightarrow> ([findfs_command], Inl (NoMountPoint e))
                 | None \<Rightarrow>
                     (let past = [findfs_command, mount_command device dir] in
                      case tg_mount w of
                        Some e \<Rightarrow> (past, Inl (NotMounted (trim_space e)))
                      | None \<Rightarrow>
                          (past, Inr \<lparr>tt_boot = dir, tt_root_a = base @ ''2'', tt_root_b = base @ ''3'',
                                     tt_cleanup = [[''umount'', dir]]\<rparr>))))))"

definition root_target :: "targets \<Rightarrow> string \<Rightarrow> string" where
  "root_target t slot = (if slot = ''b'' then tt_root_b t else tt_root_a t)"

text \<open>An operation on the targets: found first, cleaned up after whatever it comes to.\<close>

definition with_targets ::
    "update_names \<Rightarrow> target_world \<Rightarrow> (bool \<Rightarrow> flash \<Rightarrow> flash \<times> 'r) \<Rightarrow> flash \<Rightarrow> (flash \<times> 'r) \<times> string list list" where
  "with_targets m w operation f =
     (case resolveTargets m w of
        (past, Inl _) \<Rightarrow> (operation False f, past)
      | (past, Inr t) \<Rightarrow> (operation True f, past @ tt_cleanup t))"

section \<open>What is mounted\<close>

text \<open>The file systems mounted after a list of commands, the latest first, given whether mounts fail.\<close>

definition mounted_after :: "bool \<Rightarrow> string list list \<Rightarrow> string list \<Rightarrow> string list" where
  "mounted_after fails cs mounted =
     fold (\<lambda>c ms. if hd c = ''mount'' \<and> \<not> fails then last c # ms
                  else if hd c = ''umount'' then remove1 (last c) ms else ms) cs mounted"

lemma trim_suffix_append: "has_suffix s p \<Longrightarrow> trim_suffix s p @ p = s"
  by (auto simp: trim_suffix_def has_suffix_def suffix_def)

lemma resolved_partitions:
  assumes "resolveTargets m w = (past, Inr t)" and "un_boot m = [] \<or> un_root_a m = [] \<or> un_root_b m = []"
  obtains base where "past = [findfs_command, mount_command (base @ ''1'') (tt_boot t)]"
    and "prefix ''/dev/'' (base @ ''1'')" and "tt_root_a t = base @ ''2''" and "tt_root_b t = base @ ''3''"
    and "tt_cleanup t = [[''umount'', tt_boot t]]" and "tg_mount w = None"
proof -
  obtain answer where found: "tg_findfs w = Inr answer" and device: "has_prefix (trim_space answer) ''/dev/''"
      "has_suffix (trim_space answer) ''1''" and free: "tg_mkdir w = None" "tg_mount w = None"
    using assms by (auto simp: resolveTargets_def Let_def split: if_splits sum.splits option.splits)
  have "trim_suffix (trim_space answer) ''1'' @ ''1'' = trim_space answer" using device(2) by (rule trim_suffix_append)
  then show thesis
    using assms found device free
    by (intro that [of "trim_suffix (trim_space answer) ''1''"])
      (auto simp: resolveTargets_def Let_def has_prefix_def split: if_splits)
qed

lemma nothing_mounted_on_failure:
  assumes "resolveTargets m w = (past, Inl e)"
  shows "mounted_after (tg_mount w \<noteq> None) past mounted = mounted"
  using assms
  by (auto simp: resolveTargets_def Let_def mounted_after_def findfs_command_def mount_command_def
      split: if_splits sum.splits option.splits)

text \<open>
  An update is written beside what runs, and what it mounts it unmounts. Unless the three places
  are given, the slots and the boot partition are three different partitions of one disk, and the
  boot partition is the one that is mounted; and whatever an operation on them comes to,
  and wherever the search for them ends, exactly what was mounted before is mounted after.
\<close>

theorem targets_share_a_disk_and_nothing_stays_mounted:
  assumes "un_boot m = [] \<or> un_root_a m = [] \<or> un_root_b m = []"
  shows "(case resolveTargets m w of
        (past, Inr t) \<Rightarrow>
          (\<exists>base. past = [findfs_command, mount_command (base @ ''1'') (tt_boot t)] \<and> prefix ''/dev/'' (base @ ''1'')
             \<and> root_target t ''a'' = base @ ''2'' \<and> root_target t ''b'' = base @ ''3''
             \<and> distinct [base @ ''1'', root_target t ''a'', root_target t ''b''])
      | (past, Inl e) \<Rightarrow> snd (with_targets m w operation f) = past)
    \<and> mounted_after (tg_mount w \<noteq> None) (snd (with_targets m w operation f)) mounted = mounted"
proof (cases "resolveTargets m w")
  case (Pair past r)
  show ?thesis
  proof (cases r)
    case (Inl e)
    then show ?thesis using Pair nothing_mounted_on_failure [of m w past e] by (simp add: with_targets_def)
  next
    case (Inr t)
    then obtain base where t: "past = [findfs_command, mount_command (base @ ''1'') (tt_boot t)]"
        "prefix ''/dev/'' (base @ ''1'')" "tt_root_a t = base @ ''2''" "tt_root_b t = base @ ''3''"
        "tt_cleanup t = [[''umount'', tt_boot t]]" "tg_mount w = None"
      using resolved_partitions [OF _ assms] Pair by metis
    then have "mounted_after (tg_mount w \<noteq> None) (past @ tt_cleanup t) mounted = mounted"
      by (simp add: mounted_after_def findfs_command_def mount_command_def)
    then show ?thesis using t Pair Inr by (simp add: with_targets_def root_target_def)
  qed
qed

definition disk_found :: target_world where
  "disk_found = \<lparr>tg_findfs = Inr ''/dev/sda1'', tg_mkdir = None, tg_mount = None\<rparr>"

definition no_names :: update_names where
  "no_names = \<lparr>un_data = [], un_runtime = [], un_version = [], un_cmdline = [], un_boot = [], un_root_a = [],
     un_root_b = [], un_authorized = []\<rparr>"

theorem targets_share_a_disk_and_nothing_stays_mounted_witness:
  "\<forall>f. mounted_after False (snd (with_targets no_names disk_found (\<lambda>found f. (f, found)) f)) [''/data''] = [''/data'']"
proof
  fix f
  have "un_boot no_names = [] \<or> un_root_a no_names = [] \<or> un_root_b no_names = []" by (simp add: no_names_def)
  from targets_share_a_disk_and_nothing_stays_mounted [OF this, where w = disk_found and mounted = "[''/data'']"
      and operation = "\<lambda>found f. (f, found)" and f = f]
  show "mounted_after False (snd (with_targets no_names disk_found (\<lambda>found f. (f, found)) f)) [''/data''] = [''/data'']"
    by (elim conjE) (simp add: disk_found_def)
qed

end
