(* ===== verification/Api_Overview.thy ===== *)
theory Api_Overview
  imports Api_Status Api_Setup
begin

text \<open>
  The read-only rest of the web backend: the page the wizard starts from (\<open>api/setup.go\<close>,
  \<open>setupStatus\<close>), the addresses of the appliance (\<open>api/server.go\<close>, \<open>uniqueAddresses\<close>) and the space
  on the disk (\<open>api/status.go\<close>, \<open>storage\<close>). What the kernel answers, and \<open>net.ParseCIDR\<close> with the
  text of an address, is an argument.
\<close>

section \<open>The wizard's first page\<close>

record setup_page =
  se_required :: bool
  se_ap_ssid :: string
  se_ap_password :: string
  se_key_available :: bool
  se_user :: string
  se_hostname :: string
  se_country :: string
  se_password_login :: bool
  se_min_password :: nat
  se_default_password :: string

definition setup_page_of :: "web_server \<Rightarrow> appliance \<Rightarrow> config \<Rightarrow> setup_page" where
  "setup_page_of ws a c =
     \<lparr>se_required = (\<not> sys_setup_complete (cg_system c)),
      se_ap_ssid = read_trimmed (ap_files a (data_file ws ''setup/ap_ssid'')),
      se_ap_password = SetupAPPassword,
      se_key_available = (ap_files a (data_file ws ''setup/laserbridge_ed25519'') \<noteq> None),
      se_user = ''laserbridge'', se_hostname = sys_hostname (cg_system c), se_country = wifi_country (cg_wifi c),
      se_password_login = ssh_password (cg_ssh c), se_min_password = MinPasswordLength,
      se_default_password = defaultPasswordIfUnchanged c\<rparr>"

definition setupStatus :: "web_server \<Rightarrow> appliance \<Rightarrow> (int \<times> string) + setup_page" where
  "setupStatus ws a =
     (case stored ws a of
        Inl e \<Rightarrow> Inl (500, store_error_text e)
      | Inr c \<Rightarrow> Inr (setup_page_of ws a c))"

lemma wizard_page_tells_the_truth:
  assumes "setupStatus ws a = Inr p"
  shows "se_required p \<or> completeSetup ws crypt (Inr rq) a = (a, Failure 409 ''initial setup is already complete'', [])
      \<and> setupSSHKey ws a = Failure 410 ''initial SSH key is no longer available'' \<and> se_default_password p = []"
  using assms
  by (auto simp: setupStatus_def setup_page_of_def completeSetup_def setupSSHKey_def defaultPasswordIfUnchanged_def
      split: sum.splits)

text \<open>The password that is shown is the shipped one even where it has been changed before the set-up.\<close>

lemma default_shown_though_changed:
  assumes "stored ws a = Inr c" and "\<not> sys_setup_complete (cg_system c)"
  shows "\<exists>p. setupStatus ws a = Inr p \<and> se_default_password p = ''laserbridge''"
  using assms by (simp add: setupStatus_def setup_page_of_def defaultPasswordIfUnchanged_def)

section \<open>Addresses\<close>

record network_interface =
  nf_up :: bool
  nf_loopback :: bool
  nf_addresses :: "string list"

definition listed_address :: "(string \<Rightarrow> (string \<times> bool) option) \<Rightarrow> string \<Rightarrow> string list \<Rightarrow> string list" where
  \<comment> \<open>the text of an address and whether it is a global unicast one\<close>
  "listed_address parse s found =
     (case parse s of
        Some (ip, True) \<Rightarrow> if ip \<in> set found then found else found @ [ip]
      | _ \<Rightarrow> found)"

definition uniqueAddresses :: "(string \<Rightarrow> (string \<times> bool) option) \<Rightarrow> network_interface list \<Rightarrow> string list" where
  "uniqueAddresses parse interfaces =
     fold (\<lambda>i found. if nf_loopback i \<or> \<not> nf_up i then found else fold (listed_address parse) (nf_addresses i) found)
       interfaces []"

lemma listed_addresses:
  "set (fold (listed_address parse) ss found) = set found \<union> {ip. \<exists>s \<in> set ss. parse s = Some (ip, True)}"
  "distinct found \<Longrightarrow> distinct (fold (listed_address parse) ss found)"
  by (induction ss arbitrary: found) (auto simp: listed_address_def split: option.split bool.split)

text \<open>
  The page lists every address the appliance can be reached at, once: the global unicast
  addresses of its interfaces that are up and not the loopback.
\<close>

theorem every_address_is_listed_once:
  "distinct (uniqueAddresses parse interfaces)
   \<and> set (uniqueAddresses parse interfaces) =
       {ip. \<exists>i \<in> set interfaces. nf_up i \<and> \<not> nf_loopback i \<and> (\<exists>s \<in> set (nf_addresses i). parse s = Some (ip, True))}"
proof -
  let ?f = "\<lambda>i found. if nf_loopback i \<or> \<not> nf_up i then found else fold (listed_address parse) (nf_addresses i) found"
  have apart: "distinct found \<longrightarrow> distinct (fold ?f is found)"
    and all: "set (fold ?f is found) = set found \<union>
       {ip. \<exists>i \<in> set is. nf_up i \<and> \<not> nf_loopback i \<and> (\<exists>s \<in> set (nf_addresses i). parse s = Some (ip, True))}" for "is" found
    by (induction "is" arbitrary: found) (auto simp: listed_addresses)
  from apart [of "[]" interfaces] all [of interfaces "[]"] show ?thesis by (simp add: uniqueAddresses_def)
qed

section \<open>Space\<close>

definition storage :: "(64 word \<times> 64 word \<times> 64 word) option \<Rightarrow> 64 word \<times> 64 word" where
  \<comment> \<open>blocks available, blocks and the size of a block; nothing where \<open>Statfs\<close> fails\<close>
  "storage stat =
     (case stat of
        None \<Rightarrow> (0, 0)
      | Some (free, blocks, block) \<Rightarrow> (free * block, blocks * block))"

end
