(* ===== verification/Spec2Isabelle.thy ===== *)
theory Spec2Isabelle
  imports Api_Guards Attempts Config_Store Update_Facts Atomic_File Bridge_Watch Api_Update_Facts Api_Server First_Boot Journal_File Api_Static
    Commands Serial_Port Accept_Gate Listeners Update_Targets Api_Overview
begin

text \<open>
  This library models the Go program of LaserBridgeOS, an appliance that puts a GRBL laser
  controller, attached by USB, on the network. Two programs run on it. \<open>laserbridged\<close>
  (\<open>backend/internal/proxy\<close> and \<open>grbl\<close>) owns the serial port, passes the bytes of one TCP client
  through, reads along, and acts when the client goes away or the laser is left on.
  \<open>laserbridge\<close> (\<open>backend/internal/api\<close>, \<open>config\<close>, \<open>runtime\<close>, \<open>update\<close>) serves the web interface,
  keeps the configuration, tells the other services of it, and updates the appliance. They talk
  over a Unix socket on which the daemon answers one line at a time.

  \<^bold>\<open>Go itself.\<close> A \<open>string\<close> or \<open>[]byte\<close> is a list of bytes, \<open>int\<close> an \<open>int\<close> wrapped to 64 bits where the
  code can overflow it, sequence numbers are \<open>64 word\<close>, instants and durations are nanoseconds.
  An error is a value of a datatype or of \<open>option\<close>. \<open>Prelude\<close> holds the shared vocabulary and two
  contracts as locales: \<open>bounded_log\<close>, which the journal, the console and the line tail interpret,
  and \<open>renewable_lease\<close>, which the aiming beam and the recording of the console interpret; \<open>GoLib\<close>, \<open>GoFloat\<close>, \<open>GoTime\<close>, \<open>GoQuote\<close> and \<open>GoNet\<close> model the parts of \<open>strings\<close>,
  \<open>strconv\<close>, \<open>time\<close> and \<open>net\<close> that the code uses; \<open>Go_Lines\<close> has the lemmas on lines, words and
  numbers that the readers of files and of the socket share.

  \<^bold>\<open>Reading GRBL.\<close> \<open>Grbl_Parse\<close> (\<open>grbl/parse.go\<close>) parses a line; \<open>Grbl_Observer\<close>
  (\<open>grbl/observer.go\<close>) assembles lines from chunks and keeps what the machine last said. The lemmas
  say that chunks do not matter, that every complete line is read as \<open>Parse\<close> reads it, and that a
  printed status line is read back.

  \<^bold>\<open>Deciding and acting.\<close> \<open>Safety\<close> (\<open>proxy/safety.go\<close>) is the pure decision ladder; \<open>Intervene\<close>
  (\<open>intervene.go\<close>) carries it out; \<open>Supervise\<close> (\<open>supervise.go\<close>) is one turn of the watch; \<open>Control\<close>
  and \<open>Operator\<close> (\<open>control.go\<close>) are what an operator may ask for. The loop of \<open>intervene\<close> is bounded
  by five in the code and in the model; the locale \<open>escalation\<close>
  of \<open>Safety\<close>, interpreted on \<open>Decide\<close>, shows that the ladder itself ends. What happens
  while a step waits is a script of happenings, universally quantified in the theorems.

  \<^bold>\<open>Remembering.\<close> \<open>Line_Tail\<close> and \<open>Journal\<close> (\<open>journal.go\<close>), \<open>Console\<close> (\<open>console.go\<close>), \<open>Monitor\<close>
  (\<open>monitor.go\<close>) and \<open>Job\<close> (\<open>job.go\<close>) record what was said and done. \<open>Journal_File\<close> is the journal on
  the disk: what a batch writes, the two generations of the file, and what the next start reads
  back. The disk is a sequence of answers, universally quantified in the theorems.

  \<^bold>\<open>The bridge as a system.\<close> \<open>Bridge\<close> (\<open>bridge.go\<close>) has the state and what its goroutines do to it;
  \<open>Bridge_System\<close> makes them the steps of an inductive relation over the bridge and a world that
  accepts or refuses writes, in any order, and proves invariants through the locales
  \<open>world_invariant\<close> and \<open>bridge_invariant\<close>, interpreted for the wire, the buffers, the configuration
  and the bridge's own commands. A critical section
  of the code is one step. \<open>sendLines\<close>, whose check and write are not one critical section, is
  one step here too; \<open>guard_is_only_a_check\<close> shows what the code allows in between.
  \<open>Accept_Gate\<close> has the goroutines of \<open>Run\<close> around the bridge: the loop that keeps the port open,
  the questions to the controller and the gate at which connections wait, again as an inductive
  relation, with what else happens to the bridge left open but for the gate, the port and the client.
  \<open>Status_Socket\<close> (\<open>statussocket.go\<close>) is the answer to one line of the socket, \<open>Listeners\<close> the
  socket itself, with who is at the other end, and the monitor port. \<open>Serial_Port\<close>
  (\<open>serial/serial.go\<close>) is how the port is found and set up, on words of 32 bits.

  \<^bold>\<open>The programs.\<close> \<open>Commands\<close> (\<open>cmd/laserbridge\<close>, \<open>cmd/laserbridged\<close>) is what each command does with
  the other parts; its lemmas say that after a boot all of them run on one configuration.

  \<^bold>\<open>The configuration.\<close> \<open>Config\<close> (\<open>config/config.go\<close>) holds the settings and every rule of
  \<open>Validate\<close>, \<open>Config_Yaml\<close> (\<open>yaml.go\<close>) the reader and the writer, \<open>Config_Store\<close> (\<open>store.go\<close>) the
  file. \<open>Config_Facts\<close> proves the round trip for every configuration whose lines stay below the
  64 kB the reader's scanner takes, which all with strings up to 16000 bytes do (a byte becomes
  at most four). \<open>Atomic_File\<close> (\<open>atomicfile.go\<close>) has the steps of replacing a file.

  \<^bold>\<open>The appliance.\<close> \<open>Appliance\<close> (\<open>runtime/runtime.go\<close>) is \<open>Apply\<close>, with every file it renders,
  \<open>Accounts\<close> the account database, \<open>Usb_Policy\<close> (\<open>usb.go\<close>) the kernel's USB attributes and
  \<open>Bridge_Watch\<close> (\<open>bridgewatch.go\<close>) the watch that restarts a hung daemon. \<open>Update\<close> (\<open>update.go\<close>) is
  the verification and installation of a bundle as a list of effects that may be cut short
  anywhere, together with \<open>build/grub.cfg\<close>, which decides what boots. \<open>First_Boot\<close> (\<open>InitData\<close>) is the
  list of steps a boot takes, each of which may end it. \<open>Watchdog\<close> (\<open>watchdog.go\<close>) is the hardware's
  last resort over a script of ticks. \<open>Update_Targets\<close> is where an update is written and what is
  mounted for it.

  \<^bold>\<open>The web backend.\<close> \<open>Attempts\<close> and \<open>Api_Guards\<close> (\<open>api/attempts.go\<close>, \<open>busy.go\<close>, \<open>control.go\<close>) guard
  passwords and a machine at work; \<open>Api_Config\<close> (\<open>server.go\<close>) replaces the configuration;
  \<open>Api_Setup\<close> (\<open>setup.go\<close>) is the wizard, the Wi-Fi and the password, and \<open>Api_Setup_Facts\<close> proves
  what any sequence of these requests keeps. The server's mutex makes a handler one step.
  \<open>Api_Server\<close> is the door in front of them: routes, tokens, services, the log. \<open>Api_Update\<close>
  (\<open>api/update.go\<close>, and the signature check of \<open>update/update.go\<close>) takes an upload apart part by
  part; \<open>Api_Update_Facts\<close> proves who can have a firmware installed and that no part stays.
  \<open>Api_Status\<close> (\<open>status.go\<close>) is the page that says what runs, read out of \<open>/proc\<close>; \<open>Api_Devices\<close>
  (\<open>devices.go\<close>) what was found on the air and on the bus; \<open>Api_Static\<close> (\<open>static.go\<close>) the files of the
  web page. \<open>Api_Grbl\<close> (\<open>grbl.go\<close> and the client side of \<open>statussocket.go\<close>) asks the daemon, and is
  composed with \<open>Status_Socket\<close>: what the pages show is what the bridge holds. \<open>Api_Overview\<close> is the
  wizard's first page and the addresses.

  \<^bold>\<open>Parameters.\<close> What is not code of the repository is an argument: the operating system's answers,
  the clock, the JSON decoder, SHA-256, \<open>cryptpw\<close>, which runes are printable. What is assumed of
  them is a named hypothesis (\<open>crypt_documented\<close>, \<open>tags_apart\<close>), with an instance in the witness.

  \<^bold>\<open>Not modelled.\<close> The waits between two attempts and the scheduling of goroutines (their order is
  universally quantified instead), system calls (their answers are arguments), the JSON encoding of
  requests, answers and events, \<open>Bridge.softReset\<close> of \<open>intervene.go\<close> (nothing calls it),  the time limits of the HTTP server, \<open>peercred_other.go\<close>, log
  output but where a claim needs it, the shell scripts and the web page: they are input and output
  around what is modelled, or not Go.
\<close>

section \<open>What may reach the controller\<close>


definition quiet_config :: "string \<Rightarrow> bridge_config" where
  "quiet_config policy =
     \<lparr>cf_device = [], cf_baudrate = 115200, cf_port = 23, cf_kick_old_client = False,
      cf_device_retry = 0, cf_on_disconnect = policy, cf_hold_settle = 0, cf_probe_identify = 0,
      cf_beam_confirm = 0, cf_silence_after = 0, cf_client_write_timeout = 0, cf_journal_path = [],
      cf_monitor_port = 0, cf_beam_grace = 0, cf_stationary_beam = 0, cf_idle_poll = 0\<rparr>"

definition visitor :: conn where "visitor = Conn 1 ''10.0.0.2:5000''"

definition opened :: "string \<Rightarrow> bridge" where
  "opened policy = port_opened ''tty'' (New (quiet_config policy) 0)"

definition attended :: bridge where
  "attended = client_arrives visitor (opened ''hold'')"

definition attended_entry :: wire_entry where
  "attended_entry =
     \<lparr>we_origin = FromClient visitor, we_bytes = ''?'', we_client = Some visitor,
      we_reading = br_machine attended\<rparr>"

lemma attended_reachable:
  "reachable (quiet_config ''hold'') (new_watcher, attended)"
  "reachable (quiet_config ''hold'') (new_watcher, client_sends visitor ''?'' attended)"
proof -
  let ?c = "quiet_config ''hold''"
  have start: "reachable ?c (new_watcher, New ?c 0)" by (rule reachable_start)
  have "reachable ?c (new_watcher, opened ''hold'')"
    unfolding opened_def
    by (rule reachable_step [OF start step_opened]) (simp_all add: New_def)
  from reachable_step [OF this step_happen [where h = "Arrives visitor"]]
  show attended: "reachable ?c (new_watcher, attended)" by (simp add: attended_def)
  from reachable_step [OF this step_happen [where h = "Sends visitor ''?''"]]
  show "reachable ?c (new_watcher, client_sends visitor ''?'' attended)" by simp
qed

lemma attended_fields:
  "br_client attended = Some visitor" "br_port attended = Some ''tty''"
  "wo_port_error (br_world attended) = None" "wo_closed (br_world attended) = []"
  "br_wire attended = []" "wo_broken (br_world attended) = []" "wo_stalled (br_world attended) = []"
  "br_stopping attended = False" "wo_received (br_world attended) = []"
  by (simp_all add: attended_def opened_def client_arrives_def port_opened_def beginProbe_def
      bookkeeping_defs New_def Let_def)

lemma attended_wire: "br_wire (client_sends visitor ''?'' attended) = [attended_entry]"
  by (simp add: client_sends_def client_data_def attended_fields port_Write_def transcribed_def
      Let_def attended_entry_def)



definition burning :: bridge where
  \<comment> \<open>the client has left a machine in a hold, with the beam reported on\<close>
  "burning =
     happens [Arrives visitor, Heard (''<Hold|Ov:1,1,1|A:S>'' @ [CHR 0x0A]), Leaves visitor None]
       (opened ''hold'')"

definition put_out :: bridge where
  "put_out = onClientGone [] visitor (burning\<lparr>br_leaving := []\<rparr>)"

lemma happens_reachable:
  "reachable c (w, b) \<Longrightarrow> reachable c (w, happens hs b)"
proof (induction hs arbitrary: b)
  case Nil
  then show ?case by (simp add: happens_def)
next
  case (Cons h hs)
  from Cons.IH [OF reachable_step [OF Cons.prems step_happen [of _ _ h]]] show ?case
    by (simp add: happens_def)
qed

definition burning_report :: string where
  "burning_report = ''<Hold|Ov:1,1,1|A:S>'' @ [CHR 0x0A]"

lemma burning_unfold:
  "burning = client_leaves visitor None (device_output burning_report attended)"
  by (simp add: burning_def happens_def attended_def burning_report_def)
    (simp add: attended_def [symmetric] attended_fields)

lemma burning_fields:
  "br_leaving burning = [visitor]" "br_port burning = Some ''tty''" "br_client burning = None"
  "br_stopping burning = False" "wo_port_error (br_world burning) = None"
  "br_config burning = with_defaults (quiet_config ''hold'')" "am_until (br_aim burning) = None"
  "br_now burning = 0" "br_dropped_by_us burning = None" "br_wire burning = []"
proof -
  let ?r = "device_output burning_report attended"
  have "connections ?r = connections attended" by (rule device_output_connections)
  moreover have "br_leaving attended = []" "br_config attended = with_defaults (quiet_config ''hold'')"
      "br_aim attended = no_aim" "br_now attended = 0" "br_dropped_by_us attended = None"
    by (simp_all add: attended_def opened_def client_arrives_def port_opened_def beginProbe_def
        bookkeeping_defs New_def Let_def)
  ultimately have r: "br_leaving ?r = []" "br_port ?r = Some ''tty''" "br_client ?r = Some visitor"
      "br_stopping ?r = False" "br_config ?r = with_defaults (quiet_config ''hold'')" "br_aim ?r = no_aim"
      "br_dropped_by_us ?r = None" "br_now ?r = 0" "wo_port_error (br_world ?r) = None" "br_wire ?r = []"
    using attended_fields device_output_frame [of burning_report attended]
    by (simp_all add: connections_def)
  then show "br_leaving burning = [visitor]" "br_port burning = Some ''tty''" "br_client burning = None"
    "br_stopping burning = False" "wo_port_error (br_world burning) = None"
    "br_config burning = with_defaults (quiet_config ''hold'')" "am_until (br_aim burning) = None"
    "br_now burning = 0" "br_dropped_by_us burning = None" "br_wire burning = []"
    by (simp_all add: burning_unfold client_leaves_def bookkeeping_defs Let_def no_aim_def)
qed

lemma burning_machine: "mc_beam (br_machine burning) = BeamOn \<and> mc_state (br_machine burning) = StateHold"
proof -
  have "br_observer attended = observer_Reset NewObserver" "br_now attended = 0"
    by (simp_all add: attended_def opened_def client_arrives_def port_opened_def beginProbe_def
        bookkeeping_defs New_def Let_def)
  moreover have "br_observer (client_leaves c err x) = br_observer x" for c err x
    by (simp add: client_leaves_def bookkeeping_defs Let_def split: option.splits)
  ultimately have "br_observer burning = fst (observer_Write 0 burning_report (observer_Reset NewObserver))"
    by (simp add: burning_unfold device_output_frame(1))
  moreover have "mc_beam (ob_machine (fst (observer_Write 0 burning_report (observer_Reset NewObserver)))) = BeamOn"
      "mc_state (ob_machine (fst (observer_Write 0 burning_report (observer_Reset NewObserver)))) = StateHold"
    by code_simp+
  ultimately show ?thesis by simp
qed

lemma put_out_reachable: "reachable (quiet_config ''hold'') (new_watcher, put_out)"
proof -
  have "reachable (quiet_config ''hold'') (new_watcher, opened ''hold'')"
    unfolding opened_def
    by (rule reachable_step [OF reachable_start step_opened]) (simp_all add: New_def)
  from happens_reachable [OF this] have "reachable (quiet_config ''hold'') (new_watcher, burning)"
    by (simp add: burning_def)
  moreover have "br_leaving burning = [visitor]" using burning_fields by simp
  ultimately show ?thesis
    unfolding put_out_def by (rule reachable_step [OF _ step_gone])
qed

lemma put_out_sends: "\<exists>e \<in> set (br_wire put_out). we_origin e = Own \<and> we_bytes e = [spindleStop]"
proof -
  let ?b = "burning\<lparr>br_leaving := []\<rparr>"
  have policy: "cf_on_disconnect (br_config ?b) = ''hold''"
    by (simp add: burning_fields with_defaults_def quiet_config_def)
  have step: "Decide (situation_now TriggerClientGone nothing_tried ?b) =
      deciding StepSpindleStop False ''the beam is still on; stopping the spindle output''"
    using policy burning_machine
    by (simp add: situation_now_def Decide_def DisconnectNone_def nothing_tried_def)
  have five: "(5::nat) = Suc 4" by simp
  obtain cs where "own_commands (intervene [] TriggerClientGone ''the client disconnected'' ?b) =
      own_commands ?b @ spindleStop # cs"
    using intervene_loop_acts [of ?b TriggerClientGone 4 "[]" "''the client disconnected''"] step
    unfolding intervene_def five
    by (auto simp: aborted_def burning_fields commanding_def step_byte_def)
  then have "spindleStop \<in> set (own_commands put_out)"
    by (simp add: put_out_def onClientGone_def Let_def aborted_def burning_fields)
  then obtain e where e: "e \<in> set (br_wire put_out)" "we_origin e = Own" "spindleStop \<in> set (we_bytes e)"
    by (auto simp: own_commands_def)
  have "wire_ok put_out" using wire.keep_reachable [OF put_out_reachable] wire_ok_New by simp
  with e(1) have "entry_ok e" by (simp add: wire_ok_def)
  with e have "we_bytes e = [spindleStop]" by (auto simp: entry_ok_def)
  with e show ?thesis by blast
qed


text \<open>
  C3: every intervention, whatever happens while it runs, sends the commands of a climb of the
  decision ladder, one byte per rung and in its order: it refines the pure decision, and no
  command is sent twice.
\<close>

theorem intervention_climbs_the_ladder:
  "\<exists>as rs. prefix rs (ladder (cf_on_disconnect (br_config b)) trig nothing_tried as)
     \<and> set rs \<subseteq> commands \<and> distinct rs
     \<and> own_commands (intervene scripts trig why b) = own_commands b @ map step_byte rs"
proof -
  obtain as rs where "prefix rs (ladder (cf_on_disconnect (br_config b)) trig nothing_tried as)"
      "set rs \<subseteq> commands"
      "own_commands (intervene scripts trig why b) = own_commands b @ map step_byte rs"
    using intervene_loop_climbs [of b trig nothing_tried 5 scripts why False]
    by (auto simp: intervene_def)
  moreover from this(1) have "distinct rs"
    using ladder.climb_distinct [of _ trig nothing_tried as]
    by (auto simp: prefix_def ladder_climb dest: arg_cong [where f = distinct])
  ultimately show ?thesis by blast
qed

text \<open>
  The policy none is a promise. Neither a turn of the watch nor the departure of a client
  makes the bridge command the machine; all it ever sends by itself is the status request.
\<close>

theorem none_is_a_promise:
  assumes "cf_on_disconnect (br_config b) = DisconnectNone"
  shows "own_commands (snd (watch_tick busy scripts w b)) = own_commands b
    \<and> own_commands (onClientGone scripts c b) = own_commands b"
proof
  let ?b1 = "fst (writeOwn statusReq b)"
  have polled: "own_commands ?b1 = own_commands b" "br_config ?b1 = br_config b"
    using own_commands_writeOwn [of statusReq b] by simp_all
  show "own_commands (snd (watch_tick busy scripts w b)) = own_commands b"
    using assms polled
    by (auto simp: watch_tick_def Let_def case_prod_beta split: option.splits)
  show "own_commands (onClientGone scripts c b) = own_commands b"
    using assms by (simp add: onClientGone_def Let_def intervene_none)
qed

theorem none_is_a_promise_witness:
  "own_commands (onClientGone [] visitor (opened ''none'')) = own_commands (opened ''none'')"
  using none_is_a_promise [of "opened ''none''"]
  by (simp add: opened_def port_opened_def beginProbe_def bookkeeping_defs New_def Let_def
      with_defaults_def quiet_config_def DisconnectNone_def)

section \<open>The watch over an unattended laser\<close>

lemma writeOwn_frame:
  "br_port (fst (writeOwn c b)) = br_port b" "br_client (fst (writeOwn c b)) = br_client b"
  "br_observer (fst (writeOwn c b)) = br_observer b" "br_aim (fst (writeOwn c b)) = br_aim b"
  "br_stopping (fst (writeOwn c b)) = br_stopping b" "br_now (fst (writeOwn c b)) = br_now b"
  "wo_port_error (br_world (fst (writeOwn c b))) = wo_port_error (br_world b)"
  by (simp_all add: writeOwn_def port_Write_def transcribed_def Let_def split: option.splits)

text \<open>Of the bridge, what the watch decides by.\<close>

definition watched where
  "watched b = (br_port b, br_client b, br_machine b, br_aim b, br_stopping b, br_now b,
     wo_port_error (br_world b), br_config b)"

lemma watched_parts:
  "watched (snd (watch_silence w b)) = watched b"
  "watched (watch_job m b) = watched b" "watched (b\<lparr>br_injected := ch\<rparr>) = watched b"
  "watched (noted k x b) = watched b"
  by (simp_all add: watched_def watch_silence_def watch_job_def record_job_note_def noted_def
      journal_event_def Let_def case_prod_beta)

lemma watched_lease: "am_until (br_aim b) = None \<Longrightarrow> watch_lease b = b"
  by (simp add: watch_lease_def aim_expired_def)

text \<open>
  C6: unless the policy is none, a beam that has been on for longer than the grace period with
  nobody connected and nobody aiming does not survive a turn of the watch unchallenged: if the
  port takes writes, the turn sends a command to the machine.
\<close>

theorem unattended_beam_is_acted_on:
  assumes "br_port b \<noteq> None" and "br_client b = None" and "\<not> br_stopping b"
    and "wo_port_error (br_world b) = None"
    and "cf_on_disconnect (br_config b) \<noteq> DisconnectNone"
    and "mc_beam (br_machine b) = BeamOn" and "am_until (br_aim b) = None"
    and "wa_beam_on_since w = Some t" and "cf_beam_grace (br_config b) < br_now b - t"
  shows "own_commands (snd (watch_tick False scripts w b)) \<noteq> own_commands b"
proof -
  obtain path where port: "br_port b = Some path" using assms(1) by blast
  let ?quiet = "Quiet (br_observer b) (br_now b) (cf_idle_poll (br_config b))"
  let ?b1 = "if ?quiet then fst (writeOwn statusReq b) else b"
  obtain w2 b2 where silence: "watch_silence w ?b1 = (w2, b2)" by fastforce
  let ?m = "br_machine b2" and ?now = "br_now b2"
  let ?b3 = "watch_job ?m (b2\<lparr>br_injected := forgetStaleLines ?now (br_injected b2)\<rparr>)"
  have b1: "watched ?b1 = watched b"
    by (simp add: watched_def writeOwn_frame)
  have b2: "watched b2 = watched b"
    using watched_parts(1) [of w ?b1] silence b1 by simp
  have b3: "watched ?b3 = watched b" using b2 by (simp add: watched_parts)
  then have lease: "watch_lease ?b3 = ?b3"
    using assms(7) by (intro watched_lease) (simp add: watched_def)
  have since: "wa_beam_on_since (watch_position ?m ?now w2) = Some t"
    using silence assms(8) by (auto simp: watch_silence_def watch_position_def Let_def split: if_splits)
  let ?why = "act_words TriggerBeamUnattended ?m ?now ?b3"
  let ?b5 = "noted ''fault'' ?why ?b3"
  have b5: "watched ?b5 = watched b" using b3 by (simp add: watched_parts)
  have judged: "judge ?m ?now (watch_position ?m ?now w2) ?b3 = Act TriggerBeamUnattended"
    using assms(2,9) b2 b3 since by (simp add: judge_def Let_def since_longer_def watched_def)
  have unfold: "snd (watch_tick False scripts w b) = intervene scripts TriggerBeamUnattended ?why ?b5"
  proof -
    have "(if ?quiet then (case writeOwn statusReq b of (x, Some e) \<Rightarrow> (x, True) | (x, None) \<Rightarrow> (x, False))
        else (b, False)) = (?b1, False)"
      using writeOwn_ok(1) [OF assms(4), of statusReq] by (auto split: prod.splits)
    moreover have "mc_beam ?m = BeamOn" "\<not> aim_live (br_aim ?b3) ?now"
        "cf_on_disconnect (br_config ?b3) \<noteq> DisconnectNone"
      using assms(5-7) b2 b3 by (simp_all add: watched_def aim_live_def)
    ultimately show ?thesis
      using port silence since judged lease
      by (simp add: watch_tick_def Let_def del: watched_parts)
  qed
  let ?s = "situation_now TriggerBeamUnattended nothing_tried ?b5"
  have s: "si_policy ?s \<noteq> DisconnectNone" "si_beam ?s = BeamOn"
    "\<not> td_soft_reset (si_tried ?s)"
    using assms(5,6) b5 by (simp_all add: watched_def situation_now_def nothing_tried_def)
  have cmd: "de_step (Decide ?s) \<in> commands" "\<not> de_wait_for_rest (Decide ?s)"
    using s by (simp_all add: Decide_def commands_def)
  have "own_commands (intervene scripts TriggerBeamUnattended ?why ?b5) \<noteq> own_commands ?b5"
    using cmd assms(3,4) b5
    by (intro intervene_acts) (simp_all add: commanding_iff aborted_def watched_def)
  moreover have "own_commands ?b5 = own_commands b"
    using own_commands_writeOwn [of statusReq b] own_commands_watch_parts(1) [of w ?b1] silence by simp
  ultimately show ?thesis using unfold by simp
qed

theorem unattended_beam_is_acted_on_witness:
  "own_commands (snd (watch_tick False [] (new_watcher\<lparr>wa_beam_on_since := Some (- 2 * second)\<rparr>) burning))
     \<noteq> own_commands burning"
  using burning_fields
    burning_machine
  by (intro unattended_beam_is_acted_on [where t = "- 2 * second"])
    (simp_all add: DisconnectNone_def with_defaults_def quiet_config_def or_default_def)

section \<open>Transparency\<close>

text \<open>
  C29: what an attached client sends goes to the controller at once, complete and unchanged, as
  one write; and it changes nothing else on the wire.
\<close>

theorem client_bytes_unchanged:
  assumes "br_port b = Some path" and "wo_port_error (br_world b) = None" and "data \<noteq> []"
  shows "snd (client_data c data b)
    \<and> br_wire (fst (client_data c data b)) = br_wire b @
        [\<lparr>we_origin = FromClient c, we_bytes = data, we_client = br_client b,
          we_reading = br_machine b\<rparr>]
    \<and> wo_received (br_world (fst (client_data c data b))) = wo_received (br_world b)"
  using assms by (simp add: client_data_def port_Write_def transcribed_def Let_def)

theorem client_bytes_unchanged_witness:
  "br_wire (fst (client_data visitor ''G1 X1!'' attended)) =
     [\<lparr>we_origin = FromClient visitor, we_bytes = ''G1 X1!'', we_client = Some visitor,
       we_reading = br_machine attended\<rparr>]"
  using client_bytes_unchanged [of attended "''tty''" "''G1 X1!''" visitor]
  by (simp add: attended_fields)

text \<open>
  What the controller says reaches an attached client that takes it complete, unchanged and
  before the bridge makes anything of it; reading along writes nothing to the controller.
\<close>

theorem controller_bytes_unchanged:
  assumes "br_client b = Some c" and "hears b c"
  shows "wo_received (br_world (device_output data b)) = wo_received (br_world b) @ [(c, data)]
    \<and> br_wire (device_output data b) = br_wire b
    \<and> br_client (device_output data b) = Some c"
  using assms device_output_frame [of data b] device_output_connections [of data b]
  by (simp add: writeToClient_def deliver_def connections_def)

theorem controller_bytes_unchanged_witness:
  "wo_received (br_world (device_output ''ok'' attended)) = [(visitor, ''ok'')]"
  using controller_bytes_unchanged [of attended visitor "''ok''"]
  by (simp add: attended_fields hears_def)

section \<open>The operator and the client\<close>

text \<open>
  C32: while a client is connected the operator may stop the machine and nothing else: every
  other command is refused and changes nothing at all.
\<close>

theorem client_is_in_charge:
  assumes "br_port b = Some path" and "br_client b = Some c" and "rq_command rq \<noteq> CommandStop"
  shows "Do rq b = (b, Some ErrClientInCharge)"
  using assms by (simp add: Do_def Let_def)

theorem client_is_in_charge_witness:
  "Do far_away attended = (attended, Some ErrClientInCharge)"
  by (rule client_is_in_charge) (simp_all add: attended_fields far_away_def)



text \<open>
  The message a client is dropped with can never be mistaken for a reply: whatever the
  reason says, it is one line, a GRBL message to whoever parses it.
\<close>

theorem takeover_message_is_a_message:
  "\<exists>l. takeover_message why = l @ [CHR 0x0D, CHR 0x0A] \<and> r_kind (Parse l) = KMessage
     \<and> CHR 0x0D \<notin> set l \<and> CHR 0x0A \<notin> set l"
proof (intro exI conjI)
  let ?l = "''[MSG:LaserBridgeOS took over: '' @ oneLine why @ '']''"
  show "takeover_message why = ?l @ [CHR 0x0D, CHR 0x0A]" by (simp add: takeover_message_def)
  have "solid (CHR ''['')" "solid (CHR '']'')" by (simp_all add: solid_def space1_def)
  from trim_space_solid [OF this, of "''MSG:LaserBridgeOS took over: '' @ oneLine why"]
  have "trim_space ?l = ?l" by simp
  moreover have "has_suffix ?l '']''"
    unfolding has_suffix_def
    by (rule suffixI [of _ "''[MSG:LaserBridgeOS took over: '' @ oneLine why"]) simp
  ultimately show "r_kind (Parse ?l) = KMessage"
    by (simp add: Parse_def Let_def has_prefix_def blank_report_def)
  show "CHR 0x0D \<notin> set ?l" "CHR 0x0A \<notin> set ?l" by (auto simp: oneLine_def)
qed

section \<open>Bounds\<close>

text \<open>
  C36: in every run of the system every buffer of the bridge stays within its bound: the journal's
  ring and the queue to the disk, the lines kept as context and the replies waited for, the
  transcript and its unfinished lines, the line being assembled and the slots for lines of our
  own.
\<close>

theorem buffers_stay_bounded:
  assumes "reachable c (w, b)"
  shows "length (Recent 0 (br_journal b)) \<le> 200
    \<and> (\<forall>q. jr_writes (br_journal b) = Some q \<longrightarrow> length q \<le> 256)
    \<and> length (tail_Lines (br_sent b)) \<le> 4 \<and> length (lt_pending (br_sent b)) \<le> 4096
    \<and> length (lt_partial (br_sent b)) \<le> 256
    \<and> length (mo_towards (br_monitors b)) \<le> 256 \<and> length (mo_from (br_monitors b)) \<le> 256
    \<and> length (co_lines (br_console b)) \<le> 400
    \<and> length (ob_line (br_observer b)) \<le> 512
    \<and> length (br_injected b) \<le> 4"
proof -
  have "bounded b" using bounds.keep_reachable [OF assms] bounded_New by simp
  moreover have "length (Recent 0 (br_journal b)) = jr_count (br_journal b)"
    using length_ring_view [of "br_journal b"] by (simp add: ring_view_def)
  ultimately show ?thesis
    by (auto simp: bounded_def ring_ok_def queue_small_def tail_bounded_def tail_small_def
        monitors_small_def console_small_def outstandingLines_def journalDepth_def journalQueue_def
        contextLines_def maxPending_def maxContextLine_def consoleRing_def maxLine_def tail_Lines_def)
qed

theorem buffers_stay_bounded_witness:
  "length (tail_Lines (br_sent attended)) \<le> 4"
  using buffers_stay_bounded [OF attended_reachable(1)] by simp

section \<open>What the order of events can still do\<close>

definition home :: command_request where
  "home = far_away\<lparr>rq_command := CommandHome\<rparr>"

definition homed :: bridge where
  "homed = fst (Do home (opened ''hold''))"

definition crossed :: bridge where
  "crossed =
     happens
       [Arrives visitor, Sends visitor (''G1 X1'' @ [CHR 0x0A]), Heard (''ok'' @ [CHR 0x0A]),
        Sends visitor (''G1 X2'' @ [CHR 0x0A]), Heard (''error:9'' @ [CHR 0x0A])] homed"

text \<open>
  An answer that is still due for a line of the operator's is handed to a client that
  connects before it comes. The controller has answered the homing command and refused the
  client's first line; the client has been given an ok it never earned, and the record blames
  its second line, claiming to be sure.
\<close>

theorem late_answer_goes_to_the_next_client:
  "map (\<lambda>e. (we_origin e, we_bytes e)) (br_wire crossed) =
     [(Injected, ''$H'' @ [CHR 0x0A]), (FromClient visitor, ''G1 X1'' @ [CHR 0x0A]),
      (FromClient visitor, ''G1 X2'' @ [CHR 0x0A])]
   \<and> wo_received (br_world crossed) = [(visitor, ''ok'' @ [CHR 0x0A]), (visitor, ''error:9'' @ [CHR 0x0A])]
   \<and> map ev_line (Recent 1 (br_journal crossed)) = [''G1 X2'']"
  by code_simp

text \<open>
  The guard of \<open>sendLines\<close> is a check, not a lock: a client that is attached between the
  check and the write has a line written into its session.
\<close>

theorem guard_is_only_a_check:
  "may_send (opened ''hold'')
   \<and> map (\<lambda>e. (we_origin e, we_bytes e, we_client e))
       (br_wire (fst (send_reserved [''$H''] (client_arrives visitor (opened ''hold''))))) =
     [(Injected, ''$H'' @ [CHR 0x0A], Some visitor)]"
  by code_simp

end
